(* ===== verification/Prelude.thy ===== *)
theory Prelude
  imports
    Main
    "HOL-Library.Word"
    "HOL-Library.Multiset"
    "HOL-Library.Sublist"
    "HOL-Library.Char_ord"
    "HOL-Library.List_Lexorder"
begin

text \<open>
  What the components share: the Go types the model uses, programs that thread a state and may
  return an error, the tables the repositories are built on, and the hint collections.

  A Go function that reads and writes shared state and returns \<open>(T, error)\<close> is a
  \<open>('s, 'e, 'a) prog\<close>: from the state to a result (\<open>Inl\<close> the error, \<open>Inr\<close> the value) and the
  next state. The shape \<open>x, err := f(); if err != nil { return err }; rest\<close> is
  \<open>andThen f (\<lambda>x. rest)\<close>.
\<close>

subsection \<open>Hint collections\<close>

named_theorems prog_simps \<open>evaluation of programs on a state\<close>
named_theorems success_iff \<open>what a successful run of a program did\<close>
named_theorems keeps_intros \<open>rules for invariants of programs, syntax directed\<close>

subsection \<open>Go types\<close>

text \<open>
  \<open>uuid.UUID\<close> is an array of 16 bytes. A \<open>time.Time\<close> is the number of nanoseconds since the Unix
  epoch, a \<open>time.Duration\<close> a number of nanoseconds. Go's \<open>int\<close> counters of this program stay far
  below \<open>2 ^ 63\<close>, so they are \<open>int\<close>. A Go string is a sequence of bytes, a \<open>string\<close> here.
\<close>

type_synonym uuid = "128 word"
type_synonym time = int
type_synonym duration = int

abbreviation uuid_nil :: uuid where
  "uuid_nil \<equiv> 0"

abbreviation second :: duration where
  "second \<equiv> 1000000000"

text \<open>The zero \<open>time.Time\<close> (1 January of year 1), which \<open>IsZero\<close> recognises.\<close>

definition zero_time :: time where
  "zero_time = - 62135596800000000000"

text \<open>
  \<open>int(d.Seconds())\<close> truncates towards zero. (\<open>Seconds\<close> goes through a \<open>float64\<close>, which is exact to
  the nanosecond for every duration the program uses.)
\<close>

definition whole_seconds :: "duration \<Rightarrow> int" where
  "whole_seconds d = sgn d * (\<bar>d\<bar> div second)"

text \<open>\<open>t.AddDate(0, 0, n)\<close> in UTC, where every day has 24 hours.\<close>

definition add_days :: "time \<Rightarrow> int \<Rightarrow> time" where
  "add_days t n = t + n * (24 * 60 * 60 * second)"

lemma whole_seconds_nonneg: "0 \<le> d \<Longrightarrow> whole_seconds d = d div second"
  by (cases "d = 0") (auto simp: whole_seconds_def sgn_if)

lemma whole_seconds_le: "whole_seconds d < 0 \<Longrightarrow> d < 0"
  by (auto simp: whole_seconds_def sgn_if split: if_splits)

text \<open>The number of Unicode characters of a UTF-8 string: the bytes that start one.\<close>

definition char_count :: "string \<Rightarrow> nat" where
  "char_count s = length (filter (\<lambda>c. \<not> (128 \<le> (of_char c :: nat) \<and> (of_char c :: nat) < 192)) s)"

lemma char_count_le_length: "char_count s \<le> length s"
  by (simp add: char_count_def)

lemma char_count_append [simp]: "char_count (s @ t) = char_count s + char_count t"
  by (simp add: char_count_def)

subsection \<open>Programs: state and error\<close>

type_synonym ('s, 'e, 'a) prog = "'s \<Rightarrow> ('e + 'a) \<times> 's"

definition ret :: "'a \<Rightarrow> ('s, 'e, 'a) prog" where
  "ret x = (\<lambda>s. (Inr x, s))"

definition throw :: "'e \<Rightarrow> ('s, 'e, 'a) prog" where
  "throw e = (\<lambda>s. (Inl e, s))"

definition andThen :: "('s, 'e, 'a) prog \<Rightarrow> ('a \<Rightarrow> ('s, 'e, 'b) prog) \<Rightarrow> ('s, 'e, 'b) prog" where
  "andThen m k = (\<lambda>s. case m s of (Inl e, s') \<Rightarrow> (Inl e, s') | (Inr x, s') \<Rightarrow> k x s')"

text \<open>\<open>if !b { return e }\<close>, and a pure computation that may fail.\<close>

definition ensure :: "bool \<Rightarrow> 'e \<Rightarrow> ('s, 'e, unit) prog" where
  "ensure b e = (if b then ret () else throw e)"

definition lift_result :: "'e + 'a \<Rightarrow> ('s, 'e, 'a) prog" where
  "lift_result r = (\<lambda>s. (r, s))"

text \<open>\<open>for _, x := range xs { if err := body(x); err != nil { return err } }\<close>\<close>

fun forEach :: "'x list \<Rightarrow> ('x \<Rightarrow> ('s, 'e, unit) prog) \<Rightarrow> ('s, 'e, unit) prog" where
  "forEach [] body = ret ()"
| "forEach (x # xs) body = andThen (body x) (\<lambda>_. forEach xs body)"

lemma ret_eval [prog_simps]: "ret x s = (Inr x, s)"
  by (simp add: ret_def)

lemma throw_eval [prog_simps]: "throw e s = (Inl e, s)"
  by (simp add: throw_def)

lemma lift_result_eval [prog_simps]: "lift_result r s = (r, s)"
  by (simp add: lift_result_def)

lemma ensure_eval [prog_simps]: "ensure b e s = (if b then Inr () else Inl e, s)"
  by (simp add: ensure_def ret_def throw_def)

lemma andThen_Inr [prog_simps]: "m s = (Inr x, s') \<Longrightarrow> andThen m k s = k x s'"
  by (simp add: andThen_def)

lemma andThen_Inl [prog_simps]: "m s = (Inl e, s') \<Longrightarrow> andThen m k s = (Inl e, s')"
  by (simp add: andThen_def)

lemma andThen_ret [simp]: "andThen m ret = m"
  by (auto simp: andThen_def ret_def split: prod.splits sum.splits)

lemma ret_andThen [simp]: "andThen (ret x) k = k x"
  by (auto simp: andThen_def ret_def)

lemma throw_andThen [simp]: "andThen (throw e) k = throw e"
  by (auto simp: andThen_def throw_def)

lemma andThen_assoc: "andThen (andThen m k) l = andThen m (\<lambda>x. andThen (k x) l)"
  by (auto simp: andThen_def split: prod.splits sum.splits)

text \<open>
  To run a program on a concrete state by rewriting: \<open>bindr\<close> passes a result on, and the congruence
  rules keep the rewriting out of a continuation until its argument is there.
\<close>

named_theorems run_simps \<open>running programs on concrete states\<close>

definition bindr :: "('e + 'a) \<times> 's \<Rightarrow> ('a \<Rightarrow> ('s, 'e, 'b) prog) \<Rightarrow> ('e + 'b) \<times> 's" where
  "bindr r k = (case r of (Inl e, s') \<Rightarrow> (Inl e, s') | (Inr x, s') \<Rightarrow> k x s')"

lemma bindr_simps [run_simps]: "bindr (Inl e, s) k = (Inl e, s)" "bindr (Inr x, s) k = k x s"
  by (simp_all add: bindr_def)

lemma andThen_run [run_simps]: "andThen m k s = bindr (m s) k"
  by (simp add: andThen_def bindr_def)

lemma forEach_run [run_simps]:
  "forEach [] body s = (Inr (), s)"
  "forEach (x # xs) body s = bindr (body x s) (\<lambda>_. forEach xs body)"
  by (simp_all add: ret_def andThen_run)

lemma bindr_cong: "r = r' \<Longrightarrow> bindr r k = bindr r' k"
  by simp

lemma andThen_cong: "andThen m k = andThen m k"
  by simp

lemma forEach_cong: "xs = ys \<Longrightarrow> forEach xs body = forEach ys body"
  by simp

lemmas run_congs = bindr_cong andThen_cong forEach_cong

lemmas [run_simps] = ret_eval throw_eval lift_result_eval ensure_eval

subsection \<open>Inversion of successful runs\<close>

lemma andThen_success [success_iff]:
  "andThen m k s = (Inr y, s'') \<longleftrightarrow> (\<exists>x s'. m s = (Inr x, s') \<and> k x s' = (Inr y, s''))"
  by (auto simp: andThen_def split: prod.splits sum.splits)

lemma ret_success [success_iff]: "ret x s = (Inr y, s') \<longleftrightarrow> y = x \<and> s' = s"
  by (auto simp: ret_def)

lemma throw_success [success_iff]: "throw e s = (Inr y, s') \<longleftrightarrow> False"
  by (simp add: throw_def)

lemma ensure_success [success_iff]: "ensure b e s = (Inr y, s') \<longleftrightarrow> b \<and> s' = s"
  by (auto simp: ensure_eval)

lemma lift_result_success [success_iff]:
  "lift_result r s = (Inr y, s') \<longleftrightarrow> r = Inr y \<and> s' = s"
  by (auto simp: lift_result_eval)

lemma andThen_failure:
  "andThen m k s = (Inl e, s'') \<longleftrightarrow>
     m s = (Inl e, s'') \<or> (\<exists>x s'. m s = (Inr x, s') \<and> k x s' = (Inl e, s''))"
  by (auto simp: andThen_def split: prod.splits sum.splits)

subsection \<open>Invariants of programs\<close>

text \<open>\<open>keeps I m\<close>: whatever \<open>m\<close> returns, it leads from states with \<open>I\<close> to states with \<open>I\<close>.\<close>

definition keeps :: "('s \<Rightarrow> bool) \<Rightarrow> ('s, 'e, 'a) prog \<Rightarrow> bool" where
  "keeps I m \<longleftrightarrow> (\<forall>s. I s \<longrightarrow> I (snd (m s)))"

lemma keepsI: "(\<And>s r s'. I s \<Longrightarrow> m s = (r, s') \<Longrightarrow> I s') \<Longrightarrow> keeps I m"
  unfolding keeps_def by (metis prod.collapse)

lemma keepsD: "keeps I m \<Longrightarrow> I s \<Longrightarrow> I (snd (m s))"
  by (simp add: keeps_def)

lemma keeps_ret [keeps_intros]: "keeps I (ret x)"
  by (simp add: keeps_def ret_def)

lemma keeps_throw [keeps_intros]: "keeps I (throw e)"
  by (simp add: keeps_def throw_def)

lemma keeps_ensure [keeps_intros]: "keeps I (ensure b e)"
  by (simp add: keeps_def ensure_eval)

lemma keeps_lift_result [keeps_intros]: "keeps I (lift_result r)"
  by (simp add: keeps_def lift_result_def)

lemma keeps_andThen [keeps_intros]:
  "keeps I m \<Longrightarrow> (\<And>x. keeps I (k x)) \<Longrightarrow> keeps I (andThen m k)"
  by (fastforce simp: keeps_def andThen_def split: prod.splits sum.splits)

lemma keeps_andThen_post:
  assumes "keeps I m" "\<And>s x s'. I s \<Longrightarrow> m s = (Inr x, s') \<Longrightarrow> I (snd (k x s'))"
  shows "keeps I (andThen m k)"
proof (rule keepsI)
  fix s r s'
  assume I: "I s" and run: "andThen m k s = (r, s')"
  show "I s'"
  proof (cases "m s")
    case (Pair r1 s1)
    with run keepsD [OF assms(1) I] assms(2) [OF I, of _ s1] show ?thesis
      by (cases r1) (auto simp: andThen_def)
  qed
qed

lemma snd_andThen_ret: "snd (andThen m (\<lambda>x. ret (f x)) s) = snd (m s)"
  by (simp add: andThen_def ret_def split: prod.split sum.split)

lemma keeps_if [keeps_intros]:
  "(b \<Longrightarrow> keeps I m) \<Longrightarrow> (\<not> b \<Longrightarrow> keeps I n) \<Longrightarrow> keeps I (if b then m else n)"
  by simp

lemma keeps_case_option [keeps_intros]:
  "keeps I m \<Longrightarrow> (\<And>x. keeps I (n x)) \<Longrightarrow> keeps I (case opt of None \<Rightarrow> m | Some x \<Rightarrow> n x)"
  by (cases opt) auto

lemma keeps_case_prod [keeps_intros]:
  "(\<And>a b. keeps I (m a b)) \<Longrightarrow> keeps I (case p of (a, b) \<Rightarrow> m a b)"
  by (cases p) auto

lemma keeps_case_sum:
  "(\<And>e. keeps I (f e)) \<Longrightarrow> (\<And>x. keeps I (g x)) \<Longrightarrow>
   keeps I (case r of Inl e \<Rightarrow> f e | Inr x \<Rightarrow> g x)"
  by (cases r) auto

lemma keeps_forEach [keeps_intros]:
  "(\<And>x. keeps I (body x)) \<Longrightarrow> keeps I (forEach xs body)"
  by (induction xs) (auto intro: keeps_intros)

lemma keeps_conj: "keeps I m \<Longrightarrow> keeps J m \<Longrightarrow> keeps (\<lambda>s. I s \<and> J s) m"
  by (simp add: keeps_def)

subsection \<open>Tables\<close>

text \<open>
  A table is the list of its rows in storage order. \<open>first_row\<close> is GORM's \<open>First\<close> (the first match
  in primary key order), \<open>save_row\<close> its \<open>Save\<close> (update the row with this key, insert it when there
  is none), \<open>update_rows\<close> and \<open>delete_rows\<close> are \<open>UPDATE ... WHERE\<close> and \<open>DELETE ... WHERE\<close>.
\<close>

definition first_row :: "('r \<Rightarrow> 'k::linorder) \<Rightarrow> ('r \<Rightarrow> bool) \<Rightarrow> 'r list \<Rightarrow> 'r option" where
  "first_row pk P t = (case sort_key pk (filter P t) of [] \<Rightarrow> None | r # _ \<Rightarrow> Some r)"

definition save_row :: "('r \<Rightarrow> 'k) \<Rightarrow> 'r \<Rightarrow> 'r list \<Rightarrow> 'r list" where
  "save_row pk r t =
     (if pk r \<in> pk ` set t then map (\<lambda>x. if pk x = pk r then r else x) t else t @ [r])"

definition update_rows :: "('r \<Rightarrow> bool) \<Rightarrow> ('r \<Rightarrow> 'r) \<Rightarrow> 'r list \<Rightarrow> 'r list" where
  "update_rows P f t = map (\<lambda>r. if P r then f r else r) t"

definition delete_rows :: "('r \<Rightarrow> bool) \<Rightarrow> 'r list \<Rightarrow> 'r list" where
  "delete_rows P t = filter (\<lambda>r. \<not> P r) t"

lemma first_row_cases:
  obtains "first_row pk P t = None" "{r \<in> set t. P r} = {}"
  | r where "first_row pk P t = Some r" "r \<in> set t" "P r"
proof (cases "sort_key pk (filter P t)")
  case Nil
  have "{r \<in> set t. P r} = set (sort_key pk (filter P t))" by simp
  also have "\<dots> = {}" by (simp only: Nil list.set)
  finally show ?thesis by (rule that(1) [rotated]) (simp add: first_row_def Nil)
next
  case (Cons r rs)
  have "r \<in> set (sort_key pk (filter P t))" by (simp only: Cons list.set_intros)
  then have "r \<in> set t" "P r" by simp_all
  then show ?thesis by (rule that(2) [rotated]) (simp add: first_row_def Cons)
qed

lemma first_row_Some: "first_row pk P t = Some r \<Longrightarrow> r \<in> set t \<and> P r"
  by (rule first_row_cases [of pk P t]) auto

lemma first_row_None: "first_row pk P t = None \<longleftrightarrow> (\<forall>r\<in>set t. \<not> P r)"
  by (rule first_row_cases [of pk P t]) auto

lemma first_row_unique:
  assumes "r \<in> set t" "P r" "\<And>x. x \<in> set t \<Longrightarrow> P x \<Longrightarrow> x = r"
  shows "first_row pk P t = Some r"
proof (cases "first_row pk P t")
  case None
  with assms(1,2) have False by (simp add: first_row_None)
  then show ?thesis ..
next
  case (Some x)
  from first_row_Some [OF this] assms(3) have "x = r" by blast
  with Some show ?thesis by simp
qed

lemma first_row_key:
  assumes "distinct (map pk t)" "r \<in> set t"
  shows "first_row pk (\<lambda>x. pk x = pk r) t = Some r"
  using assms by (intro first_row_unique) (auto simp: distinct_map inj_on_def)

lemma save_row_present:
  "pk r \<in> pk ` set t \<Longrightarrow> save_row pk r t = map (\<lambda>x. if pk x = pk r then r else x) t"
  by (simp add: save_row_def)

lemma set_save_row:
  "distinct (map pk t) \<Longrightarrow> set (save_row pk r t) = insert r {x \<in> set t. pk x \<noteq> pk r}"
  by (auto simp: save_row_def image_iff)

lemma map_save_row_present:
  assumes "pk r \<in> pk ` set t" "\<And>x. x \<in> set t \<Longrightarrow> pk x = pk r \<Longrightarrow> f x = f r"
  shows "map f (save_row pk r t) = map f t"
  using assms by (auto simp: save_row_def)

lemma keys_save_row_present [simp]:
  "pk r \<in> pk ` set t \<Longrightarrow> map pk (save_row pk r t) = map pk t"
  by (auto simp: save_row_def)

lemma distinct_save_row:
  assumes "distinct (map pk t)"
  shows "distinct (map pk (save_row pk r t))"
proof (cases "pk r \<in> pk ` set t")
  case True
  with assms show ?thesis by (simp only: keys_save_row_present)
next
  case False
  with assms show ?thesis by (simp add: save_row_def)
qed

lemma set_delete_rows [simp]: "set (delete_rows P t) = {r \<in> set t. \<not> P r}"
  by (auto simp: delete_rows_def)

lemma delete_rows_length: "length (delete_rows P t) \<le> length t"
  by (simp add: delete_rows_def)

lemma distinct_key_eq:
  "distinct (map pk t) \<Longrightarrow> x \<in> set t \<Longrightarrow> y \<in> set t \<Longrightarrow> pk x = pk y \<Longrightarrow> x = y"
  by (auto simp: distinct_map dest: inj_onD)

end
