(* ===== verification/Model.thy ===== *)
theory Model
  imports Prelude
begin

text \<open>
  The entities of \<open>backend/model\<close>: the enumerations with their \<open>Valid\<close> methods, the error values of
  the program, and one record per table with the methods of its Go struct. A nullable column
  (a Go pointer) is an option. Record fields are the struct's, prefixed with the entity.
\<close>

subsection \<open>Enumerations (model/enums.go)\<close>

text \<open>
  The Go enumerations are strings (or an int), so a value outside the constants is possible; the
  last constructor of each type stands for those.
\<close>

datatype GameStatus =
  GameStatusWaitingSecret | GameStatusInProgress | GameStatusFinished | OtherGameStatus string

definition GameStatus_Valid :: "GameStatus \<Rightarrow> bool" where
  "GameStatus_Valid s \<longleftrightarrow>
     s = GameStatusWaitingSecret \<or> s = GameStatusInProgress \<or> s = GameStatusFinished"

datatype Role = RoleUser | RoleMaster | OtherRole string

definition Role_Valid :: "Role \<Rightarrow> bool" where
  "Role_Valid r \<longleftrightarrow> r = RoleUser \<or> r = RoleMaster"

fun Role_string :: "Role \<Rightarrow> string" where
  "Role_string RoleUser = ''user''"
| "Role_string RoleMaster = ''master''"
| "Role_string (OtherRole s) = s"

type_synonym DigitResult = int

definition DigitMiss :: DigitResult where
  "DigitMiss = 0"

definition DigitHit :: DigitResult where
  "DigitHit = 1"

definition DigitResult_Valid :: "DigitResult \<Rightarrow> bool" where
  "DigitResult_Valid d \<longleftrightarrow> d = DigitMiss \<or> d = DigitHit"

datatype RefreshTokenStatus =
  RefreshTokenActive | RefreshTokenRevoked | OtherRefreshTokenStatus string

definition RefreshTokenStatus_Valid :: "RefreshTokenStatus \<Rightarrow> bool" where
  "RefreshTokenStatus_Valid s \<longleftrightarrow> s = RefreshTokenActive \<or> s = RefreshTokenRevoked"

datatype MatchingQueueStatus = MatchingQueueWaiting | OtherMatchingQueueStatus string

definition MatchingQueueStatus_Valid :: "MatchingQueueStatus \<Rightarrow> bool" where
  "MatchingQueueStatus_Valid s \<longleftrightarrow> s = MatchingQueueWaiting"

datatype LoginAction =
  LoginActionLogin | LoginActionLogout | LoginActionAutoLogout | OtherLoginAction string

definition LoginAction_Valid :: "LoginAction \<Rightarrow> bool" where
  "LoginAction_Valid a \<longleftrightarrow>
     a = LoginActionLogin \<or> a = LoginActionLogout \<or> a = LoginActionAutoLogout"

lemma digit_result_neq [simp]: "DigitHit \<noteq> DigitMiss" "DigitMiss \<noteq> DigitHit"
  by (simp_all add: DigitHit_def DigitMiss_def)

subsection \<open>Errors (model/errors.go, usecase/errors.go, repository/db_helpers.go)\<close>

text \<open>
  The sentinel errors of the program, an error with a text of its own (\<open>errors.New\<close> at the place
  of use), the failure of a call to the database or to Redis (\<open>ErrIO\<close>, which stands for every error
  of the drivers), and a Go panic, which unwinds the handler as an error would but cannot be
  ignored.
\<close>

datatype go_error =
    ErrBadUsername | ErrBadEmail | ErrWeakPassword | ErrBadLoginEmail | ErrBadRole
  | ErrBadGameStatus | ErrBadDigit | ErrBadDigitLength | ErrDuplicateDigit
  | ErrBadMatchingStatus | ErrBadLoginAction | ErrBadRefreshToken
  | ErrUnauthorized | ErrForbidden | ErrNotFound | ErrNotYourTurn | ErrGameNotStarted
  | ErrGameAlreadyFinished | ErrGameAlreadyStarted | ErrDuplicateUser | ErrUserInActiveGame
  | ErrAlreadyInMatching | ErrUserAlreadyDeleted | ErrCannotDeleteSelf | ErrCannotDeleteMaster
  | ErrRateLimitExceeded | ErrTokenExpired | ErrInternal
  | ErrBadRequest
  | RepoErrNotFound
  | ErrText string
  | ErrIO
  | Panic

subsection \<open>Game (model/game.go)\<close>

record game =
  game_ID :: uuid
  game_Status :: GameStatus
  game_Player1ID :: uuid
  game_Player2ID :: uuid
  game_Player1Secret :: string
  game_Player2Secret :: string
  game_CurrentTurnPlayerID :: "uuid option"
  game_CurrentTurn :: int
  game_WinnerID :: "uuid option"
  game_StartedAt :: "time option"
  game_FinishedAt :: "time option"
  game_CreatedAt :: time
  game_UpdatedAt :: time

definition IsParticipant :: "game \<Rightarrow> uuid \<Rightarrow> bool" where
  "IsParticipant g u \<longleftrightarrow> game_Player1ID g = u \<or> game_Player2ID g = u"

definition IsCurrentTurn :: "game \<Rightarrow> uuid \<Rightarrow> bool" where
  "IsCurrentTurn g u = (case game_CurrentTurnPlayerID g of None \<Rightarrow> False | Some p \<Rightarrow> p = u)"

definition CanGuess :: "game \<Rightarrow> uuid \<Rightarrow> bool" where
  "CanGuess g u \<longleftrightarrow> game_Status g = GameStatusInProgress \<and> IsCurrentTurn g u"

definition BothSecretsSet :: "game \<Rightarrow> bool" where
  "BothSecretsSet g \<longleftrightarrow> game_Player1Secret g \<noteq> '''' \<and> game_Player2Secret g \<noteq> ''''"

definition IsFinished :: "game \<Rightarrow> bool" where
  "IsFinished g \<longleftrightarrow> game_Status g = GameStatusFinished"

subsection \<open>Guess (model/guess.go)\<close>

record guess =
  guess_ID :: uuid
  guess_GameID :: uuid
  guess_PlayerID :: uuid
  guess_Turn :: int
  guess_GuessNumber :: string
  guess_DigitResults :: "DigitResult list"
  guess_HitCount :: int
  guess_IsAuto :: bool
  guess_CreatedAt :: time
  guess_UpdatedAt :: time

subsection \<open>User (model/user.go)\<close>

record user =
  user_ID :: uuid
  user_Username :: string
  user_Email :: string
  user_PasswordHash :: string
  user_Role :: Role
  user_WinCount :: int
  user_DeletedAt :: "time option"
  user_DeletedBy :: "uuid option"
  user_LastActivityAt :: time
  user_CreatedAt :: time
  user_UpdatedAt :: time

definition IsDeleted :: "user \<Rightarrow> bool" where
  "IsDeleted u \<longleftrightarrow> user_DeletedAt u \<noteq> None"

definition IsMaster :: "user \<Rightarrow> bool" where
  "IsMaster u \<longleftrightarrow> user_Role u = RoleMaster"

definition CanMatch :: "user \<Rightarrow> bool" where
  "CanMatch u \<longleftrightarrow> \<not> IsDeleted u \<and> \<not> IsMaster u"

subsection \<open>Refresh token (model/tokens.go)\<close>

record refresh_token =
  token_ID :: uuid
  token_UserID :: uuid
  token_TokenHash :: string
  token_FamilyID :: uuid
  token_Status :: RefreshTokenStatus
  token_ExpiresAt :: time
  token_RevokedAt :: "time option"
  token_ReplacedByTokenID :: "uuid option"
  token_CreatedAt :: time
  token_UpdatedAt :: time

definition IsRevoked :: "refresh_token \<Rightarrow> bool" where
  "IsRevoked t \<longleftrightarrow> token_RevokedAt t \<noteq> None \<or> token_Status t = RefreshTokenRevoked"

definition IsExpired :: "refresh_token \<Rightarrow> time \<Rightarrow> bool" where
  "IsExpired t now \<longleftrightarrow> \<not> now < token_ExpiresAt t"

definition IsActive :: "refresh_token \<Rightarrow> time \<Rightarrow> bool" where
  "IsActive t now \<longleftrightarrow> \<not> IsRevoked t \<and> \<not> IsExpired t now"

text \<open>\<open>uuid.New()\<close> is the argument \<open>newID\<close>.\<close>

definition NewRefreshToken ::
  "uuid \<Rightarrow> uuid \<Rightarrow> string \<Rightarrow> uuid \<Rightarrow> time \<Rightarrow> time \<Rightarrow> refresh_token" where
  "NewRefreshToken newID userID hash familyID expiresAt now =
     \<lparr>token_ID = newID, token_UserID = userID, token_TokenHash = hash,
      token_FamilyID = familyID, token_Status = RefreshTokenActive,
      token_ExpiresAt = expiresAt, token_RevokedAt = None, token_ReplacedByTokenID = None,
      token_CreatedAt = now, token_UpdatedAt = now\<rparr>"

subsection \<open>The other tables of backend/model\<close>

record match_history =
  history_ID :: uuid
  history_GameID :: uuid
  history_WinnerID :: uuid
  history_LoserID :: uuid
  history_WinnerUsername :: string
  history_LoserUsername :: string
  history_FinishedAt :: time
  history_CreatedAt :: time
  history_UpdatedAt :: time

record queue_entry =
  entry_ID :: uuid
  entry_UserID :: uuid
  entry_Status :: MatchingQueueStatus
  entry_CreatedAt :: time

record ranking =
  ranking_UserID :: uuid
  ranking_Rank :: int
  ranking_Username :: string
  ranking_WinCount :: int
  ranking_UpdatedAt :: time

record login_log =
  loginlog_ID :: uuid
  loginlog_UserID :: uuid
  loginlog_Action :: LoginAction
  loginlog_CreatedAt :: time
  loginlog_UpdatedAt :: time

record ws_connection_log =
  wslog_ID :: uuid
  wslog_UserID :: uuid
  wslog_ConnectionID :: string
  wslog_ConnectedAt :: time
  wslog_DisconnectedAt :: "time option"

text \<open>
  The detail of an activity log is JSON text built by \<open>json.Marshal\<close> from a map, and the payloads of
  the WebSocket events are such maps too; a map is kept as the list of its entries. \<open>JUuid\<close> is the
  text of an identifier.
\<close>

datatype json_value =
    JNull | JStr string | JInt int | JBool bool | JUuid uuid
  | JArr "json_value list" | JObj "(string \<times> json_value) list"

type_synonym json_object = "(string \<times> json_value) list"

record activity_log =
  actlog_ID :: uuid
  actlog_UserID :: "uuid option"
  actlog_LogType :: string
  actlog_Detail :: json_object
  actlog_CreatedAt :: time
  actlog_UpdatedAt :: time

lemmas model_predicates =
  IsParticipant_def IsCurrentTurn_def CanGuess_def BothSecretsSet_def IsFinished_def
  IsDeleted_def IsMaster_def CanMatch_def

text \<open>A game is active while its players may not join another one.\<close>

abbreviation active_status :: "GameStatus \<Rightarrow> bool" where
  "active_status s \<equiv> s = GameStatusWaitingSecret \<or> s = GameStatusInProgress"

lemma IsActive_NewRefreshToken:
  "IsActive (NewRefreshToken i u h f e n) t \<longleftrightarrow> t < e"
  by (auto simp: IsActive_def IsRevoked_def IsExpired_def NewRefreshToken_def)

end
