(* ===== verification/RateLimit.thy ===== *)
theory RateLimit
  imports Prelude "HOL-Library.AList"
begin

text \<open>
  \<open>middleware/rate\_limit.go\<close>: the sliding window that refuses the requests above a limit. The times of
  the requests let through are kept per key; \<open>allow\<close> first drops, in place, the ones that have left
  the window. The mutex makes a call atomic, so a limiter is a state and its calls are a sequence; the
  middlewares that ask it are with the others, in the theory of the HTTP layer.
\<close>

subsection \<open>The limiter\<close>

record rateLimiter =
  rl_hits :: "(string \<times> time list) list"

definition newRateLimiter :: rateLimiter where
  "newRateLimiter = \<lparr>rl_hits = []\<rparr>"

text \<open>Reading a key that is not in the map gives the nil slice.\<close>

definition hits_of :: "rateLimiter \<Rightarrow> string \<Rightarrow> time list" where
  "hits_of r key = (case map_of (rl_hits r) key of None \<Rightarrow> [] | Some ts \<Rightarrow> ts)"

text \<open>
  The loop over the old slice: \<open>kept\<close> is a slice of the same array, of length \<open>j\<close>, that grows behind
  the position \<open>i\<close> the loop reads.
\<close>

function drop_old :: "time \<Rightarrow> duration \<Rightarrow> time list \<Rightarrow> nat \<Rightarrow> nat \<Rightarrow> time list \<times> nat" where
  "drop_old t window arr i j =
     (if i < length arr then
        (if t - arr ! i < window then drop_old t window (arr[j := arr ! i]) (Suc i) (Suc j)
         else drop_old t window arr (Suc i) j)
      else (arr, j))"
  by pat_completeness auto

termination
  by (relation "measure (\<lambda>(t, window, arr, i, j). length arr - i)") auto

declare drop_old.simps [simp del]

definition allow :: "string \<Rightarrow> int \<Rightarrow> duration \<Rightarrow> time \<Rightarrow> rateLimiter \<Rightarrow> bool \<times> rateLimiter" where
  "allow key limit window t r =
     (if limit \<le> 0 then (True, r)
      else let (arr, j) = drop_old t window (hits_of r key) 0 0; kept = take j arr in
        if limit \<le> int (length kept) then (False, r\<lparr>rl_hits := AList.update key kept (rl_hits r)\<rparr>)
        else (True, r\<lparr>rl_hits := AList.update key (kept @ [t]) (rl_hits r)\<rparr>))"

text \<open>The limits of the public paths.\<close>

definition publicRateLimitForPath :: "string \<Rightarrow> int \<times> duration \<times> bool" where
  "publicRateLimitForPath path =
     (let window = 60 * second in
      if path = ''/api/auth/login'' then (10, window, True)
      else if path = ''/api/auth/register'' then (5, window, True)
      else if path = ''/api/auth/refresh'' then (30, window, True)
      else (0, window, False))"

subsection \<open>The loop filters\<close>

lemma drop_old_filter:
  "j \<le> i \<Longrightarrow> i \<le> length arr \<Longrightarrow> drop_old t window arr i j = (arr', j') \<Longrightarrow>
     take j' arr' = take j arr @ filter (\<lambda>x. t - x < window) (drop i arr)"
proof (induction t window arr i j rule: drop_old.induct)
  case (1 t window arr i j)
  show ?case
  proof (cases "i < length arr")
    case True
    then have d: "drop i arr = arr ! i # drop (Suc i) arr"
      by (rule Cons_nth_drop_Suc [symmetric])
    have u: "take (Suc j) (arr[j := arr ! i]) = take j arr @ [arr ! i]"
      using True \<open>j \<le> i\<close> by (simp add: take_Suc_conv_app_nth)
    have v: "drop (Suc i) (arr[j := arr ! i]) = drop (Suc i) arr"
      using \<open>j \<le> i\<close> by simp
    have run: "drop_old t window arr i j = (arr', j')" by fact
    show ?thesis
    proof (cases "t - arr ! i < window")
      case old: True
      from run True old have "drop_old t window (arr[j := arr ! i]) (Suc i) (Suc j) = (arr', j')"
        by (simp add: drop_old.simps [of t window arr i j])
      from "1.IH"(1) [OF True old _ _ this] True \<open>j \<le> i\<close> u v d old show ?thesis by simp
    next
      case new: False
      from run True new have "drop_old t window arr (Suc i) j = (arr', j')"
        by (simp add: drop_old.simps [of t window arr i j])
      from "1.IH"(2) [OF True new _ _ this] True \<open>j \<le> i\<close> d new show ?thesis by simp
    qed
  next
    case False
    have run: "drop_old t window arr i j = (arr', j')" by fact
    from False have "drop_old t window arr i j = (arr, j)"
      by (subst drop_old.simps) simp
    with run False have "arr' = arr \<and> j' = j \<and> drop i arr = []" by simp
    then show ?thesis by simp
  qed
qed

definition recent :: "time \<Rightarrow> duration \<Rightarrow> time list \<Rightarrow> time list" where
  "recent t window ts = filter (\<lambda>x. t - x < window) ts"

lemma allow_eq:
  "0 < limit \<Longrightarrow> allow key limit window t r =
     (let kept = recent t window (hits_of r key); ok = int (length kept) < limit in
      (ok, r\<lparr>rl_hits := AList.update key (if ok then kept @ [t] else kept) (rl_hits r)\<rparr>))"
proof -
  assume limit: "0 < limit"
  obtain arr j where loop: "drop_old t window (hits_of r key) 0 0 = (arr, j)"
    by (cases "drop_old t window (hits_of r key) 0 0")
  have "take j arr = recent t window (hits_of r key)"
    using drop_old_filter [OF _ _ loop] by (simp add: recent_def)
  with limit show ?thesis
    by (simp add: allow_def loop Let_def not_less del: length_take)
qed

lemma hits_of_update:
  "hits_of (r\<lparr>rl_hits := AList.update key ts (rl_hits r)\<rparr>) k = (if k = key then ts else hits_of r k)"
  by (simp add: hits_of_def update_conv)

lemma hits_of_allow:
  assumes "0 < limit"
  shows "fst (allow key limit window t r) \<longleftrightarrow> int (length (recent t window (hits_of r key))) < limit"
    "hits_of (snd (allow key limit window t r)) k =
       (if k \<noteq> key then hits_of r k
        else recent t window (hits_of r key) @ (if fst (allow key limit window t r) then [t] else []))"
  using assms by (simp_all add: allow_eq Let_def hits_of_update)

subsection \<open>A sequence of requests\<close>

text \<open>
  Requests are a key and a time; \<open>granted\<close> are the times of the requests of one key that are let
  through, when the limit of a key is \<open>lim\<close> of it.
\<close>

fun serve :: "(string \<Rightarrow> int) \<Rightarrow> duration \<Rightarrow> (string \<times> time) list \<Rightarrow> rateLimiter \<Rightarrow>
    (string \<times> time \<times> bool) list" where
  "serve lim window [] r = []"
| "serve lim window ((key, t) # reqs) r =
     (let (ok, r') = allow key (lim key) window t r in (key, t, ok) # serve lim window reqs r')"

definition granted :: "string \<Rightarrow> (string \<times> time \<times> bool) list \<Rightarrow> time list" where
  "granted key log = map (\<lambda>(k, t, ok). t) (filter (\<lambda>(k, t, ok). k = key \<and> ok) log)"

lemma granted_simps [simp]:
  "granted key [] = []"
  "granted key ((k, t, ok) # log) = (if k = key \<and> ok then t # granted key log else granted key log)"
  by (simp_all add: granted_def)

lemma recent_append: "recent t window (xs @ ys) = recent t window xs @ recent t window ys"
  by (simp add: recent_def)

lemma recent_recent: "t \<le> t' \<Longrightarrow> recent t' window (recent t window ts) = recent t' window ts"
  by (auto simp: recent_def intro!: filter_cong)

text \<open>
  What is granted to a key, together with what the limiter still holds of it, never exceeds the limit
  in any window; \<open>s\<close> is where a window starts.
\<close>

definition within :: "time \<Rightarrow> duration \<Rightarrow> time list \<Rightarrow> time list" where
  "within s window ts = filter (\<lambda>x. s \<le> x \<and> x < s + window) ts"

lemma within_simps [simp]:
  "within s window [] = []"
  "within s window (x # xs) =
     (if s \<le> x \<and> x < s + window then x # within s window xs else within s window xs)"
  by (simp_all add: within_def)

lemma within_append: "within s window (xs @ ys) = within s window xs @ within s window ys"
  by (simp add: within_def)

lemma granted_bounds:
  "sorted (map snd reqs) \<Longrightarrow> \<forall>q\<in>set reqs. t0 \<le> snd q \<Longrightarrow>
     x \<in> set (granted key (serve lim window reqs r)) \<Longrightarrow> t0 \<le> x"
  by (induction reqs arbitrary: r)
    (auto simp: Let_def split: prod.splits if_splits)

text \<open>One request of the key, inside the window: nothing it drops was in the window, and it is
  granted only below the limit.\<close>

lemma within_recent: "t < s + window \<Longrightarrow> within s window (recent t window ts) = within s window ts"
  by (auto simp: within_def recent_def intro!: filter_cong)

lemma allow_window:
  assumes "0 < limit" "t < s + window" "int (length (within s window (hits_of r key))) \<le> limit"
  shows "int (length (within s window (hits_of (snd (allow key limit window t r)) key))) \<le> limit"
proof (cases "fst (allow key limit window t r)")
  case True
  have "length (within s window (recent t window (hits_of r key))) \<le> length (recent t window (hits_of r key))"
    by (simp add: within_def)
  with True hits_of_allow [OF assms(1), of key window t r] show ?thesis by (auto simp: within_append)
next
  case False
  with assms hits_of_allow(2) [OF assms(1), of key window t r] show ?thesis by (simp add: within_recent)
qed

text \<open>A request of another key leaves the times of the key as they are.\<close>

lemma hits_of_allow_other:
  assumes "k \<noteq> key"
  shows "hits_of (snd (allow k limit window t r)) key = hits_of r key"
proof (cases "0 < limit")
  case True
  from hits_of_allow(2) [OF this] assms show ?thesis by simp
qed (simp add: allow_def)

lemma serve_window:
  assumes "0 < lim key" "0 < window" "sorted (map snd reqs)"
    and "\<forall>q\<in>set reqs. \<forall>x\<in>set (hits_of r key). x \<le> snd q"
    and "int (length (within s window (hits_of r key))) \<le> lim key"
  shows "int (length (within s window (hits_of r key @ granted key (serve lim window reqs r)))) \<le> lim key"
  using assms(3-5)
proof (induction reqs arbitrary: r)
  case (Cons q reqs)
  obtain k t where q: "q = (k, t)" by (cases q)
  show ?case
  proof (cases "k = key")
    case other: False
    from Cons.IH [of "snd (allow k (lim k) window t r)"] Cons.prems other
    show ?thesis by (simp add: q hits_of_allow_other Let_def split_beta)
  next
    case key: True
    let ?ok = "fst (allow key (lim key) window t r)" and ?r = "snd (allow key (lim key) window t r)"
    let ?new = "if ?ok then [t] else []" and ?rest = "granted key (serve lim window reqs ?r)"
    note step = hits_of_allow [OF assms(1), of key window t r]
    have rest: "\<forall>q\<in>set reqs. t \<le> snd q" "sorted (map snd reqs)"
      using Cons.prems(1) by (auto simp: q)
    have log: "granted key (serve lim window (q # reqs) r) = ?new @ ?rest"
      by (simp add: q key Let_def split_beta)
    show ?thesis
    proof (cases "t < s + window")
      case True
      have "\<forall>q\<in>set reqs. \<forall>x\<in>set (hits_of ?r key). x \<le> snd q"
        using rest(1) Cons.prems(2) by (auto simp: q step(2) recent_def split: if_splits)
      from Cons.IH [OF rest(2) this allow_window [OF assms(1) True Cons.prems(3)]] show ?thesis
        by (simp add: log step(2) within_append within_recent [OF True])
    next
      case False
      text \<open>The window is over.\<close>
      have "within s window ?new = []" using False by simp
      moreover have "within s window ?rest = []"
        using granted_bounds [OF rest(2,1), of _ key lim window ?r] False
        by (fastforce simp: within_def filter_empty_conv)
      ultimately show ?thesis using Cons.prems(3) by (simp add: log within_append)
    qed
  qed
qed simp

text \<open>A request is refused only when the window before it is full of granted ones.\<close>

lemma allow_refuses:
  assumes "0 < limit"
  shows "\<not> fst (allow key limit window t r) \<longleftrightarrow>
    limit \<le> int (length (filter (\<lambda>x. t - window < x) (hits_of r key)))"
proof -
  have "(\<lambda>x. t - x < window) = (\<lambda>x. t - window < x)" by auto
  then show ?thesis using hits_of_allow(1) [OF assms] by (simp add: recent_def not_less)
qed

lemma publicRateLimitForPath_limit:
  "publicRateLimitForPath path = (limit, window, True) \<Longrightarrow> 0 < limit \<and> window = 60 * second"
  by (auto simp: publicRateLimitForPath_def Let_def split: if_splits)

end
