(* ===== verification/Store.thy ===== *)
theory Store
  imports Model RateLimit
begin

text \<open>
  The state of the running program and the repositories. The database is a record with one list
  per table of \<open>backend/model\<close>; beside it the world holds what Redis stores, the clients of the
  WebSocket hub with the frames written to their connections, the two rate limiters, the backup
  database, and the inputs the program takes from outside, each as the sequence of
  its values with the number already used: readings of the clock, fresh identifiers, entropy
  (\<open>None\<close> when reading it fails), and which calls to a server fail. Any call to a server may fail, and
  has no effect then.
\<close>

subsection \<open>The database\<close>

record db =
  db_users :: "user list"
  db_games :: "game list"
  db_guesses :: "guess list"
  db_histories :: "match_history list"
  db_queue :: "queue_entry list"
  db_rankings :: "ranking list"
  db_tokens :: "refresh_token list"
  db_actlogs :: "activity_log list"
  db_loginlogs :: "login_log list"
  db_wslogs :: "ws_connection_log list"

text \<open>
  The production server enforces the \<open>size\<close> tags of the columns (\<open>varchar(n)\<close>, counted in
  characters); SQLite, which the tests use, does not.
\<close>

datatype dialect = Postgres | SQLite

abbreviation varchar :: "nat \<Rightarrow> string \<Rightarrow> bool" where
  "varchar n s \<equiv> char_count s \<le> n"

definition user_fits :: "user \<Rightarrow> bool" where
  "user_fits u \<longleftrightarrow> varchar 50 (user_Username u) \<and> varchar 255 (user_Email u) \<and>
     varchar 255 (user_PasswordHash u) \<and> varchar 20 (Role_string (user_Role u))"

definition game_fits :: "game \<Rightarrow> bool" where
  "game_fits g \<longleftrightarrow> varchar 255 (game_Player1Secret g) \<and> varchar 255 (game_Player2Secret g)"

definition guess_fits :: "guess \<Rightarrow> bool" where
  "guess_fits g \<longleftrightarrow> varchar 4 (guess_GuessNumber g)"

definition token_fits :: "refresh_token \<Rightarrow> bool" where
  "token_fits t \<longleftrightarrow> varchar 255 (token_TokenHash t)"

definition history_fits :: "match_history \<Rightarrow> bool" where
  "history_fits h \<longleftrightarrow> varchar 50 (history_WinnerUsername h) \<and> varchar 50 (history_LoserUsername h)"

subsection \<open>Redis\<close>

text \<open>
  The keys are the ones the key functions of \<open>redis/store.go\<close> and the lock key functions of the use
  cases build; the theory of the store renders them as the code does. A value expires at a time of
  the server's clock, or never.
\<close>

datatype rkey =
    JwtRevokedKey string
  | WsUserKey uuid
  | ForceLogoutKey uuid
  | TurnKey uuid
  | BackupStatusKey
  | SecretLockKey uuid uuid
  | GuessLockKey uuid uuid
  | RankingRebuildLockKey uuid
  | LogDownloadLockKey uuid
  | UserDeleteLockKey uuid

record turnPayload =
  tp_Turn :: int
  tp_PlayerID :: uuid
  tp_StartedAt :: time
  tp_ExpiresAt :: time

datatype rval =
    RStr string
  | RTurn turnPayload
  | RUnix int
  | RBackup string "time option"

type_synonym redis = "(rkey \<times> rval \<times> time option) list"

subsection \<open>The world\<close>

text \<open>A client of the WebSocket hub (\<open>websocket/hub.go\<close>); a connection is a number, \<open>None\<close> is \<open>nil\<close>.\<close>

record clientConn =
  cc_userID :: uuid
  cc_connID :: string
  cc_conn :: "nat option"

record world =
  w_db :: db
  w_redis :: redis
  w_hub :: "(uuid \<times> clientConn) list"
  w_frames :: "(nat \<times> json_value) list"
  w_closed :: "nat set"
  w_clock :: "nat \<Rightarrow> time"
  w_nclock :: nat
  w_ids :: "nat \<Rightarrow> uuid"
  w_nids :: nat
  w_rand :: "nat \<Rightarrow> int option"
  w_nrand :: nat
  w_faults :: "nat \<Rightarrow> bool"
  w_nio :: nat
  w_dialect :: dialect
  w_publicLimiter :: rateLimiter
  w_userLimiter :: rateLimiter
  w_backup :: db

type_synonym 'a go = "(world, go_error, 'a) prog"

definition now :: "time go" where
  "now = (\<lambda>w. (Inr (w_clock w (w_nclock w)), w\<lparr>w_nclock := Suc (w_nclock w)\<rparr>))"

definition newUUID :: "uuid go" where
  "newUUID = (\<lambda>w. (Inr (w_ids w (w_nids w)), w\<lparr>w_nids := Suc (w_nids w)\<rparr>))"

definition entropy :: "int go" where
  "entropy = (\<lambda>w. (case w_rand w (w_nrand w) of None \<Rightarrow> Inl ErrIO | Some r \<Rightarrow> Inr r,
     w\<lparr>w_nrand := Suc (w_nrand w)\<rparr>))"

text \<open>A call to a server: it fails when the world says so, and then has no effect.\<close>

definition io :: "'a go \<Rightarrow> 'a go" where
  "io m = (\<lambda>w. let w1 = w\<lparr>w_nio := Suc (w_nio w)\<rparr> in
     if w_faults w (w_nio w) then (Inl ErrIO, w1) else m w1)"

definition dbQuery :: "(db \<Rightarrow> 'a) \<Rightarrow> 'a go" where
  "dbQuery f = io (\<lambda>w. (Inr (f (w_db w)), w))"

text \<open>A statement: refused by the server (a constraint is violated), or a result and the new tables.\<close>

definition dbExec :: "(dialect \<Rightarrow> db \<Rightarrow> ('a \<times> db) option) \<Rightarrow> 'a go" where
  "dbExec f = io (\<lambda>w. case f (w_dialect w) (w_db w) of
     None \<Rightarrow> (Inl ErrIO, w)
   | Some (x, d) \<Rightarrow> (Inr x, w\<lparr>w_db := d\<rparr>))"

text \<open>
  \<open>repository/tx.go\<close>: \<open>WithTx\<close> begins, runs the function, and commits when it returned no error; in
  every other case, a panic included, the database is as before. Beginning and committing are
  calls that may fail.
\<close>

definition WithTx :: "'a go \<Rightarrow> 'a go" where
  "WithTx fn = (\<lambda>w0. case io (ret ()) w0 of
     (Inl e, w) \<Rightarrow> (Inl e, w)
   | (Inr _, w) \<Rightarrow> (case fn w of
       (Inl e, w') \<Rightarrow> (Inl e, w'\<lparr>w_db := w_db w\<rparr>)
     | (Inr x, w') \<Rightarrow> (case io (ret ()) w' of
         (Inl e, w'') \<Rightarrow> (Inl e, w''\<lparr>w_db := w_db w\<rparr>)
       | (Inr _, w'') \<Rightarrow> (Inr x, w''))))"

text \<open>\<open>_ = f()\<close> drops the error but not a panic.\<close>

definition ignoreErr :: "'a go \<Rightarrow> unit go" where
  "ignoreErr m = (\<lambda>w. case m w of
     (Inl e, w') \<Rightarrow> (if e = Panic then (Inl Panic, w') else (Inr (), w'))
   | (Inr _, w') \<Rightarrow> (Inr (), w'))"

text \<open>\<open>x, err := f()\<close> whose error the caller inspects itself: the result as a value.\<close>

definition attempt :: "'a go \<Rightarrow> (go_error + 'a) go" where
  "attempt m = (\<lambda>w. case m w of
     (Inl e, w') \<Rightarrow> (if e = Panic then (Inl Panic, w') else (Inr (Inl e), w'))
   | (Inr x, w') \<Rightarrow> (Inr (Inr x), w'))"

subsection \<open>Rules for the primitives\<close>

lemma now_eval [prog_simps]:
  "now w = (Inr (w_clock w (w_nclock w)), w\<lparr>w_nclock := Suc (w_nclock w)\<rparr>)"
  by (simp add: now_def)

lemma newUUID_eval [prog_simps]:
  "newUUID w = (Inr (w_ids w (w_nids w)), w\<lparr>w_nids := Suc (w_nids w)\<rparr>)"
  by (simp add: newUUID_def)

lemma dbQuery_eval [prog_simps]:
  "dbQuery f w = (if w_faults w (w_nio w) then Inl ErrIO else Inr (f (w_db w)),
     w\<lparr>w_nio := Suc (w_nio w)\<rparr>)"
  by (simp add: dbQuery_def io_def)

lemma dbExec_eval [prog_simps]:
  "dbExec f w =
     (if w_faults w (w_nio w) then (Inl ErrIO, w\<lparr>w_nio := Suc (w_nio w)\<rparr>)
      else case f (w_dialect w) (w_db w) of
        None \<Rightarrow> (Inl ErrIO, w\<lparr>w_nio := Suc (w_nio w)\<rparr>)
      | Some (x, d) \<Rightarrow> (Inr x, w\<lparr>w_nio := Suc (w_nio w), w_db := d\<rparr>))"
  by (simp add: dbExec_def io_def split: option.split)

text \<open>For runs on concrete states: what a transaction makes of the result of its function.\<close>

definition commit :: "db \<Rightarrow> (go_error + 'a) \<times> world \<Rightarrow> (go_error + 'a) \<times> world" where
  "commit d r = (case r of
     (Inl e, w) \<Rightarrow> (Inl e, w\<lparr>w_db := d\<rparr>)
   | (Inr x, w) \<Rightarrow> if w_faults w (w_nio w) then (Inl ErrIO, w\<lparr>w_nio := Suc (w_nio w), w_db := d\<rparr>)
                 else (Inr x, w\<lparr>w_nio := Suc (w_nio w)\<rparr>))"

definition ignored :: "(go_error + 'a) \<times> world \<Rightarrow> (go_error + unit) \<times> world" where
  "ignored r = (case r of
     (Inl e, w) \<Rightarrow> (if e = Panic then Inl Panic else Inr (), w) | (Inr x, w) \<Rightarrow> (Inr (), w))"

lemma commit_simps [run_simps]:
  "commit d (Inl e, w) = (Inl e, w\<lparr>w_db := d\<rparr>)"
  "commit d (Inr x, w) = (if w_faults w (w_nio w) then (Inl ErrIO, w\<lparr>w_nio := Suc (w_nio w), w_db := d\<rparr>)
     else (Inr x, w\<lparr>w_nio := Suc (w_nio w)\<rparr>))"
  by (simp_all add: commit_def)

lemma ignored_simps [run_simps]:
  "ignored (Inl e, w) = (if e = Panic then Inl Panic else Inr (), w)" "ignored (Inr x, w) = (Inr (), w)"
  by (simp_all add: ignored_def)

lemma WithTx_run [run_simps]:
  "WithTx fn w = (if w_faults w (w_nio w) then (Inl ErrIO, w\<lparr>w_nio := Suc (w_nio w)\<rparr>)
     else commit (w_db w) (fn (w\<lparr>w_nio := Suc (w_nio w)\<rparr>)))"
  by (auto simp: WithTx_def io_def ret_def Let_def commit_def split: prod.splits sum.splits)

lemma ignoreErr_run [run_simps]: "ignoreErr m w = ignored (m w)"
  by (auto simp: ignoreErr_def ignored_def split: prod.splits sum.splits)

lemma WithTx_cong: "WithTx m = WithTx m"
  by simp

lemma ignoreErr_cong: "ignoreErr m = ignoreErr m"
  by simp

lemmas go_congs = run_congs WithTx_cong ignoreErr_cong

lemmas [run_simps] = now_eval newUUID_eval dbQuery_eval dbExec_eval

lemma now_success [success_iff]:
  "now w = (Inr t, w') \<longleftrightarrow> t = w_clock w (w_nclock w) \<and> w' = w\<lparr>w_nclock := Suc (w_nclock w)\<rparr>"
  by (auto simp: now_def)

lemma newUUID_success [success_iff]:
  "newUUID w = (Inr t, w') \<longleftrightarrow> t = w_ids w (w_nids w) \<and> w' = w\<lparr>w_nids := Suc (w_nids w)\<rparr>"
  by (auto simp: newUUID_def)

lemma dbQuery_success [success_iff]:
  "dbQuery f w = (Inr x, w') \<longleftrightarrow>
     \<not> w_faults w (w_nio w) \<and> x = f (w_db w) \<and> w' = w\<lparr>w_nio := Suc (w_nio w)\<rparr>"
  by (auto simp: dbQuery_eval)

lemma dbExec_success [success_iff]:
  "dbExec f w = (Inr x, w') \<longleftrightarrow>
     \<not> w_faults w (w_nio w) \<and> (\<exists>d. f (w_dialect w) (w_db w) = Some (x, d) \<and>
       w' = w\<lparr>w_nio := Suc (w_nio w), w_db := d\<rparr>)"
  by (auto simp: dbExec_eval split: option.splits)

lemma io_ret_success [success_iff]:
  "io (ret x) w = (Inr y, w') \<longleftrightarrow>
     \<not> w_faults w (w_nio w) \<and> y = x \<and> w' = w\<lparr>w_nio := Suc (w_nio w)\<rparr>"
  by (auto simp: io_def ret_def Let_def)

lemma WithTx_success [success_iff]:
  "WithTx fn w = (Inr x, w'') \<longleftrightarrow>
     \<not> w_faults w (w_nio w) \<and>
     (\<exists>w'. fn (w\<lparr>w_nio := Suc (w_nio w)\<rparr>) = (Inr x, w') \<and> \<not> w_faults w' (w_nio w') \<and>
        w'' = w'\<lparr>w_nio := Suc (w_nio w')\<rparr>)"
  by (auto simp: WithTx_def io_def ret_def Let_def split: prod.splits sum.splits if_splits)

text \<open>A transaction that fails has not touched the database.\<close>

lemma WithTx_failure_db: "WithTx fn w = (Inl e, w') \<Longrightarrow> w_db w' = w_db w"
  by (auto simp: WithTx_def io_def ret_def Let_def split: prod.splits sum.splits if_splits)

lemma WithTx_closed:
  assumes "I (w_db w)" "\<And>x w1. fn (w\<lparr>w_nio := Suc (w_nio w)\<rparr>) = (Inr x, w1) \<Longrightarrow> I (w_db w1)"
  shows "I (w_db (snd (WithTx fn w)))"
proof (cases "WithTx fn w")
  case (Pair r w')
  then have "snd (WithTx fn w) = w'" by simp
  with Pair assms show ?thesis
    by (cases r) (auto simp: WithTx_failure_db WithTx_success)
qed

text \<open>An invariant of the database holds after a transaction if it holds after its successful runs.\<close>

lemma keeps_WithTx:
  assumes "\<And>w x w'. I (w_db w) \<Longrightarrow> fn w = (Inr x, w') \<Longrightarrow> I (w_db w')"
  shows "keeps (\<lambda>w. I (w_db w)) (WithTx fn)"
proof (rule keepsI)
  fix w r w'
  assume I: "I (w_db w)" and run: "WithTx fn w = (r, w')"
  show "I (w_db w')"
  proof (cases r)
    case (Inl e)
    with run I show ?thesis by (simp add: WithTx_failure_db)
  next
    case (Inr x)
    with run obtain w1 where fn: "fn (w\<lparr>w_nio := Suc (w_nio w)\<rparr>) = (Inr x, w1)"
      and w': "w' = w1\<lparr>w_nio := Suc (w_nio w1)\<rparr>"
      by (auto simp: WithTx_success)
    have "I (w_db (w\<lparr>w_nio := Suc (w_nio w)\<rparr>))" using I by simp
    from assms [OF this fn] show ?thesis by (simp add: w')
  qed
qed

lemma keeps_now [keeps_intros]: "keeps (\<lambda>w. I (w_db w)) now"
  by (simp add: keeps_def now_def)

lemma entropy_success [success_iff]:
  "entropy w = (Inr r, w') \<longleftrightarrow> w_rand w (w_nrand w) = Some r \<and> w' = w\<lparr>w_nrand := Suc (w_nrand w)\<rparr>"
  by (auto simp: entropy_def split: option.splits)

lemma keeps_entropy [keeps_intros]: "keeps (\<lambda>w. I (w_db w)) entropy"
  by (simp add: keeps_def entropy_def)

lemma keeps_newUUID [keeps_intros]: "keeps (\<lambda>w. I (w_db w)) newUUID"
  by (simp add: keeps_def newUUID_def)

lemma keeps_dbQuery [keeps_intros]: "keeps (\<lambda>w. I (w_db w)) (dbQuery f)"
  by (simp add: keeps_def dbQuery_eval)

lemma keeps_dbExec:
  assumes "\<And>dia d x d'. I d \<Longrightarrow> f dia d = Some (x, d') \<Longrightarrow> I d'"
  shows "keeps (\<lambda>w. I (w_db w)) (dbExec f)"
proof (rule keepsI)
  fix w r w'
  assume "I (w_db w)" "dbExec f w = (r, w')"
  with assms show "I (w_db w')"
    by (force simp: dbExec_eval split: if_splits option.splits)
qed

lemma keeps_ignoreErr [keeps_intros]: "keeps I m \<Longrightarrow> keeps I (ignoreErr m)"
  by (fastforce simp: keeps_def ignoreErr_def split: prod.splits sum.splits)

lemma keeps_attempt [keeps_intros]: "keeps I m \<Longrightarrow> keeps I (attempt m)"
  by (fastforce simp: keeps_def attempt_def split: prod.splits sum.splits)

subsection \<open>Errors a caller inspects\<close>

text \<open>\<open>if x == nil { return err }\<close> for a pointer, and an error replaced on the way (not a panic).\<close>

definition require :: "'a option \<Rightarrow> go_error \<Rightarrow> 'a go" where
  "require x e = (case x of None \<Rightarrow> throw e | Some y \<Rightarrow> ret y)"

definition mapErr :: "(go_error \<Rightarrow> go_error) \<Rightarrow> 'a go \<Rightarrow> 'a go" where
  "mapErr f m = (\<lambda>w. case m w of
     (Inl e, w') \<Rightarrow> (Inl (if e = Panic then Panic else f e), w') | (Inr x, w') \<Rightarrow> (Inr x, w'))"

lemma require_success [success_iff]: "require x e w = (Inr y, w') \<longleftrightarrow> x = Some y \<and> w' = w"
  by (auto simp: require_def success_iff split: option.splits)

lemma require_eval [prog_simps]:
  "require x e w = (case x of None \<Rightarrow> Inl e | Some y \<Rightarrow> Inr y, w)"
  by (simp add: require_def prog_simps split: option.split)

lemma mapErr_success [success_iff]: "mapErr f m w = (Inr y, w') \<longleftrightarrow> m w = (Inr y, w')"
  by (auto simp: mapErr_def split: prod.splits sum.splits)

lemma keeps_require [keeps_intros]: "keeps I (require x e)"
  by (cases x) (simp_all add: require_def keeps_ret keeps_throw)

lemma keeps_mapErr [keeps_intros]: "keeps I m \<Longrightarrow> keeps I (mapErr f m)"
  by (fastforce simp: keeps_def mapErr_def split: prod.splits sum.splits)

lemma ignoreErr_success [success_iff]:
  "ignoreErr m w = (Inr y, w') \<longleftrightarrow> (\<exists>r. m w = (r, w') \<and> r \<noteq> Inl Panic)"
  by (auto simp: ignoreErr_def split: prod.splits sum.splits if_splits)

lemma attempt_success [success_iff]:
  "attempt m w = (Inr r, w') \<longleftrightarrow> m w = (r, w') \<and> r \<noteq> Inl Panic"
  by (auto simp: attempt_def split: prod.splits sum.splits if_splits)

text \<open>\<open>mapRepoNotFound\<close>, \<open>mapRepoNotFoundAs\<close> and \<open>isRepoNotFound\<close> of \<open>usecase/errors.go\<close>.\<close>

definition isRepoNotFound :: "go_error \<Rightarrow> bool" where
  "isRepoNotFound e \<longleftrightarrow> e = RepoErrNotFound"

definition mapRepoNotFoundAs :: "go_error \<Rightarrow> go_error \<Rightarrow> go_error" where
  "mapRepoNotFoundAs target e = (if e = RepoErrNotFound then target else e)"

definition mapRepoNotFound :: "go_error \<Rightarrow> go_error" where
  "mapRepoNotFound e = (if e = RepoErrNotFound then ErrNotFound else e)"

end
