(* ===== verification/Repos.thy ===== *)
theory Repos
  imports Store
begin

text \<open>
  \<open>repository/*.go\<close>, one definition per method, over the tables of \<open>Store\<close>. A method that returns
  \<open>(*T, error)\<close> returns an option: \<open>nil\<close> without an error is \<open>None\<close>. A query without an \<open>ORDER BY\<close>
  returns the rows in storage order. A statement the server refuses (a duplicate value in a unique
  index, a value longer than its column on PostgreSQL) fails as any other call, with \<open>ErrIO\<close>.
\<close>

subsection \<open>repository/db\_helpers.go\<close>

text \<open>Go's 64-bit \<open>int\<close> wraps around.\<close>

definition wrap64 :: "int \<Rightarrow> int" where
  "wrap64 x = (x + 2 ^ 63) mod 2 ^ 64 - 2 ^ 63"

definition paginatePage :: "int \<Rightarrow> int \<Rightarrow> int \<times> int" where
  "paginatePage page limit =
     (let limit = (if limit \<le> 0 then 20 else limit);
          page = (if page \<le> 0 then 1 else page)
      in (limit, wrap64 (wrap64 (page - 1) * limit)))"

text \<open>\<open>Offset(o).Limit(l)\<close>: GORM leaves out an offset that is not positive.\<close>

definition sql_page :: "int \<Rightarrow> int \<Rightarrow> 'r list \<Rightarrow> 'r list" where
  "sql_page offset limit rows = take (nat limit) (drop (nat offset) rows)"

definition rowsAffected :: "go_error option \<Rightarrow> int \<Rightarrow> go_error + unit" where
  "rowsAffected err n =
     (case err of Some e \<Rightarrow> Inl e | None \<Rightarrow> if n = 0 then Inl RepoErrNotFound else Inr ())"

definition findOptional ::
  "(db \<Rightarrow> 'r list) \<Rightarrow> ('r \<Rightarrow> 'k::linorder) \<Rightarrow> ('r \<Rightarrow> bool) \<Rightarrow> 'r option go" where
  "findOptional table pk P = dbQuery (\<lambda>d. first_row pk P (table d))"

text \<open>The row lock of \<open>SELECT ... FOR UPDATE\<close> has no effect on the result; transactions are atomic here.\<close>

definition findOptionalForUpdate ::
  "(db \<Rightarrow> 'r list) \<Rightarrow> ('r \<Rightarrow> 'k::linorder) \<Rightarrow> ('r \<Rightarrow> bool) \<Rightarrow> 'r option go" where
  "findOptionalForUpdate table pk P = dbQuery (\<lambda>d. first_row pk P (table d))"

text \<open>\<open>Create\<close>: one row more, unless it breaks a unique index or does not fit its columns.\<close>

definition insert_row ::
  "('r \<Rightarrow> 'r \<Rightarrow> bool) \<Rightarrow> ('r \<Rightarrow> bool) \<Rightarrow> dialect \<Rightarrow> 'r \<Rightarrow> 'r list \<Rightarrow> 'r list option" where
  "insert_row conflict fits dia r t =
     (if (\<exists>x\<in>set t. conflict x r) \<or> (dia = Postgres \<and> \<not> fits r) then None else Some (t @ [r]))"

lemma insert_row_Some [success_iff]:
  "insert_row conflict fits dia r t = Some t' \<longleftrightarrow>
     \<not> (\<exists>x\<in>set t. conflict x r) \<and> (dia = Postgres \<longrightarrow> fits r) \<and> t' = t @ [r]"
  by (auto simp: insert_row_def)

subsection \<open>repository/user.go\<close>

definition user_conflict :: "user \<Rightarrow> user \<Rightarrow> bool" where
  "user_conflict x u \<longleftrightarrow> user_ID x = user_ID u \<or> user_Username x = user_Username u \<or>
     user_Email x = user_Email u"

definition userRepo_Create :: "user \<Rightarrow> unit go" where
  "userRepo_Create u = dbExec (\<lambda>dia d. map_option (\<lambda>t. ((), d\<lparr>db_users := t\<rparr>))
     (insert_row user_conflict user_fits dia u (db_users d)))"

definition userRepo_Update :: "user \<Rightarrow> unit go" where
  "userRepo_Update u = dbExec (\<lambda>dia d. if dia = Postgres \<and> \<not> user_fits u then None
     else Some ((), d\<lparr>db_users := save_row user_ID u (db_users d)\<rparr>))"

definition userRepo_FindByID :: "uuid \<Rightarrow> user option go" where
  "userRepo_FindByID i = findOptional db_users user_ID (\<lambda>u. user_ID u = i)"

definition userRepo_FindByEmail :: "string \<Rightarrow> user option go" where
  "userRepo_FindByEmail email = findOptional db_users user_ID (\<lambda>u. user_Email u = email)"

definition userRepo_FindByUsername :: "string \<Rightarrow> user option go" where
  "userRepo_FindByUsername name = findOptional db_users user_ID (\<lambda>u. user_Username u = name)"

definition userRepo_ListAll :: "user list go" where
  "userRepo_ListAll = dbQuery db_users"

definition userRepo_List :: "int \<Rightarrow> int \<Rightarrow> (user list \<times> int) go" where
  "userRepo_List page limit = (let (limit, offset) = paginatePage page limit in
     andThen (dbQuery (\<lambda>d. int (length (db_users d)))) (\<lambda>total.
     andThen (dbQuery (\<lambda>d. sql_page offset limit
       (sort_key (\<lambda>u. - user_CreatedAt u) (db_users d)))) (\<lambda>rows.
     ret (rows, total))))"

text \<open>
  The match of \<open>ILIKE '%query%'\<close> is the server's: the parameter \<open>ilike\<close> takes the pattern and the text.
\<close>

definition userSearchScope :: "(string \<Rightarrow> string \<Rightarrow> bool) \<Rightarrow> string \<Rightarrow> user list \<Rightarrow> user list" where
  "userSearchScope ilike pattern t =
     filter (\<lambda>u. ilike pattern (user_Username u) \<or> ilike pattern (user_Email u)) t"

definition userRepo_Search ::
  "(string \<Rightarrow> string \<Rightarrow> bool) \<Rightarrow> string \<Rightarrow> int \<Rightarrow> int \<Rightarrow> (user list \<times> int) go" where
  "userRepo_Search ilike query page limit =
     (let pattern = ''%'' @ query @ ''%''; (limit, offset) = paginatePage page limit in
     andThen (dbQuery (\<lambda>d. int (length (userSearchScope ilike pattern (db_users d))))) (\<lambda>total.
     andThen (dbQuery (\<lambda>d. sql_page offset limit
       (sort_key (\<lambda>u. - user_CreatedAt u) (userSearchScope ilike pattern (db_users d))))) (\<lambda>rows.
     ret (rows, total))))"

definition userRepo_FindUpdatedSince :: "time \<Rightarrow> user list go" where
  "userRepo_FindUpdatedSince since =
     dbQuery (\<lambda>d. filter (\<lambda>u. since < user_UpdatedAt u) (db_users d))"

definition userRepo_ListInactiveSince :: "time \<Rightarrow> user list go" where
  "userRepo_ListInactiveSince before = dbQuery (\<lambda>d.
     filter (\<lambda>u. user_DeletedAt u = None \<and> user_LastActivityAt u < before) (db_users d))"

definition userRepo_TouchLastActivity :: "uuid \<Rightarrow> time \<Rightarrow> unit go" where
  "userRepo_TouchLastActivity i t = dbExec (\<lambda>dia d. Some ((), d\<lparr>db_users :=
     update_rows (\<lambda>u. user_ID u = i \<and> user_DeletedAt u = None)
       (\<lambda>u. u\<lparr>user_LastActivityAt := t, user_UpdatedAt := t\<rparr>) (db_users d)\<rparr>))"

definition userRepo_ExistsActiveMaster :: "bool go" where
  "userRepo_ExistsActiveMaster = dbQuery (\<lambda>d.
     0 < length (filter (\<lambda>u. user_Role u = RoleMaster \<and> user_DeletedAt u = None) (db_users d)))"

subsection \<open>repository/game.go\<close>

definition gameRepo_Create :: "game \<Rightarrow> unit go" where
  "gameRepo_Create g = dbExec (\<lambda>dia d. map_option (\<lambda>t. ((), d\<lparr>db_games := t\<rparr>))
     (insert_row (\<lambda>x y. game_ID x = game_ID y) game_fits dia g (db_games d)))"

definition gameRepo_Update :: "game \<Rightarrow> unit go" where
  "gameRepo_Update g = dbExec (\<lambda>dia d. if dia = Postgres \<and> \<not> game_fits g then None
     else Some ((), d\<lparr>db_games := save_row game_ID g (db_games d)\<rparr>))"

definition gameRepo_FindByID :: "uuid \<Rightarrow> game option go" where
  "gameRepo_FindByID i = findOptional db_games game_ID (\<lambda>g. game_ID g = i)"

definition gameRepo_FindByIDForUpdate :: "uuid \<Rightarrow> game option go" where
  "gameRepo_FindByIDForUpdate i = findOptionalForUpdate db_games game_ID (\<lambda>g. game_ID g = i)"

definition gameRepo_ListByPlayerID :: "uuid \<Rightarrow> game list go" where
  "gameRepo_ListByPlayerID u = dbQuery (\<lambda>d.
     filter (\<lambda>g. game_Player1ID g = u \<or> game_Player2ID g = u) (db_games d))"

definition gameRepo_ListByStatus :: "GameStatus \<Rightarrow> game list go" where
  "gameRepo_ListByStatus s = dbQuery (\<lambda>d. filter (\<lambda>g. game_Status g = s) (db_games d))"

definition gameRepo_ListByStatusCreatedBefore :: "GameStatus \<Rightarrow> time \<Rightarrow> game list go" where
  "gameRepo_ListByStatusCreatedBefore s before = dbQuery (\<lambda>d.
     filter (\<lambda>g. game_Status g = s \<and> game_CreatedAt g < before) (db_games d))"

definition gameRepo_FindUpdatedSince :: "time \<Rightarrow> game list go" where
  "gameRepo_FindUpdatedSince since =
     dbQuery (\<lambda>d. filter (\<lambda>g. since < game_UpdatedAt g) (db_games d))"

subsection \<open>repository/guess.go\<close>

text \<open>The primary key, and the unique index on game, turn and player.\<close>

definition guess_conflict :: "guess \<Rightarrow> guess \<Rightarrow> bool" where
  "guess_conflict x r \<longleftrightarrow> guess_ID x = guess_ID r \<or>
     (guess_GameID x = guess_GameID r \<and> guess_Turn x = guess_Turn r \<and>
      guess_PlayerID x = guess_PlayerID r)"

definition guessRepo_Create :: "guess \<Rightarrow> unit go" where
  "guessRepo_Create r = dbExec (\<lambda>dia d. map_option (\<lambda>t. ((), d\<lparr>db_guesses := t\<rparr>))
     (insert_row guess_conflict guess_fits dia r (db_guesses d)))"

definition guessRepo_ListByGameAndPlayer :: "uuid \<Rightarrow> uuid \<Rightarrow> guess list go" where
  "guessRepo_ListByGameAndPlayer gid pid = dbQuery (\<lambda>d. sort_key guess_Turn
     (filter (\<lambda>r. guess_GameID r = gid \<and> guess_PlayerID r = pid) (db_guesses d)))"

definition guessRepo_CountByGameExcludingPlayer :: "uuid \<Rightarrow> uuid \<Rightarrow> int go" where
  "guessRepo_CountByGameExcludingPlayer gid pid = dbQuery (\<lambda>d. int (length
     (filter (\<lambda>r. guess_GameID r = gid \<and> guess_PlayerID r \<noteq> pid) (db_guesses d))))"

definition guessRepo_FindUpdatedSince :: "time \<Rightarrow> guess list go" where
  "guessRepo_FindUpdatedSince since =
     dbQuery (\<lambda>d. filter (\<lambda>r. since < guess_UpdatedAt r) (db_guesses d))"

subsection \<open>repository/match\_history.go\<close>

definition matchHistoryRepo_Create :: "match_history \<Rightarrow> unit go" where
  "matchHistoryRepo_Create h = dbExec (\<lambda>dia d. map_option (\<lambda>t. ((), d\<lparr>db_histories := t\<rparr>))
     (insert_row (\<lambda>x y. history_ID x = history_ID y \<or> history_GameID x = history_GameID y)
       history_fits dia h (db_histories d)))"

text \<open>
  \<open>ORDER BY finished_at DESC\<close> promises no order among results of the same time; here they come as they are stored.
  What is proved of pages takes the times to be different.
\<close>

definition matchHistoryRepo_ListByUserID ::
  "uuid \<Rightarrow> int \<Rightarrow> int \<Rightarrow> (match_history list \<times> int) go" where
  "matchHistoryRepo_ListByUserID u page limit =
     (let (limit, offset) = paginatePage page limit;
          mine = filter (\<lambda>h. history_WinnerID h = u \<or> history_LoserID h = u) in
     andThen (dbQuery (\<lambda>d. int (length (mine (db_histories d))))) (\<lambda>total.
     andThen (dbQuery (\<lambda>d. sql_page offset limit
       (sort_key (\<lambda>h. - history_FinishedAt h) (mine (db_histories d))))) (\<lambda>rows.
     ret (rows, total))))"

definition matchHistoryRepo_FindUpdatedSince :: "time \<Rightarrow> match_history list go" where
  "matchHistoryRepo_FindUpdatedSince since =
     dbQuery (\<lambda>d. filter (\<lambda>h. since < history_UpdatedAt h) (db_histories d))"

subsection \<open>repository/matching\_queue.go\<close>

definition matchingQueueRepo_Insert :: "queue_entry \<Rightarrow> unit go" where
  "matchingQueueRepo_Insert e = dbExec (\<lambda>dia d. map_option (\<lambda>t. ((), d\<lparr>db_queue := t\<rparr>))
     (insert_row (\<lambda>x y. entry_ID x = entry_ID y) (\<lambda>_. True) dia e (db_queue d)))"

definition matchingQueueRepo_DeleteByIDs :: "uuid list \<Rightarrow> unit go" where
  "matchingQueueRepo_DeleteByIDs ids =
     (if ids = [] then ret () else dbExec (\<lambda>dia d. Some ((), d\<lparr>db_queue :=
        delete_rows (\<lambda>e. entry_ID e \<in> set ids) (db_queue d)\<rparr>)))"

definition matchingQueueRepo_DeleteByUserID :: "uuid \<Rightarrow> unit go" where
  "matchingQueueRepo_DeleteByUserID u = dbExec (\<lambda>dia d. Some ((), d\<lparr>db_queue :=
     delete_rows (\<lambda>e. entry_UserID e = u) (db_queue d)\<rparr>))"

definition matchingQueueRepo_ListByStatusForUpdate ::
  "MatchingQueueStatus \<Rightarrow> int \<Rightarrow> queue_entry list go" where
  "matchingQueueRepo_ListByStatusForUpdate s limit = dbQuery (\<lambda>d. take (nat limit)
     (sort_key entry_CreatedAt (filter (\<lambda>e. entry_Status e = s) (db_queue d))))"

text \<open>\<open>Order("created_at DESC")\<close> and then \<open>First\<close>, which orders by the key as well.\<close>

definition matchingQueueRepo_FindByUserID :: "uuid \<Rightarrow> queue_entry option go" where
  "matchingQueueRepo_FindByUserID u = dbQuery (\<lambda>d.
     case sort_key (\<lambda>e. - entry_CreatedAt e)
       (sort_key entry_ID (filter (\<lambda>e. entry_UserID e = u) (db_queue d))) of
       [] \<Rightarrow> None | e # _ \<Rightarrow> Some e)"

subsection \<open>repository/ranking.go\<close>

definition rankingRepo_ReplaceAll :: "ranking list \<Rightarrow> unit go" where
  "rankingRepo_ReplaceAll rs =
     andThen (dbExec (\<lambda>dia d. Some ((), d\<lparr>db_rankings := []\<rparr>))) (\<lambda>_.
     if rs = [] then ret ()
     else dbExec (\<lambda>dia d.
       if \<not> distinct (map ranking_UserID rs) \<or>
          (\<exists>r\<in>set rs. ranking_UserID r \<in> ranking_UserID ` set (db_rankings d)) \<or>
          (dia = Postgres \<and> (\<exists>r\<in>set rs. \<not> varchar 50 (ranking_Username r)))
       then None else Some ((), d\<lparr>db_rankings := db_rankings d @ rs\<rparr>)))"

definition rankingRepo_ListAll :: "ranking list go" where
  "rankingRepo_ListAll = dbQuery (\<lambda>d. sort_key ranking_Rank (db_rankings d))"

definition rankingRepo_FindUpdatedSince :: "time \<Rightarrow> ranking list go" where
  "rankingRepo_FindUpdatedSince since =
     dbQuery (\<lambda>d. filter (\<lambda>r. since < ranking_UpdatedAt r) (db_rankings d))"

subsection \<open>repository/refresh\_token.go\<close>

definition refreshTokenRepo_FindByTokenHash :: "string \<Rightarrow> refresh_token option go" where
  "refreshTokenRepo_FindByTokenHash h =
     findOptional db_tokens token_ID (\<lambda>t. token_TokenHash t = h)"

definition refreshTokenRepo_FindByTokenHashForUpdate :: "string \<Rightarrow> refresh_token option go" where
  "refreshTokenRepo_FindByTokenHashForUpdate h =
     findOptionalForUpdate db_tokens token_ID (\<lambda>t. token_TokenHash t = h)"

text \<open>\<open>status = 'active' AND revoked_at IS NULL\<close>, the guard of every revocation.\<close>

definition token_revocable :: "refresh_token \<Rightarrow> bool" where
  "token_revocable t \<longleftrightarrow> token_Status t = RefreshTokenActive \<and> token_RevokedAt t = None"

definition token_revoke :: "time \<Rightarrow> refresh_token \<Rightarrow> refresh_token" where
  "token_revoke t r =
     r\<lparr>token_Status := RefreshTokenRevoked, token_RevokedAt := Some t, token_UpdatedAt := t\<rparr>"

text \<open>An \<open>UPDATE\<close> of the tokens; its result is the number of rows it changed.\<close>

definition update_tokens ::
  "(refresh_token \<Rightarrow> bool) \<Rightarrow> (refresh_token \<Rightarrow> refresh_token) \<Rightarrow> int go" where
  "update_tokens P f = dbExec (\<lambda>dia d. Some (int (length (filter P (db_tokens d))),
     d\<lparr>db_tokens := update_rows P f (db_tokens d)\<rparr>))"

definition refreshTokenRepo_MarkUsed :: "uuid \<Rightarrow> time \<Rightarrow> uuid \<Rightarrow> unit go" where
  "refreshTokenRepo_MarkUsed i usedAt replacedBy =
     andThen (update_tokens (\<lambda>t. token_ID t = i \<and> token_revocable t)
       (\<lambda>t. (token_revoke usedAt t)\<lparr>token_ReplacedByTokenID := Some replacedBy\<rparr>)) (\<lambda>n.
     lift_result (rowsAffected None n))"

definition token_conflict :: "refresh_token \<Rightarrow> refresh_token \<Rightarrow> bool" where
  "token_conflict x y \<longleftrightarrow> token_ID x = token_ID y \<or> token_TokenHash x = token_TokenHash y"

definition refreshTokenRepo_Create :: "refresh_token \<Rightarrow> unit go" where
  "refreshTokenRepo_Create t = dbExec (\<lambda>dia d. map_option (\<lambda>ts. ((), d\<lparr>db_tokens := ts\<rparr>))
     (insert_row token_conflict token_fits dia t (db_tokens d)))"

definition refreshTokenRepo_Revoke :: "uuid \<Rightarrow> time \<Rightarrow> unit go" where
  "refreshTokenRepo_Revoke i revokedAt =
     andThen (update_tokens (\<lambda>t. token_ID t = i \<and> token_revocable t) (token_revoke revokedAt)) (\<lambda>n.
     lift_result (rowsAffected None n))"

definition refreshTokenRepo_RevokeByFamilyID :: "uuid \<Rightarrow> time \<Rightarrow> unit go" where
  "refreshTokenRepo_RevokeByFamilyID fam revokedAt =
     andThen (update_tokens (\<lambda>t. token_FamilyID t = fam \<and> token_revocable t)
       (token_revoke revokedAt)) (\<lambda>_. ret ())"

definition refreshTokenRepo_RevokeByUserID :: "uuid \<Rightarrow> time \<Rightarrow> unit go" where
  "refreshTokenRepo_RevokeByUserID u revokedAt =
     andThen (update_tokens (\<lambda>t. token_UserID t = u \<and> token_revocable t)
       (token_revoke revokedAt)) (\<lambda>_. ret ())"

definition token_deletable :: "time \<Rightarrow> refresh_token \<Rightarrow> bool" where
  "token_deletable t r \<longleftrightarrow>
     (token_Status r = RefreshTokenActive \<and> token_ExpiresAt r < t) \<or>
     (token_Status r = RefreshTokenRevoked \<and>
       (case token_RevokedAt r of None \<Rightarrow> False | Some rv \<Rightarrow> rv < t))"

definition refreshTokenRepo_DeleteExpired :: "time \<Rightarrow> int go" where
  "refreshTokenRepo_DeleteExpired t = dbExec (\<lambda>dia d.
     Some (int (length (filter (token_deletable t) (db_tokens d))),
       d\<lparr>db_tokens := delete_rows (token_deletable t) (db_tokens d)\<rparr>))"

subsection \<open>repository/log.go\<close>

text \<open>At most \<open>n\<close> of the matching rows, the first ones.\<close>

fun delete_limit :: "nat \<Rightarrow> ('r \<Rightarrow> bool) \<Rightarrow> 'r list \<Rightarrow> 'r list" where
  "delete_limit n P [] = []"
| "delete_limit n P (r # rs) =
     (if 0 < n \<and> P r then delete_limit (n - 1) P rs else r # delete_limit n P rs)"

text \<open>
  \<open>Where(P).Limit(n).Delete(...)\<close>: a \<open>DELETE\<close> of PostgreSQL has no \<open>LIMIT\<close>, and GORM leaves the clause out
  of the statement, so all matching rows go; elsewhere \<open>n\<close> at most.
\<close>

definition delete_batch :: "dialect \<Rightarrow> int \<Rightarrow> ('r \<Rightarrow> bool) \<Rightarrow> 'r list \<Rightarrow> 'r list" where
  "delete_batch dia n P t = (if dia = Postgres then filter (\<lambda>r. \<not> P r) t else delete_limit (nat n) P t)"

definition activityLogRepo_Create :: "activity_log \<Rightarrow> unit go" where
  "activityLogRepo_Create l = dbExec (\<lambda>dia d. map_option (\<lambda>t. ((), d\<lparr>db_actlogs := t\<rparr>))
     (insert_row (\<lambda>x y. actlog_ID x = actlog_ID y) (\<lambda>x. varchar 50 (actlog_LogType x))
       dia l (db_actlogs d)))"

definition actlog_matches ::
  "string \<Rightarrow> uuid option \<Rightarrow> time option \<Rightarrow> time option \<Rightarrow> activity_log \<Rightarrow> bool" where
  "actlog_matches logType userID from to l \<longleftrightarrow>
     (logType \<noteq> '''' \<longrightarrow> actlog_LogType l = logType) \<and>
     (case userID of None \<Rightarrow> True | Some u \<Rightarrow> actlog_UserID l = Some u) \<and>
     (case from of None \<Rightarrow> True | Some t \<Rightarrow> t \<le> actlog_CreatedAt l) \<and>
     (case to of None \<Rightarrow> True | Some t \<Rightarrow> actlog_CreatedAt l \<le> t)"

definition activityLogRepo_Search ::
  "string \<Rightarrow> uuid option \<Rightarrow> time option \<Rightarrow> time option \<Rightarrow> int \<Rightarrow> int \<Rightarrow> (activity_log list \<times> int) go"
  where
  "activityLogRepo_Search logType userID from to page limit =
     (let q = filter (actlog_matches logType userID from to) in
     andThen (dbQuery (\<lambda>d. int (length (q (db_actlogs d))))) (\<lambda>total.
     let (limit, offset) = paginatePage page limit in
     andThen (dbQuery (\<lambda>d. sql_page offset limit
       (sort_key (\<lambda>l. - actlog_CreatedAt l) (q (db_actlogs d))))) (\<lambda>rows.
     ret (rows, total))))"

definition activityLogRepo_ListDistinctLogTypes :: "string list go" where
  "activityLogRepo_ListDistinctLogTypes =
     dbQuery (\<lambda>d. sort (remdups (map actlog_LogType (db_actlogs d))))"

definition activityLogRepo_DeleteOlderThan :: "time \<Rightarrow> int \<Rightarrow> int go" where
  "activityLogRepo_DeleteOlderThan before batch = dbExec (\<lambda>dia d.
     let t = delete_batch dia batch (\<lambda>l. actlog_CreatedAt l < before) (db_actlogs d) in
     Some (int (length (db_actlogs d)) - int (length t), d\<lparr>db_actlogs := t\<rparr>))"

definition activityLogRepo_FindUpdatedSince :: "time \<Rightarrow> activity_log list go" where
  "activityLogRepo_FindUpdatedSince since =
     dbQuery (\<lambda>d. filter (\<lambda>l. since < actlog_UpdatedAt l) (db_actlogs d))"

definition loginLogRepo_Create :: "login_log \<Rightarrow> unit go" where
  "loginLogRepo_Create l = dbExec (\<lambda>dia d. map_option (\<lambda>t. ((), d\<lparr>db_loginlogs := t\<rparr>))
     (insert_row (\<lambda>x y. loginlog_ID x = loginlog_ID y) (\<lambda>_. True) dia l (db_loginlogs d)))"

definition loginLogRepo_ListByUserID :: "uuid \<Rightarrow> int \<Rightarrow> int \<Rightarrow> (login_log list \<times> int) go" where
  "loginLogRepo_ListByUserID u page limit =
     (let (limit, offset) = paginatePage page limit; mine = filter (\<lambda>l. loginlog_UserID l = u) in
     andThen (dbQuery (\<lambda>d. int (length (mine (db_loginlogs d))))) (\<lambda>total.
     andThen (dbQuery (\<lambda>d. sql_page offset limit
       (sort_key (\<lambda>l. - loginlog_CreatedAt l) (mine (db_loginlogs d))))) (\<lambda>rows.
     ret (rows, total))))"

definition loginLogRepo_DeleteOlderThan :: "time \<Rightarrow> int \<Rightarrow> int go" where
  "loginLogRepo_DeleteOlderThan before batch = dbExec (\<lambda>dia d.
     let t = delete_batch dia batch (\<lambda>l. loginlog_CreatedAt l < before) (db_loginlogs d) in
     Some (int (length (db_loginlogs d)) - int (length t), d\<lparr>db_loginlogs := t\<rparr>))"

definition loginLogRepo_FindUpdatedSince :: "time \<Rightarrow> login_log list go" where
  "loginLogRepo_FindUpdatedSince since =
     dbQuery (\<lambda>d. filter (\<lambda>l. since < loginlog_UpdatedAt l) (db_loginlogs d))"

definition wsConnectionLogRepo_Create :: "ws_connection_log \<Rightarrow> unit go" where
  "wsConnectionLogRepo_Create l = dbExec (\<lambda>dia d. map_option (\<lambda>t. ((), d\<lparr>db_wslogs := t\<rparr>))
     (insert_row (\<lambda>x y. wslog_ID x = wslog_ID y) (\<lambda>x. varchar 64 (wslog_ConnectionID x))
       dia l (db_wslogs d)))"

definition wsConnectionLogRepo_UpdateDisconnected :: "uuid \<Rightarrow> time \<Rightarrow> unit go" where
  "wsConnectionLogRepo_UpdateDisconnected i t = dbExec (\<lambda>dia d. Some ((), d\<lparr>db_wslogs :=
     update_rows (\<lambda>l. wslog_ID l = i) (\<lambda>l. l\<lparr>wslog_DisconnectedAt := Some t\<rparr>) (db_wslogs d)\<rparr>))"

definition wsConnectionLogRepo_ListByUserID ::
  "uuid \<Rightarrow> int \<Rightarrow> int \<Rightarrow> (ws_connection_log list \<times> int) go" where
  "wsConnectionLogRepo_ListByUserID u page limit =
     (let (limit, offset) = paginatePage page limit; mine = filter (\<lambda>l. wslog_UserID l = u) in
     andThen (dbQuery (\<lambda>d. int (length (mine (db_wslogs d))))) (\<lambda>total.
     andThen (dbQuery (\<lambda>d. sql_page offset limit
       (sort_key (\<lambda>l. - wslog_ConnectedAt l) (mine (db_wslogs d))))) (\<lambda>rows.
     ret (rows, total))))"

definition wsConnectionLogRepo_DeleteOlderThan :: "time \<Rightarrow> int \<Rightarrow> int go" where
  "wsConnectionLogRepo_DeleteOlderThan before batch = dbExec (\<lambda>dia d.
     let t = delete_batch dia batch (\<lambda>l. wslog_ConnectedAt l < before) (db_wslogs d) in
     Some (int (length (db_wslogs d)) - int (length t), d\<lparr>db_wslogs := t\<rparr>))"

subsection \<open>Facts about the queries\<close>

lemmas find_defs =
  userRepo_FindByID_def userRepo_FindByEmail_def userRepo_FindByUsername_def
  gameRepo_FindByID_def gameRepo_FindByIDForUpdate_def
  refreshTokenRepo_FindByTokenHash_def refreshTokenRepo_FindByTokenHashForUpdate_def
  findOptional_def findOptionalForUpdate_def

lemmas query_defs =
  find_defs userRepo_ListAll_def userRepo_ListInactiveSince_def userRepo_ExistsActiveMaster_def
  gameRepo_ListByPlayerID_def gameRepo_ListByStatus_def gameRepo_ListByStatusCreatedBefore_def
  guessRepo_ListByGameAndPlayer_def guessRepo_CountByGameExcludingPlayer_def
  matchingQueueRepo_ListByStatusForUpdate_def matchingQueueRepo_FindByUserID_def
  rankingRepo_ListAll_def activityLogRepo_ListDistinctLogTypes_def

lemma keeps_find [keeps_intros]:
  "keeps (\<lambda>w. I (w_db w)) (userRepo_FindByID i)"
  "keeps (\<lambda>w. I (w_db w)) (userRepo_FindByEmail e)"
  "keeps (\<lambda>w. I (w_db w)) (userRepo_FindByUsername e)"
  "keeps (\<lambda>w. I (w_db w)) (gameRepo_FindByID i)"
  "keeps (\<lambda>w. I (w_db w)) (gameRepo_FindByIDForUpdate i)"
  "keeps (\<lambda>w. I (w_db w)) (refreshTokenRepo_FindByTokenHash e)"
  "keeps (\<lambda>w. I (w_db w)) (refreshTokenRepo_FindByTokenHashForUpdate e)"
  by (simp_all add: find_defs keeps_dbQuery)

lemma keeps_list [keeps_intros]:
  "keeps (\<lambda>w. I (w_db w)) userRepo_ListAll"
  "keeps (\<lambda>w. I (w_db w)) (userRepo_ListInactiveSince t)"
  "keeps (\<lambda>w. I (w_db w)) userRepo_ExistsActiveMaster"
  "keeps (\<lambda>w. I (w_db w)) (gameRepo_ListByPlayerID i)"
  "keeps (\<lambda>w. I (w_db w)) (gameRepo_ListByStatus s)"
  "keeps (\<lambda>w. I (w_db w)) (gameRepo_ListByStatusCreatedBefore s t)"
  "keeps (\<lambda>w. I (w_db w)) (guessRepo_ListByGameAndPlayer i j)"
  "keeps (\<lambda>w. I (w_db w)) (guessRepo_CountByGameExcludingPlayer i j)"
  "keeps (\<lambda>w. I (w_db w)) (matchingQueueRepo_ListByStatusForUpdate qs n)"
  "keeps (\<lambda>w. I (w_db w)) (matchingQueueRepo_FindByUserID i)"
  "keeps (\<lambda>w. I (w_db w)) rankingRepo_ListAll"
  by (simp_all add: query_defs keeps_dbQuery)

lemma wrap64_id: "- (2 ^ 63) \<le> x \<Longrightarrow> x < 2 ^ 63 \<Longrightarrow> wrap64 x = x"
  by (simp add: wrap64_def)

end
