(* ===== verification/RedisStore.thy ===== *)
theory RedisStore
  imports Store
begin

text \<open>
  \<open>redis/store.go\<close>: the store the use cases see through the interfaces \<open>IGameLockStore\<close>,
  \<open>IDistributedLockStore\<close>, \<open>ITurnStore\<close>, \<open>IJWTRevoker\<close>, \<open>IForceLogoutStore\<close>, \<open>IWSSessionStore\<close> and
  \<open>IBackupStatusStore\<close>. The server is an association list of keys to a value and its expiry; a call
  reads the server's clock, and an entry is there until its expiry. The interfaces come last, as
  locales, each interpreted on the store.
\<close>

subsection \<open>Commands of the server\<close>

definition r_get :: "rkey \<Rightarrow> time \<Rightarrow> redis \<Rightarrow> rval option" where
  "r_get k t r = (case map_of r k of
     None \<Rightarrow> None
   | Some (v, None) \<Rightarrow> Some v
   | Some (v, Some e) \<Rightarrow> if t < e then Some v else None)"

definition r_set :: "rkey \<Rightarrow> rval \<Rightarrow> time option \<Rightarrow> redis \<Rightarrow> redis" where
  "r_set k v e r = AList.update k (v, e) r"

definition r_del :: "rkey \<Rightarrow> redis \<Rightarrow> redis" where
  "r_del k r = AList.delete k r"

lemma r_get_set [simp]:
  "r_get k t (r_set k' v e r) =
     (if k = k' then (case e of None \<Rightarrow> Some v | Some x \<Rightarrow> if t < x then Some v else None)
      else r_get k t r)"
  by (auto simp: r_get_def r_set_def update_conv split: option.splits)

lemma r_get_del [simp]: "r_get k t (r_del k' r) = (if k = k' then None else r_get k t r)"
  by (auto simp: r_get_def r_del_def delete_conv split: option.splits)

lemma r_get_later: "r_get k t r = None \<Longrightarrow> t \<le> t' \<Longrightarrow> r_get k t' r = None"
  by (auto simp: r_get_def split: option.splits if_splits)

text \<open>
  A \<open>*Store\<close>. \<open>NewStore(nil)\<close> is the nil pointer, and a field of an interface type that holds it is
  not \<open>nil\<close>: an interface value is a \<open>store option\<close>, \<open>None\<close> for \<open>nil\<close>. A method that touches \<open>s.rdb\<close>
  of the nil pointer panics.
\<close>

datatype store = NilStore | LiveStore

definition NewStore :: "bool \<Rightarrow> store" where
  "NewStore rdb_present = (if rdb_present then LiveStore else NilStore)"

definition rdbCall :: "store \<Rightarrow> (time \<Rightarrow> redis \<Rightarrow> 'a \<times> redis) \<Rightarrow> 'a go" where
  "rdbCall s f = (case s of
     NilStore \<Rightarrow> throw Panic
   | LiveStore \<Rightarrow> io (\<lambda>w. let (x, r) = f (w_clock w (w_nclock w)) (w_redis w)
       in (Inr x, w\<lparr>w_nclock := Suc (w_nclock w), w_redis := r\<rparr>)))"

lemma rdbCall_eval [prog_simps]:
  "rdbCall LiveStore f w =
     (if w_faults w (w_nio w) then (Inl ErrIO, w\<lparr>w_nio := Suc (w_nio w)\<rparr>)
      else (Inr (fst (f (w_clock w (w_nclock w)) (w_redis w))),
            w\<lparr>w_nio := Suc (w_nio w), w_nclock := Suc (w_nclock w),
              w_redis := snd (f (w_clock w (w_nclock w)) (w_redis w))\<rparr>))"
  by (simp add: rdbCall_def io_def Let_def split: prod.split)

lemma rdbCall_nil [prog_simps]: "rdbCall NilStore f w = (Inl Panic, w)"
  by (simp add: rdbCall_def throw_def)

lemma rdbCall_success [success_iff]:
  "rdbCall s f w = (Inr x, w') \<longleftrightarrow>
     s = LiveStore \<and> \<not> w_faults w (w_nio w) \<and>
     x = fst (f (w_clock w (w_nclock w)) (w_redis w)) \<and>
     w' = w\<lparr>w_nio := Suc (w_nio w), w_nclock := Suc (w_nclock w),
            w_redis := snd (f (w_clock w (w_nclock w)) (w_redis w))\<rparr>"
  by (cases s) (auto simp: rdbCall_eval rdbCall_nil)

lemma keeps_rdbCall [keeps_intros]: "keeps (\<lambda>w. I (w_db w)) (rdbCall s f)"
  by (cases s) (simp_all add: keeps_def rdbCall_eval rdbCall_nil)

subsection \<open>Token revocation, WebSocket sessions and locks\<close>

text \<open>
  The client sends a time to live in whole milliseconds (\<open>PX\<close>), one at least; whole seconds it sends as
  seconds (\<open>EX\<close>).
\<close>

definition redis_ttl :: "duration \<Rightarrow> duration" where
  "redis_ttl ttl = (if ttl < 1000000 then 1000000 else ttl div 1000000 * 1000000)"

lemma redis_ttl_seconds [simp]: "0 < n \<Longrightarrow> redis_ttl (n * second) = n * second"
  by (simp add: redis_ttl_def)

lemma redis_ttl_bounds: "ttl < redis_ttl ttl + 1000000" "1000000 \<le> ttl \<Longrightarrow> redis_ttl ttl \<le> ttl"
  using div_mult_mod_eq [of ttl 1000000] pos_mod_bound [of 1000000 ttl] pos_mod_sign [of 1000000 ttl]
  by (auto simp: redis_ttl_def)

definition Revoke :: "store \<Rightarrow> string \<Rightarrow> duration \<Rightarrow> unit go" where
  "Revoke s jti ttl =
     (if jti = '''' \<or> ttl \<le> 0 then ret ()
      else rdbCall s (\<lambda>t r. ((), r_set (JwtRevokedKey jti) (RStr ''1'') (Some (t + redis_ttl ttl)) r)))"

definition IsRevoked_jti :: "store \<Rightarrow> string \<Rightarrow> bool go" where
  "IsRevoked_jti s jti = rdbCall s (\<lambda>t r. (r_get (JwtRevokedKey jti) t r \<noteq> None, r))"

definition SetUser :: "store \<Rightarrow> uuid \<Rightarrow> string \<Rightarrow> duration \<Rightarrow> unit go" where
  "SetUser s u connID ttl =
     (let ttl = (if ttl \<le> 0 then 3600 * second else ttl) in
      rdbCall s (\<lambda>t r. ((), r_set (WsUserKey u) (RStr connID) (Some (t + redis_ttl ttl)) r)))"

definition DeleteUser :: "store \<Rightarrow> uuid \<Rightarrow> unit go" where
  "DeleteUser s u = rdbCall s (\<lambda>t r. ((), r_del (WsUserKey u) r))"

definition lock_seconds :: "duration \<Rightarrow> int" where
  "lock_seconds ttl = (let sec = whole_seconds ttl in if sec \<le> 0 then 1 else sec)"

text \<open>The Lua script: \<open>SET key 1 NX EX sec\<close>.\<close>

definition lockAcquireScript :: "rkey \<Rightarrow> int \<Rightarrow> time \<Rightarrow> redis \<Rightarrow> bool \<times> redis" where
  "lockAcquireScript k sec t r = (case r_get k t r of
     None \<Rightarrow> (True, r_set k (RStr ''1'') (Some (t + sec * second)) r)
   | Some _ \<Rightarrow> (False, r))"

definition AcquireLock :: "store \<Rightarrow> rkey \<Rightarrow> duration \<Rightarrow> bool go" where
  "AcquireLock s k ttl = rdbCall s (lockAcquireScript k (lock_seconds ttl))"

subsection \<open>Turn timers\<close>

record TurnInfo =
  ti_Turn :: int
  ti_PlayerID :: uuid
  ti_ExpiresAt :: time

definition SetTurn :: "store \<Rightarrow> uuid \<Rightarrow> int \<Rightarrow> uuid \<Rightarrow> time \<Rightarrow> time \<Rightarrow> unit go" where
  "SetTurn s gid turn pid startedAt expiresAt =
     (let payload = \<lparr>tp_Turn = turn, tp_PlayerID = pid, tp_StartedAt = startedAt,
                     tp_ExpiresAt = expiresAt\<rparr>;
          ttl = expiresAt - startedAt;
          ttl = (if ttl < second then second else ttl)
      in rdbCall s (\<lambda>t r. ((), r_set (TurnKey gid) (RTurn payload) (Some (t + redis_ttl ttl)) r)))"

text \<open>A stored value of another shape does not parse.\<close>

fun turn_payload :: "rval \<Rightarrow> go_error + turnPayload" where
  "turn_payload (RTurn p) = Inr p"
| "turn_payload _ = Inl (ErrText ''json'')"

definition RemainingSeconds :: "store \<Rightarrow> uuid \<Rightarrow> time \<Rightarrow> int go" where
  "RemainingSeconds s gid t0 =
     andThen (rdbCall s (\<lambda>t r. (r_get (TurnKey gid) t r, r))) (\<lambda>val.
     case val of
       None \<Rightarrow> ret 0
     | Some v \<Rightarrow> andThen (lift_result (turn_payload v)) (\<lambda>p.
         let remaining = whole_seconds (tp_ExpiresAt p - t0) in
         ret (if remaining < 0 then 0 else remaining)))"

definition DeleteTurn :: "store \<Rightarrow> uuid \<Rightarrow> unit go" where
  "DeleteTurn s gid = rdbCall s (\<lambda>t r. ((), r_del (TurnKey gid) r))"

definition GetTurn :: "store \<Rightarrow> uuid \<Rightarrow> TurnInfo option go" where
  "GetTurn s gid =
     andThen (rdbCall s (\<lambda>t r. (r_get (TurnKey gid) t r, r))) (\<lambda>val.
     case val of
       None \<Rightarrow> ret None
     | Some v \<Rightarrow> andThen (lift_result (turn_payload v)) (\<lambda>p.
         ret (Some \<lparr>ti_Turn = tp_Turn p, ti_PlayerID = tp_PlayerID p,
                    ti_ExpiresAt = tp_ExpiresAt p\<rparr>)))"

text \<open>
  \<open>ListExpiredTurns\<close> scans the turn keys in batches (\<open>SCAN cursor MATCH game:*:turn COUNT 100\<close> until
  the cursor is 0) and reads each turn again; an entry that is gone, or cannot be read, is skipped.
\<close>

definition turn_keys :: "time \<Rightarrow> redis \<Rightarrow> uuid list" where
  "turn_keys t r = concat (map (\<lambda>(k, _). case k of
     TurnKey g \<Rightarrow> (if r_get k t r \<noteq> None then [g] else []) | _ \<Rightarrow> []) r)"

function batches :: "nat \<Rightarrow> 'x list \<Rightarrow> 'x list list" where
  "batches n xs = (if length xs \<le> n \<or> n = 0 then [xs] else take n xs # batches n (drop n xs))"
  by pat_completeness auto
termination
  by (relation "measure (\<lambda>(n, xs). length xs)") auto

declare batches.simps [simp del]

record ExpiredTurnEntry =
  et_GameID :: uuid
  et_PlayerID :: uuid

fun expired_in_batch :: "store \<Rightarrow> time \<Rightarrow> uuid list \<Rightarrow> ExpiredTurnEntry list \<Rightarrow> ExpiredTurnEntry list go"
  where
  "expired_in_batch s t0 [] out = ret out"
| "expired_in_batch s t0 (gid # gids) out =
     andThen (attempt (GetTurn s gid)) (\<lambda>res. case res of
       Inl _ \<Rightarrow> expired_in_batch s t0 gids out
     | Inr None \<Rightarrow> expired_in_batch s t0 gids out
     | Inr (Some info) \<Rightarrow> expired_in_batch s t0 gids
         (if \<not> t0 < ti_ExpiresAt info
          then out @ [\<lparr>et_GameID = gid, et_PlayerID = ti_PlayerID info\<rparr>] else out))"

fun scan_batches :: "store \<Rightarrow> time \<Rightarrow> uuid list list \<Rightarrow> ExpiredTurnEntry list \<Rightarrow> ExpiredTurnEntry list go"
  where
  "scan_batches s t0 [] out = ret out"
| "scan_batches s t0 (b # bs) out =
     andThen (rdbCall s (\<lambda>t r. ((), r))) (\<lambda>_.
     andThen (expired_in_batch s t0 b out) (\<lambda>out. scan_batches s t0 bs out))"

definition ListExpiredTurns :: "store \<Rightarrow> time \<Rightarrow> ExpiredTurnEntry list go" where
  "ListExpiredTurns s t0 = (\<lambda>w.
     scan_batches s t0 (batches 100 (turn_keys (w_clock w (w_nclock w)) (w_redis w))) [] w)"

subsection \<open>Forced logout and backup status\<close>

definition GetForceLogoutBefore :: "store \<Rightarrow> uuid \<Rightarrow> time go" where
  "GetForceLogoutBefore s u =
     andThen (rdbCall s (\<lambda>t r. (r_get (ForceLogoutKey u) t r, r))) (\<lambda>val.
     case val of
       None \<Rightarrow> ret zero_time
     | Some (RUnix sec) \<Rightarrow> ret (sec * second)
     | Some _ \<Rightarrow> throw (ErrText ''ParseInt''))"

definition forceLogoutTTL :: duration where
  "forceLogoutTTL = 30 * 24 * 3600 * second"

definition SetForceLogoutBefore :: "store \<Rightarrow> uuid \<Rightarrow> time \<Rightarrow> unit go" where
  "SetForceLogoutBefore s u t0 = rdbCall s (\<lambda>t r.
     ((), r_set (ForceLogoutKey u) (RUnix (t0 div second)) (Some (t + forceLogoutTTL)) r))"

record BackupStatus =
  bs_Status :: string
  bs_LastSyncedAt :: "time option"

definition GetBackupStatus :: "store \<Rightarrow> BackupStatus go" where
  "GetBackupStatus s =
     andThen (rdbCall s (\<lambda>t r. (r_get BackupStatusKey t r, r))) (\<lambda>val.
     case val of
       None \<Rightarrow> ret \<lparr>bs_Status = ''ok'', bs_LastSyncedAt = None\<rparr>
     | Some (RBackup st t) \<Rightarrow>
         ret \<lparr>bs_Status = (if st = '''' then ''ok'' else st), bs_LastSyncedAt = t\<rparr>
     | Some _ \<Rightarrow> throw (ErrText ''json''))"

text \<open>\<open>time.RFC3339\<close> drops the fraction of a second.\<close>

definition SetBackupStatus :: "store \<Rightarrow> string \<Rightarrow> time \<Rightarrow> unit go" where
  "SetBackupStatus s st lastSyncedAt = rdbCall s (\<lambda>t r.
     ((), r_set BackupStatusKey (RBackup st
        (if lastSyncedAt = zero_time then None else Some (lastSyncedAt div second * second))) None r))"

subsection \<open>The keys as strings\<close>

text \<open>
  The key functions of \<open>redis/store.go\<close>, \<open>usecase/game.go\<close> and \<open>usecase/admin\_lock.go\<close>. The text of an
  identifier is the library's: the parameter \<open>ustr\<close>, with \<open>uparse\<close> for \<open>uuid.Parse\<close>.
\<close>

fun rkey_string :: "(uuid \<Rightarrow> string) \<Rightarrow> rkey \<Rightarrow> string" where
  "rkey_string ustr (JwtRevokedKey jti) = ''jwt:revoked:'' @ jti"
| "rkey_string ustr (WsUserKey u) = ''ws:user:'' @ ustr u"
| "rkey_string ustr (ForceLogoutKey u) = ''user:'' @ ustr u @ '':force_logout_before''"
| "rkey_string ustr (TurnKey g) = ''game:'' @ ustr g @ '':turn''"
| "rkey_string ustr BackupStatusKey = ''backup:status''"
| "rkey_string ustr (SecretLockKey g p) =
     ''game:'' @ ustr g @ '':player:'' @ ustr p @ '':secret_lock''"
| "rkey_string ustr (GuessLockKey g p) =
     ''game:'' @ ustr g @ '':player:'' @ ustr p @ '':guess_lock''"
| "rkey_string ustr (RankingRebuildLockKey a) = ''admin:'' @ ustr a @ '':ranking_rebuild_lock''"
| "rkey_string ustr (LogDownloadLockKey a) = ''admin:'' @ ustr a @ '':log_download_lock''"
| "rkey_string ustr (UserDeleteLockKey a) = ''admin:'' @ ustr a @ '':user_delete_lock''"

definition parseTurnKeyGameID :: "(string \<Rightarrow> uuid option) \<Rightarrow> string \<Rightarrow> go_error + uuid" where
  "parseTurnKeyGameID uparse key =
     (let prefix = ''game:''; suffix = '':turn'' in
      if length key \<le> length prefix + length suffix then Inl (ErrText ''invalid turn key'')
      else if take (length prefix) key \<noteq> prefix \<or> drop (length key - length suffix) key \<noteq> suffix
      then Inl (ErrText ''invalid turn key'')
      else case uparse (take (length key - length suffix - length prefix)
                          (drop (length prefix) key)) of
        None \<Rightarrow> Inl (ErrText ''invalid UUID'') | Some g \<Rightarrow> Inr g)"

lemma colon_split:
  assumes "CHR '':'' \<notin> set a" "CHR '':'' \<notin> set b"
  shows "a @ CHR '':'' # x = b @ CHR '':'' # y \<longleftrightarrow> a = b \<and> x = y"
  using assms
proof (induction a arbitrary: b)
  case Nil
  then show ?case by (cases b) auto
next
  case (Cons c a)
  then show ?case by (cases b) auto
qed

lemma rkey_string_inj:
  assumes inj: "inj ustr" and nocolon: "\<And>u. CHR '':'' \<notin> set (ustr u)"
    and eq: "rkey_string ustr k = rkey_string ustr k'"
  shows "k = k'"
proof -
  have split: "ustr u @ CHR '':'' # x = ustr v @ CHR '':'' # y \<longleftrightarrow> u = v \<and> x = y" for u v x y
    using nocolon inj by (simp add: colon_split inj_eq)
  from eq show ?thesis
    by (cases k; cases k') (simp_all add: split inj_eq [OF inj])
qed

lemma parseTurnKeyGameID_key:
  assumes "uparse (ustr g) = Some g" "ustr g \<noteq> ''''"
  shows "parseTurnKeyGameID uparse (rkey_string ustr (TurnKey g)) = Inr g"
  using assms by (simp add: parseTurnKeyGameID_def Let_def)

subsection \<open>Interfaces\<close>

text \<open>What the store relies on: a map whose entries expire.\<close>

locale expiring_map =
  fixes get :: "'k \<Rightarrow> time \<Rightarrow> 's \<Rightarrow> 'v option"
    and set :: "'k \<Rightarrow> 'v \<Rightarrow> time option \<Rightarrow> 's \<Rightarrow> 's"
    and del :: "'k \<Rightarrow> 's \<Rightarrow> 's"
  assumes get_set_live: "t < e \<Longrightarrow> get k t (set k v (Some e) s) = Some v"
    and get_set_dead: "e \<le> t \<Longrightarrow> get k t (set k v (Some e) s) = None"
    and get_set_other: "k \<noteq> k' \<Longrightarrow> get k t (set k' v x s) = get k t s"
    and get_del: "get k t (del k s) = None"
    and get_del_other: "k \<noteq> k' \<Longrightarrow> get k t (del k' s) = get k t s"
    and stays_absent: "get k t s = None \<Longrightarrow> t \<le> t' \<Longrightarrow> get k t' s = None"

text \<open>
  \<open>IGameLockStore\<close> and \<open>IDistributedLockStore\<close>: a lock is taken by setting its key where it is absent.
  A history of attempts is a list of keys and times.
\<close>

locale lock_store = expiring_map get set del
  for get :: "'k \<Rightarrow> time \<Rightarrow> 's \<Rightarrow> 'v option"
    and set :: "'k \<Rightarrow> 'v \<Rightarrow> time option \<Rightarrow> 's \<Rightarrow> 's"
    and del :: "'k \<Rightarrow> 's \<Rightarrow> 's" +
  fixes acquire :: "'k \<Rightarrow> int \<Rightarrow> time \<Rightarrow> 's \<Rightarrow> bool \<times> 's"
    and token :: "'v"
  assumes acquire_eq: "acquire k sec t s = (case get k t s of
      None \<Rightarrow> (True, set k token (Some (t + sec * second)) s) | Some _ \<Rightarrow> (False, s))"
begin

lemma acquire_result: "fst (acquire k sec t s) \<longleftrightarrow> get k t s = None"
  by (simp add: acquire_eq split: option.split)

lemma acquired_held:
  "fst (acquire k sec t s) \<Longrightarrow> t' < t + sec * second \<Longrightarrow> get k t' (snd (acquire k sec t s)) \<noteq> None"
  by (auto simp: acquire_eq get_set_live split: option.splits)

lemma held_kept:
  assumes held: "get k t' s \<noteq> None" and "t \<le> t'"
  shows "get k t' (snd (acquire k' sec t s)) \<noteq> None"
proof (cases "k = k'")
  case True
  from held stays_absent [OF _ \<open>t \<le> t'\<close>] obtain v where "get k t s = Some v"
    by (cases "get k t s") simp_all
  with held True show ?thesis by (simp add: acquire_eq)
next
  case False
  then have "get k t' (snd (acquire k' sec t s)) = get k t' s"
    by (simp add: acquire_eq get_set_other split: option.split)
  with held show ?thesis by simp
qed

lemma acquire_again:
  assumes "fst (acquire k sec t s)" "t' < t + sec * second"
  shows "\<not> fst (acquire k sec' t' (snd (acquire k sec t s)))"
  using acquired_held [OF assms] by (simp add: acquire_result)

lemma acquire_after:
  assumes "fst (acquire k sec t s)" "t + sec * second \<le> t'"
  shows "fst (acquire k sec' t' (snd (acquire k sec t s)))"
  using assms by (auto simp: acquire_eq get_set_dead split: option.splits)

end

text \<open>\<open>ITurnStore\<close> on the pure store: what a timer set at a server time is worth later.\<close>

locale turn_store = expiring_map get set del
  for get :: "rkey \<Rightarrow> time \<Rightarrow> 's \<Rightarrow> rval option"
    and set :: "rkey \<Rightarrow> rval \<Rightarrow> time option \<Rightarrow> 's \<Rightarrow> 's"
    and del :: "rkey \<Rightarrow> 's \<Rightarrow> 's"
begin

lemma timer_live:
  "t < e \<Longrightarrow> get (TurnKey g) t (set (TurnKey g) (RTurn p) (Some e) s) = Some (RTurn p)"
  by (rule get_set_live)

lemma timer_gone: "e \<le> t \<Longrightarrow> get (TurnKey g) t (set (TurnKey g) (RTurn p) (Some e) s) = None"
  by (rule get_set_dead)

lemma timer_frame:
  "k \<noteq> TurnKey g \<Longrightarrow> get k t (set (TurnKey g) (RTurn p) (Some e) s) = get k t s"
  by (rule get_set_other)

end

interpretation redis_map: expiring_map r_get r_set r_del
  by unfold_locales (simp_all, erule (1) r_get_later)

interpretation redis_locks: lock_store r_get r_set r_del lockAcquireScript "RStr ''1''"
  by unfold_locales (simp add: lockAcquireScript_def split: option.split)

interpretation redis_turns: turn_store r_get r_set r_del
  by unfold_locales

text \<open>Attempts on any keys, one after the other.\<close>

fun lock_history :: "(rkey \<times> int \<times> time) list \<Rightarrow> redis \<Rightarrow> redis" where
  "lock_history [] r = r"
| "lock_history ((k, sec, t) # as) r = lock_history as (snd (lockAcquireScript k sec t r))"

lemma lock_history_held:
  assumes "r_get k t' r \<noteq> None" and "\<forall>(k', sec, t)\<in>set as. t \<le> t'"
  shows "r_get k t' (lock_history as r) \<noteq> None"
  using assms
proof (induction as r rule: lock_history.induct)
  case (2 ka sec t as r)
  from "2.prems"(2) have "t \<le> t'" and rest: "\<forall>(k', sec, t)\<in>set as. t \<le> t'"
    by simp_all
  from redis_locks.held_kept [OF "2.prems"(1) this(1)] show ?case
    unfolding lock_history.simps by (rule "2.IH") (rule rest)
qed simp

end
