(* ===== verification/Validate.thy ===== *)
theory Validate
  imports Model
begin

text \<open>
  Input validation and judging: \<open>usecase/game_validate.go\<close>, \<open>usecase/user_validate.go\<close>,
  \<open>usecase/judge.go\<close> and \<open>mapValidationErr\<close> of \<open>usecase/errors.go\<close>. A Go \<open>[4]int\<close> is a list of
  length 4.
\<close>

subsection \<open>Four digits (usecase/game_validate.go)\<close>

definition digit_of :: "char \<Rightarrow> int" where
  "digit_of ch = int (of_char ch) - 48"

text \<open>
  The loop of \<open>ValidateFourDigits\<close> over the characters of the input, with the set \<open>seen\<close> of digits
  met so far and the digits stored so far. Go's \<open>range\<close> decodes UTF-8; a byte from 128 on starts a
  rune that is not a decimal digit, so the loop returns \<open>ErrBadDigit\<close> there, as the model does for
  the byte. Only single-byte runes are passed over, hence the byte index is the position.
\<close>

fun four_digits_loop :: "string \<Rightarrow> int list \<Rightarrow> int list \<Rightarrow> go_error + int list" where
  "four_digits_loop [] seen digits = Inr digits"
| "four_digits_loop (ch # rest) seen digits =
     (if ch < CHR ''0'' \<or> CHR ''9'' < ch then Inl ErrBadDigit
      else let d = digit_of ch in
        if d \<in> set seen then Inl ErrDuplicateDigit
        else four_digits_loop rest (d # seen) (digits @ [d]))"

definition ValidateFourDigits :: "string \<Rightarrow> go_error + int list" where
  "ValidateFourDigits input =
     (if length input \<noteq> 4 then Inl ErrBadDigitLength else four_digits_loop input [] [])"

fun four_digits_array_loop :: "int list \<Rightarrow> int list \<Rightarrow> go_error + unit" where
  "four_digits_array_loop [] seen = Inr ()"
| "four_digits_array_loop (d # rest) seen =
     (if d < 0 \<or> 9 < d then Inl ErrBadDigit
      else if d \<in> set seen then Inl ErrDuplicateDigit
      else four_digits_array_loop rest (d # seen))"

definition ValidateFourDigitsArray :: "int list \<Rightarrow> go_error + unit" where
  "ValidateFourDigitsArray digits = four_digits_array_loop digits []"

text \<open>What the two validators accept: four different decimal digits.\<close>

definition four_distinct_digits :: "int list \<Rightarrow> bool" where
  "four_distinct_digits ds \<longleftrightarrow> length ds = 4 \<and> distinct ds \<and> (\<forall>d\<in>set ds. 0 \<le> d \<and> d \<le> 9)"

text \<open>\<open>fmt.Sprintf("%d%d%d%d", ...)\<close> of four digits.\<close>

definition digit_char :: "int \<Rightarrow> char" where
  "digit_char d = char_of (nat d + 48)"

definition format_digits :: "int list \<Rightarrow> string" where
  "format_digits ds = map digit_char ds"

lemma less_char_iff: "(c::char) < d \<longleftrightarrow> (of_char c :: nat) < of_char d"
  by (simp add: less_char_def)

lemma digit_char_range:
  assumes "0 \<le> d" "d \<le> 9"
  shows "\<not> digit_char d < CHR ''0''" "\<not> CHR ''9'' < digit_char d" "digit_of (digit_char d) = d"
proof -
  have n: "of_char (digit_char d) = nat d + 48"
    using assms by (simp add: digit_char_def of_char_of)
  show "\<not> digit_char d < CHR ''0''" "\<not> CHR ''9'' < digit_char d"
    using n assms by (simp_all add: less_char_iff)
  show "digit_of (digit_char d) = d"
    using n assms by (simp add: digit_of_def)
qed

lemma digit_char_of:
  assumes "\<not> ch < CHR ''0''" "\<not> CHR ''9'' < ch"
  shows "digit_char (digit_of ch) = ch" "0 \<le> digit_of ch" "digit_of ch \<le> 9"
proof -
  have "48 \<le> (of_char ch :: nat)" "(of_char ch :: nat) \<le> 57"
    using assms by (simp_all add: less_char_iff)
  moreover from this have "nat (int (of_char ch) - 48) + 48 = (of_char ch :: nat)"
    by simp
  ultimately show "digit_char (digit_of ch) = ch" "0 \<le> digit_of ch" "digit_of ch \<le> 9"
    by (simp_all add: digit_char_def digit_of_def)
qed

lemma four_digits_loop_Inr:
  "four_digits_loop s seen acc = Inr ds \<longleftrightarrow>
     (\<exists>xs. ds = acc @ xs \<and> s = format_digits xs \<and> distinct xs \<and> set xs \<inter> set seen = {} \<and>
           (\<forall>d\<in>set xs. 0 \<le> d \<and> d \<le> 9))"
proof (induction s seen acc rule: four_digits_loop.induct)
  case (1 seen digits)
  then show ?case by (auto simp: format_digits_def)
next
  case (2 ch rest seen acc)
  show ?case (is "?L \<longleftrightarrow> ?R")
  proof
    assume L: ?L
    then have ch: "\<not> ch < CHR ''0''" "\<not> CHR ''9'' < ch" and new: "digit_of ch \<notin> set seen"
      by (auto simp: Let_def split: if_splits)
    with L "2.IH" obtain xs where "ds = (acc @ [digit_of ch]) @ xs" "rest = format_digits xs"
      "distinct xs" "set xs \<inter> set (digit_of ch # seen) = {}" "\<forall>d\<in>set xs. 0 \<le> d \<and> d \<le> 9"
      by (auto simp: Let_def split: if_splits)
    with ch new show ?R
      by (intro exI [of _ "digit_of ch # xs"]) (auto simp: format_digits_def digit_char_of)
  next
    assume ?R
    then obtain d xs where ds: "ds = acc @ d # xs" "ch = digit_char d" "rest = format_digits xs"
      and d: "distinct (d # xs)" "set (d # xs) \<inter> set seen = {}"
        "\<forall>x\<in>set (d # xs). 0 \<le> x \<and> x \<le> 9"
      by (auto simp: format_digits_def Cons_eq_map_conv)
    from d have "digit_of ch = d" "\<not> ch < CHR ''0''" "\<not> CHR ''9'' < ch"
      by (simp_all add: ds digit_char_range)
    with d ds "2.IH" show ?L
      by (auto simp: Let_def)
  qed
qed

lemma ValidateFourDigits_Inr:
  "ValidateFourDigits s = Inr ds \<longleftrightarrow> four_distinct_digits ds \<and> s = format_digits ds"
  by (auto simp: ValidateFourDigits_def four_digits_loop_Inr four_distinct_digits_def
      format_digits_def)

lemma four_digits_array_loop_Inr:
  "four_digits_array_loop ds seen = Inr () \<longleftrightarrow>
     distinct ds \<and> set ds \<inter> set seen = {} \<and> (\<forall>d\<in>set ds. 0 \<le> d \<and> d \<le> 9)"
  by (induction ds seen rule: four_digits_array_loop.induct) auto

lemma four_distinct_digits_length: "four_distinct_digits ds \<Longrightarrow> length ds = 4"
  by (simp add: four_distinct_digits_def)

subsection \<open>Judging (usecase/judge.go)\<close>

text \<open>\<open>var results [4]DigitResult\<close> starts with four misses; the loop stores a hit where digits agree.\<close>

fun judge_loop :: "nat \<Rightarrow> int list \<Rightarrow> int list \<Rightarrow> DigitResult list \<Rightarrow> DigitResult list" where
  "judge_loop 0 secret guess results = results"
| "judge_loop (Suc n) secret guess results =
     (let i = 4 - Suc n;
          results = (if secret ! i = guess ! i then results[i := DigitHit] else results)
      in judge_loop n secret guess results)"

definition JudgeDigits :: "int list \<Rightarrow> int list \<Rightarrow> DigitResult list" where
  "JudgeDigits secret guess = judge_loop 4 secret guess (replicate 4 DigitMiss)"

fun IsWin :: "DigitResult list \<Rightarrow> bool" where
  "IsWin [] = True"
| "IsWin (r # rs) = (if r \<noteq> DigitHit then False else IsWin rs)"

definition HitCount :: "DigitResult list \<Rightarrow> int" where
  "HitCount results = fold (\<lambda>r n. if r = DigitHit then n + 1 else n) results 0"

definition DigitResultsToInts :: "DigitResult list \<Rightarrow> int list" where
  "DigitResultsToInts results = map (\<lambda>r. r) results"

lemma JudgeDigits_unfold:
  "JudgeDigits s g =
     map (\<lambda>i. if s ! i = g ! i then DigitHit else DigitMiss) [0, 1, 2, 3]"
  by (simp add: JudgeDigits_def numeral_eq_Suc)

lemma JudgeDigits_length [simp]: "length (JudgeDigits s g) = 4"
  by (simp add: JudgeDigits_unfold)

lemma HitCount_eq_acc:
  "fold (\<lambda>r n. if r = DigitHit then n + 1 else n) rs n = n + int (count_list rs DigitHit)"
  by (induction rs arbitrary: n) auto

lemma HitCount_count: "HitCount rs = int (count_list rs DigitHit)"
  by (simp add: HitCount_def HitCount_eq_acc)

lemma IsWin_iff: "IsWin rs \<longleftrightarrow> set rs \<subseteq> {DigitHit}"
  by (induction rs) auto

lemma IsWin_JudgeDigits:
  assumes "length s = 4" "length g = 4"
  shows "IsWin (JudgeDigits s g) \<longleftrightarrow> s = g"
proof -
  obtain a b c d where s: "s = [a, b, c, d]"
    using assms(1) by (auto simp: numeral_eq_Suc length_Suc_conv)
  obtain e f h i where g: "g = [e, f, h, i]"
    using assms(2) by (auto simp: numeral_eq_Suc length_Suc_conv)
  show ?thesis by (auto simp: s g JudgeDigits_unfold IsWin_iff)
qed

lemma IsWin_HitCount: "IsWin rs \<longleftrightarrow> HitCount rs = int (length rs)"
proof (induction rs)
  case Nil
  show ?case by (simp add: HitCount_count)
next
  case (Cons r rs)
  have "count_list rs DigitHit \<le> length rs" by (rule count_le_length)
  with Cons show ?case by (auto simp: HitCount_count)
qed

subsection \<open>Users (usecase/user_validate.go)\<close>

definition username_char :: "char \<Rightarrow> bool" where
  "username_char c \<longleftrightarrow>
     (CHR ''a'' \<le> c \<and> c \<le> CHR ''z'') \<or> (CHR ''A'' \<le> c \<and> c \<le> CHR ''Z'') \<or>
     (CHR ''0'' \<le> c \<and> c \<le> CHR ''9'') \<or> c = CHR ''_''"

text \<open>The match of \<open>^[a-zA-Z0-9_]+$\<close>: one character or more, each in the class.\<close>

definition usernamePattern :: "string \<Rightarrow> bool" where
  "usernamePattern s \<longleftrightarrow> s \<noteq> [] \<and> list_all username_char s"

definition ValidateUsername :: "string \<Rightarrow> go_error + unit" where
  "ValidateUsername username =
     (if length username < 3 \<or> 50 < length username \<or> \<not> usernamePattern username
      then Inl ErrBadUsername else Inr ())"

definition ValidateEmail :: "string \<Rightarrow> go_error + unit" where
  "ValidateEmail email =
     (if length email = 0 \<or> 255 < length email then Inl ErrBadEmail else Inr ())"

definition ValidatePassword :: "string \<Rightarrow> go_error + unit" where
  "ValidatePassword password = (if length password < 8 then Inl ErrWeakPassword else Inr ())"

definition ValidateLoginEmail :: "string \<Rightarrow> go_error + unit" where
  "ValidateLoginEmail email =
     (if length email = 0 \<or> 50 < length email then Inl ErrBadLoginEmail
      else if CHR ''@'' \<notin> set email \<or> hd email = CHR ''@'' \<or> last email = CHR ''@''
      then Inl ErrBadLoginEmail else Inr ())"

text \<open>\<open>errors.Is\<close> against the sentinels: the error values are never wrapped on the way here.\<close>

fun mapValidationErr :: "go_error \<Rightarrow> go_error" where
  "mapValidationErr ErrBadUsername = ErrBadRequest"
| "mapValidationErr ErrBadEmail = ErrBadRequest"
| "mapValidationErr ErrBadLoginEmail = ErrBadRequest"
| "mapValidationErr ErrWeakPassword = ErrBadRequest"
| "mapValidationErr ErrBadDigit = ErrBadRequest"
| "mapValidationErr ErrBadDigitLength = ErrBadRequest"
| "mapValidationErr ErrDuplicateDigit = ErrBadRequest"
| "mapValidationErr e = e"

lemma ValidateLoginEmail_ValidateEmail:
  "ValidateLoginEmail e = Inr () \<Longrightarrow> ValidateEmail e = Inr ()"
  by (auto simp: ValidateLoginEmail_def ValidateEmail_def split: if_splits)

end
