(* ===== verification/Crypto.thy ===== *)
theory Crypto
  imports Store Validate
begin

text \<open>
  \<open>backend/crypto\<close>: the hash of a secret number, the random guess, the access and refresh tokens.
  HMAC-SHA256, SHA-256 and bcrypt are functions the code calls and does not look into: \<open>hmac\<close> maps a
  key and a message to the bytes of the code, \<open>sha256\<close> and \<open>bcrypt\<close> likewise. The JWT library and
  the text of an identifier (\<open>ustr\<close>, \<open>uparse\<close>) are parameters too.
\<close>

subsection \<open>Formatting\<close>

text \<open>\<open>%d\<close> and \<open>hex.EncodeToString\<close>.\<close>

fun decimal_nat :: "nat \<Rightarrow> string" where
  "decimal_nat n =
     (if n < 10 then [char_of (n + 48)] else decimal_nat (n div 10) @ [char_of (n mod 10 + 48)])"

declare decimal_nat.simps [simp del]

definition decimal :: "int \<Rightarrow> string" where
  "decimal i = (if i < 0 then CHR ''-'' # decimal_nat (nat (- i)) else decimal_nat (nat i))"

definition hex_digit :: "nat \<Rightarrow> char" where
  "hex_digit n = (if n < 10 then char_of (n + 48) else char_of (n + 87))"

definition hex_encode :: "string \<Rightarrow> string" where
  "hex_encode bs = concat (map (\<lambda>c. [hex_digit (of_char c div 16), hex_digit (of_char c mod 16)]) bs)"

text \<open>\<open>strings.Join\<close> and \<open>strings.Split\<close> with a separator of one byte.\<close>

fun join :: "char \<Rightarrow> string list \<Rightarrow> string" where
  "join c [] = []"
| "join c [s] = s"
| "join c (s # ss) = s @ c # join c ss"

fun split_on :: "char \<Rightarrow> string \<Rightarrow> string list" where
  "split_on c [] = [[]]"
| "split_on c (x # xs) =
     (if x = c then [] # split_on c xs
      else case split_on c xs of [] \<Rightarrow> [[x]] | s # ss \<Rightarrow> (x # s) # ss)"

lemma length_hex_encode: "length (hex_encode bs) = 2 * length bs"
  by (induction bs) (auto simp: hex_encode_def)

lemma of_char_hex_digit: "n < 16 \<Longrightarrow> of_char (hex_digit n) < (128 :: nat)"
  by (simp add: hex_digit_def of_char_of)

lemma hex_digit_not_colon: "n < 16 \<Longrightarrow> hex_digit n \<noteq> CHR '':''"
proof
  assume "n < 16" "hex_digit n = CHR '':''"
  then have "of_char (hex_digit n) = (58 :: nat)" by simp
  with \<open>n < 16\<close> show False
    by (auto simp: hex_digit_def of_char_of split: if_splits)
qed

lemma set_hex_encode: "c \<in> set (hex_encode bs) \<Longrightarrow> \<exists>n < 16. c = hex_digit n"
proof -
  assume "c \<in> set (hex_encode bs)"
  then obtain b where "b \<in> set bs"
    "c = hex_digit (of_char b div 16) \<or> c = hex_digit (of_char b mod 16)"
    by (auto simp: hex_encode_def)
  moreover have "of_char b div 16 < (16 :: nat)" "of_char b mod 16 < (16 :: nat)"
    using nat_of_char_less_256 [of b] by (simp_all add: less_mult_imp_div_less)
  ultimately show ?thesis by blast
qed

lemma hex_encode_no_colon: "CHR '':'' \<notin> set (hex_encode bs)"
  using set_hex_encode hex_digit_not_colon by metis

lemma char_count_ascii: "\<forall>c\<in>set s. of_char c < (128::nat) \<Longrightarrow> char_count s = length s"
  by (induction s) (auto simp: char_count_def)

lemma char_count_hex: "char_count (hex_encode bs) = 2 * length bs"
proof -
  have "\<forall>c\<in>set (hex_encode bs). of_char c < (128::nat)"
    using set_hex_encode of_char_hex_digit by fast
  then show ?thesis by (simp add: char_count_ascii length_hex_encode)
qed

lemma split_on_append:
  "c \<notin> set s \<Longrightarrow> split_on c (s @ c # t) = s # split_on c t"
  by (induction s) auto

lemma split_on_single: "c \<notin> set s \<Longrightarrow> split_on c s = [s]"
  by (induction s) auto

lemma split_on_join:
  "ss \<noteq> [] \<Longrightarrow> \<forall>s\<in>set ss. c \<notin> set s \<Longrightarrow> split_on c (join c ss) = ss"
  by (induction c ss rule: join.induct) (auto simp: split_on_append split_on_single)

subsection \<open>The secret number (crypto/secret.go)\<close>

definition NewSecretHashService :: "string \<Rightarrow> go_error + string" where
  "NewSecretHashService pepper =
     (if length pepper < 32
      then Inl (ErrText ''GAME_SECRET_PEPPER must be at least 32 bytes'') else Inr pepper)"

record hasher =
  h_hmac :: "string \<Rightarrow> string \<Rightarrow> string"
  h_pepper :: string
  h_ustr :: "uuid \<Rightarrow> string"

definition digest :: "hasher \<Rightarrow> uuid \<Rightarrow> int \<Rightarrow> int \<Rightarrow> int \<Rightarrow> string" where
  "digest h gameID playerSlot position digit =
     (let msg = h_ustr h gameID @ '':'' @ decimal playerSlot @ '':'' @ decimal position @ '':'' @
                decimal digit
      in hex_encode (h_hmac h (h_pepper h) msg))"

definition Hash :: "hasher \<Rightarrow> int list \<Rightarrow> uuid \<Rightarrow> int \<Rightarrow> go_error + string" where
  "Hash h digits gameID playerSlot =
     Inr (join CHR '':'' (map (\<lambda>i. digest h gameID playerSlot (int i) (digits ! i)) [0, 1, 2, 3]))"

definition Verify :: "hasher \<Rightarrow> string \<Rightarrow> int list \<Rightarrow> uuid \<Rightarrow> int \<Rightarrow> go_error + DigitResult list" where
  "Verify h storedHash guess gameID opponentSlot =
     (let parts = split_on CHR '':'' storedHash in
      if length parts \<noteq> 4 then Inl (ErrText ''invalid secret hash format'')
      else Inr (map (\<lambda>i. let expected = digest h gameID opponentSlot (int i) (guess ! i) in
        if parts ! i = expected then DigitHit else DigitMiss) [0, 1, 2, 3]))"

lemma digest_no_colon: "CHR '':'' \<notin> set (digest h gid slot pos d)"
  by (simp add: digest_def Let_def hex_encode_no_colon)

lemma Verify_length: "Verify h s g gid slot = Inr rs \<Longrightarrow> length rs = 4"
  by (auto simp: Verify_def Let_def split: if_splits)

lemma Verify_Hash:
  "Hash h s gid slot = Inr hash \<Longrightarrow>
   Verify h hash g gid slot = Inr (map (\<lambda>i.
     if digest h gid slot (int i) (s ! i) = digest h gid slot (int i) (g ! i)
     then DigitHit else DigitMiss) [0, 1, 2, 3])"
proof -
  let ?parts = "map (\<lambda>i. digest h gid slot (int i) (s ! i)) [0, 1, 2, 3]"
  assume "Hash h s gid slot = Inr hash"
  then have "split_on CHR '':'' hash = ?parts"
    unfolding Hash_def by (auto simp del: join.simps simp: split_on_join digest_no_colon)
  then show ?thesis by (simp add: Verify_def Let_def)
qed

lemma Hash_not_empty: "Hash h s gid slot = Inr hash \<Longrightarrow> hash \<noteq> ''''"
  by (auto simp: Hash_def)

text \<open>The digits of one position are told apart by their digests.\<close>

definition digests_differ :: "hasher \<Rightarrow> uuid \<Rightarrow> int \<Rightarrow> bool" where
  "digests_differ h gid slot \<longleftrightarrow>
     (\<forall>i\<in>{0..3}. \<forall>a\<in>{0..9}. \<forall>b\<in>{0..9}.
        digest h gid slot i a = digest h gid slot i b \<longrightarrow> a = b)"

lemma Verify_Hash_judge:
  assumes "digests_differ h gid slot" "four_distinct_digits s" "four_distinct_digits g"
    and "Hash h s gid slot = Inr hash"
  shows "Verify h hash g gid slot = Inr (JudgeDigits s g)"
proof -
  have same: "(digest h gid slot (int i) (s ! i) = digest h gid slot (int i) (g ! i)) \<longleftrightarrow> s ! i = g ! i"
    if "i \<in> set [0, 1, 2, 3]" for i
  proof -
    from that assms(2,3) have "s ! i \<in> {0..9}" "g ! i \<in> {0..9}"
      by (auto simp: four_distinct_digits_def)
    moreover from that have "int i \<in> {0..3}" by auto
    ultimately show ?thesis
      using assms(1) [unfolded digests_differ_def, rule_format, of "int i" "s ! i" "g ! i"]
      by auto
  qed
  show ?thesis
    unfolding Verify_Hash [OF assms(4)] JudgeDigits_unfold
    by (intro arg_cong [where f = Inr] map_cong refl) (simp only: same)
qed

text \<open>The size of a stored secret, with a code of \<open>n\<close> bytes.\<close>

lemma char_count_Hash:
  assumes "\<And>k m. length (h_hmac h k m) = n" "Hash h s gid slot = Inr hash"
  shows "char_count hash = 8 * n + 3"
proof -
  have "char_count (digest h gid slot i d) = 2 * n" for i d
    by (simp add: digest_def Let_def char_count_hex assms(1))
  moreover have "char_count (CHR '':'' # t) = Suc (char_count t)" for t
    by (simp add: char_count_def)
  ultimately show ?thesis
    using assms(2) by (auto simp: Hash_def)
qed

subsection \<open>The random guess (crypto/random.go)\<close>

text \<open>\<open>rand.Int(rand.Reader, n)\<close> is a value below \<open>n\<close> made from the entropy read.\<close>

definition randInt :: "int \<Rightarrow> int \<Rightarrow> int go" where
  "randInt lo hi =
     (if hi < lo then throw (ErrText ''invalid random range'')
      else andThen entropy (\<lambda>r. ret (lo + r mod (hi - lo + 1))))"

definition swap_at :: "nat \<Rightarrow> nat \<Rightarrow> 'x list \<Rightarrow> 'x list" where
  "swap_at i j xs = xs[i := xs ! j, j := xs ! i]"

fun shuffle_loop :: "nat \<Rightarrow> int list \<Rightarrow> int list go" where
  "shuffle_loop 0 pool = ret pool"
| "shuffle_loop (Suc n) pool =
     (let i = 4 - Suc n in
      andThen (randInt (int i) (int (length pool) - 1)) (\<lambda>j.
      if 0 \<le> j \<and> j < int (length pool) \<and> i < length pool
      then shuffle_loop n (swap_at i (nat j) pool) else throw Panic))"

definition GenerateGuessNumber :: "string go" where
  "GenerateGuessNumber =
     andThen (shuffle_loop 4 [0, 1, 2, 3, 4, 5, 6, 7, 8, 9]) (\<lambda>pool.
     ret (format_digits (take 4 pool)))"

lemma randInt_success:
  "randInt lo hi w = (Inr j, w') \<Longrightarrow> lo \<le> j \<and> j \<le> hi"
proof -
  assume "randInt lo hi w = (Inr j, w')"
  then obtain r where le: "lo \<le> hi" and j: "j = lo + r mod (hi - lo + 1)"
    by (auto simp: randInt_def success_iff split: if_splits)
  from le have "0 < hi - lo + 1" by simp
  then have "0 \<le> r mod (hi - lo + 1)" "r mod (hi - lo + 1) < hi - lo + 1"
    by (rule pos_mod_sign, rule pos_mod_bound)
  with j show ?thesis by linarith
qed

lemma mset_swap_at: "i < length xs \<Longrightarrow> j < length xs \<Longrightarrow> mset (swap_at i j xs) = mset xs"
  by (simp add: swap_at_def mset_swap)

lemma shuffle_loop_mset:
  "shuffle_loop n pool w = (Inr pool', w') \<Longrightarrow> mset pool' = mset pool"
proof (induction n pool arbitrary: w rule: shuffle_loop.induct)
  case (1 pool)
  then show ?case by (simp add: success_iff)
next
  case (2 n pool)
  then show ?case
    by (fastforce simp: Let_def success_iff mset_swap_at split: if_splits)
qed

lemma keeps_shuffle_loop [keeps_intros]: "keeps (\<lambda>w. I (w_db w)) (shuffle_loop n pool)"
  by (induction n pool rule: shuffle_loop.induct)
    (auto simp: Let_def randInt_def intro!: keeps_intros)

lemma keeps_GenerateGuessNumber [keeps_intros]: "keeps (\<lambda>w. I (w_db w)) GenerateGuessNumber"
  by (auto simp: GenerateGuessNumber_def intro!: keeps_intros)

lemma GenerateGuessNumber_digits:
  assumes "GenerateGuessNumber w = (Inr s, w')"
  shows "\<exists>ds. four_distinct_digits ds \<and> s = format_digits ds"
proof -
  let ?pool = "[0, 1, 2, 3, 4, 5, 6, 7, 8, 9] :: int list"
  from assms obtain pool w1 where run: "shuffle_loop 4 ?pool w = (Inr pool, w1)"
    and s: "s = format_digits (take 4 pool)"
    by (auto simp: GenerateGuessNumber_def success_iff)
  have ms: "mset pool = mset ?pool" by (rule shuffle_loop_mset [OF run])
  have "distinct pool" using mset_eq_imp_distinct_iff [OF ms] by simp
  moreover have "set pool = set ?pool" by (rule mset_eq_setD [OF ms])
  moreover have "length pool = 10" using mset_eq_length [OF ms] by simp
  moreover have "d \<in> set ?pool" if "d \<in> set (take 4 pool)" for d
    using that set_take_subset [of 4 pool] \<open>set pool = set ?pool\<close> by blast
  ultimately have "four_distinct_digits (take 4 pool)"
    unfolding four_distinct_digits_def by (fastforce simp: min_def)
  with s show ?thesis by blast
qed

lemma shuffle_loop_runs:
  assumes "\<And>n. w_rand w n \<noteq> None" "length pool = 10" "n \<le> 4"
  shows "\<exists>pool' w'. shuffle_loop n pool w = (Inr pool', w')"
  using assms
proof (induction n pool arbitrary: w rule: shuffle_loop.induct)
  case (1 pool)
  then show ?case by (simp add: ret_def)
next
  case (2 n pool)
  from "2.prems"(1) obtain r where r: "w_rand w (w_nrand w) = Some r" by blast
  let ?i = "4 - Suc n" and ?j = "int (4 - Suc n) + r mod (int (length pool) - int (4 - Suc n))"
  have "0 < int (length pool) - int ?i" using "2.prems"(2) by simp
  then have "0 \<le> r mod (int (length pool) - int ?i)"
    "r mod (int (length pool) - int ?i) < int (length pool) - int ?i"
    by (rule pos_mod_sign, rule pos_mod_bound)
  then have j: "0 \<le> ?j" "?j < int (length pool)" by linarith+
  have step: "randInt (int ?i) (int (length pool) - 1) w = (Inr ?j, w\<lparr>w_nrand := Suc (w_nrand w)\<rparr>)"
  proof -
    have "?i \<le> 3" by simp
    then have "\<not> int (length pool) - 1 < int ?i" using "2.prems"(2) by linarith
    then show ?thesis unfolding randInt_def by (simp add: andThen_def entropy_def r ret_def)
  qed
  have "\<exists>pool' w'. shuffle_loop n (swap_at ?i (nat ?j) pool) (w\<lparr>w_nrand := Suc (w_nrand w)\<rparr>) = (Inr pool', w')"
    by (rule "2.IH") (use j "2.prems" in \<open>simp_all add: swap_at_def\<close>)
  moreover have "?i < length pool" using "2.prems"(2) by linarith
  ultimately show ?case
    unfolding shuffle_loop.simps Let_def
    by (subst andThen_Inr [where m = "randInt (int ?i) (int (length pool) - 1)" and s = w, OF step])
      (simp only: j if_True simp_thms)
qed

lemma GenerateGuessNumber_runs:
  assumes "\<And>n. w_rand w n \<noteq> None"
  shows "\<exists>s w'. GenerateGuessNumber w = (Inr s, w')"
proof -
  obtain pool w' where "shuffle_loop 4 [0, 1, 2, 3, 4, 5, 6, 7, 8, 9] w = (Inr pool, w')"
    using shuffle_loop_runs [OF assms, of "[0, 1, 2, 3, 4, 5, 6, 7, 8, 9]" 4] by auto
  then show ?thesis
    by (simp add: GenerateGuessNumber_def andThen_Inr ret_def)
qed

subsection \<open>Tokens and passwords (crypto/token.go, crypto/password.go)\<close>

record accessClaims =
  cl_Role :: string
  cl_Subject :: string
  cl_ID :: string
  cl_IssuedAt :: "time option"
  cl_ExpiresAt :: "time option"

datatype jwt_result = JwtExpired | JwtInvalid | JwtParsed accessClaims bool

text \<open>The libraries and the settings of the services.\<close>

record services =
  sv_sha256 :: "string \<Rightarrow> string"
  sv_bcryptGenerate :: "string \<Rightarrow> nat \<Rightarrow> go_error + string"
  sv_bcryptCompare :: "string \<Rightarrow> string \<Rightarrow> bool"
  sv_jwtSign :: "string \<Rightarrow> accessClaims \<Rightarrow> go_error + string"
  sv_jwtParse :: "string \<Rightarrow> time \<Rightarrow> string \<Rightarrow> jwt_result"
  sv_jwtSecret :: string
  sv_expiryMinutes :: int
  sv_ustr :: "uuid \<Rightarrow> string"
  sv_uparse :: "string \<Rightarrow> uuid option"

definition NewJWTService :: "string \<Rightarrow> int \<Rightarrow> go_error + string \<times> int" where
  "NewJWTService secret expiryMinutes =
     (if length secret < 32 then Inl (ErrText ''JWT secret must be at least 32 characters'')
      else if expiryMinutes \<le> 0 then Inl (ErrText ''JWT expiry must be positive'')
      else Inr (secret, expiryMinutes))"

definition Issue :: "services \<Rightarrow> uuid \<Rightarrow> Role \<Rightarrow> time \<Rightarrow> string go" where
  "Issue sv userID role t =
     andThen newUUID (\<lambda>jti.
     lift_result (sv_jwtSign sv (sv_jwtSecret sv)
       \<lparr>cl_Role = Role_string role, cl_Subject = sv_ustr sv userID, cl_ID = sv_ustr sv jti,
        cl_IssuedAt = Some t, cl_ExpiresAt = Some (t + sv_expiryMinutes sv * (60 * second))\<rparr>))"

text \<open>\<open>model.Role(claims.Role)\<close> makes any string a role.\<close>

definition Role_of :: "string \<Rightarrow> Role" where
  "Role_of s = (if s = ''user'' then RoleUser else if s = ''master'' then RoleMaster else OtherRole s)"

record AccessTokenClaims =
  at_UserID :: uuid
  at_Role :: Role
  at_JTI :: string
  at_IssuedAt :: time
  at_ExpiresAt :: time

definition Parse :: "services \<Rightarrow> string \<Rightarrow> AccessTokenClaims go" where
  "Parse sv tokenString =
     andThen now (\<lambda>t.
     lift_result (case sv_jwtParse sv (sv_jwtSecret sv) t tokenString of
       JwtExpired \<Rightarrow> Inl ErrTokenExpired
     | JwtInvalid \<Rightarrow> Inl ErrUnauthorized
     | JwtParsed claims valid \<Rightarrow>
         if \<not> valid then Inl ErrUnauthorized
         else (case sv_uparse sv (cl_Subject claims) of
           None \<Rightarrow> Inl ErrUnauthorized
         | Some userID \<Rightarrow>
             if cl_ID claims = '''' then Inl ErrUnauthorized
             else Inr \<lparr>at_UserID = userID, at_Role = Role_of (cl_Role claims),
                       at_JTI = cl_ID claims,
                       at_IssuedAt = (case cl_IssuedAt claims of None \<Rightarrow> zero_time | Some x \<Rightarrow> x),
                       at_ExpiresAt = (case cl_ExpiresAt claims of None \<Rightarrow> zero_time | Some x \<Rightarrow> x)\<rparr>)))"

definition RefreshHash :: "services \<Rightarrow> string \<Rightarrow> string" where
  "RefreshHash sv plaintext = hex_encode (sv_sha256 sv plaintext)"

text \<open>64 bytes of entropy, drawn as one number.\<close>

definition bytes64 :: "int \<Rightarrow> string" where
  "bytes64 r = map (\<lambda>i. char_of (nat (r div 256 ^ i mod 256))) [0..<64]"

record RefreshTokenPair =
  pair_Plaintext :: string
  pair_Hash :: string

definition Generate :: "services \<Rightarrow> RefreshTokenPair go" where
  "Generate sv = andThen entropy (\<lambda>r.
     let plaintext = hex_encode (bytes64 r) in
     ret \<lparr>pair_Plaintext = plaintext, pair_Hash = RefreshHash sv plaintext\<rparr>)"

definition PasswordHash :: "services \<Rightarrow> string \<Rightarrow> go_error + string" where
  "PasswordHash sv password = sv_bcryptGenerate sv password 12"

definition PasswordVerify :: "services \<Rightarrow> string \<Rightarrow> string \<Rightarrow> bool" where
  "PasswordVerify sv hash password = sv_bcryptCompare sv hash password"

lemma Role_of_string:
  "Role_Valid r \<Longrightarrow> Role_of (Role_string r) = r"
  by (auto simp: Role_Valid_def Role_of_def)

subsection \<open>Interfaces\<close>

text \<open>
  \<open>ISecretHasher\<close>: a hash is not empty, verifying a guess against it gives four results, and a right
  digit is always a hit.
\<close>

locale secret_hasher =
  fixes hash :: "int list \<Rightarrow> uuid \<Rightarrow> int \<Rightarrow> go_error + string"
    and verify :: "string \<Rightarrow> int list \<Rightarrow> uuid \<Rightarrow> int \<Rightarrow> go_error + DigitResult list"
  assumes hash_total: "\<exists>h. hash s gid slot = Inr h \<and> h \<noteq> ''''"
    and verify_total: "hash s gid slot = Inr h \<Longrightarrow>
      \<exists>rs. verify h g gid slot = Inr rs \<and> length rs = 4 \<and> set rs \<subseteq> {DigitHit, DigitMiss}"
    and verify_complete: "hash s gid slot = Inr h \<Longrightarrow> verify h g gid slot = Inr rs \<Longrightarrow>
      i < 4 \<Longrightarrow> s ! i = g ! i \<Longrightarrow> rs ! i = DigitHit"
begin

lemma right_guess_wins:
  assumes "hash s gid slot = Inr h" "verify h s gid slot = Inr rs"
  shows "IsWin rs"
proof -
  from verify_total [OF assms(1), of s] assms(2) have "length rs = 4" by simp
  then show ?thesis
    using verify_complete [OF assms] by (auto simp: IsWin_iff in_set_conv_nth)
qed

end

interpretation secret_service: secret_hasher "Hash h" "Verify h" for h
proof unfold_locales
  fix s g :: "int list" and gid :: uuid and slot :: int and hsh rs and i :: nat
  show "\<exists>hsh. Hash h s gid slot = Inr hsh \<and> hsh \<noteq> ''''"
    by (simp add: Hash_def)
  assume hash: "Hash h s gid slot = Inr hsh"
  show "\<exists>rs. Verify h hsh g gid slot = Inr rs \<and> length rs = 4 \<and> set rs \<subseteq> {DigitHit, DigitMiss}"
    unfolding Verify_Hash [OF hash] by (intro exI conjI refl) auto
  assume "Verify h hsh g gid slot = Inr rs" "i < 4" "s ! i = g ! i"
  then show "rs ! i = DigitHit"
    unfolding Verify_Hash [OF hash] by (auto simp: less_Suc_eq numeral_eq_Suc)
qed

text \<open>\<open>IGuessNumberGenerator\<close>: a generated guess is accepted by the validation.\<close>

locale guess_generator =
  fixes generate :: "string go"
  assumes generated: "generate w = (Inr s, w') \<Longrightarrow> \<exists>ds. four_distinct_digits ds \<and> s = format_digits ds"
    and generate_runs: "(\<And>n. w_rand w n \<noteq> None) \<Longrightarrow> \<exists>s w'. generate w = (Inr s, w')"
begin

lemma generated_valid: "generate w = (Inr s, w') \<Longrightarrow> \<exists>ds. ValidateFourDigits s = Inr ds"
  using generated by (auto simp: ValidateFourDigits_Inr)

end

interpretation random_service: guess_generator GenerateGuessNumber
  by unfold_locales (auto intro: GenerateGuessNumber_digits GenerateGuessNumber_runs)

end
