(* ===== verification/GameLogic.thy ===== *)
theory GameLogic
  imports Repos RedisStore Crypto
begin

text \<open>
  \<open>usecase/game\_logic.go\<close>: the rules of a duel on the row of a game. A function that changes
  \<open>*game\<close> returns the changed row, and an error leaves the row as it was. The second half states
  when a row is well formed and shows that every rule keeps it so.
\<close>

subsection \<open>The rules\<close>

definition gamePlayerSlot :: "game \<Rightarrow> uuid \<Rightarrow> go_error + int" where
  "gamePlayerSlot g u =
     (if u = game_Player1ID g then Inr 1 else if u = game_Player2ID g then Inr 2
      else Inl ErrForbidden)"

definition setGameSecretHash :: "game \<Rightarrow> uuid \<Rightarrow> string \<Rightarrow> go_error + game" where
  "setGameSecretHash g u hash =
     (if u = game_Player1ID g then
        (if game_Player1Secret g \<noteq> '''' then Inl ErrBadRequest
         else Inr (g\<lparr>game_Player1Secret := hash\<rparr>))
      else if u = game_Player2ID g then
        (if game_Player2Secret g \<noteq> '''' then Inl ErrBadRequest
         else Inr (g\<lparr>game_Player2Secret := hash\<rparr>))
      else Inl ErrForbidden)"

definition startGame :: "game \<Rightarrow> time \<Rightarrow> go_error + game" where
  "startGame g t =
     (if game_Status g \<noteq> GameStatusWaitingSecret \<or> \<not> BothSecretsSet g then Inl ErrBadRequest
      else Inr (g\<lparr>game_Status := GameStatusInProgress, game_CurrentTurn := 1,
                  game_CurrentTurnPlayerID := Some (game_Player1ID g),
                  game_StartedAt := Some t, game_UpdatedAt := t\<rparr>))"

definition gameOpponentID :: "game \<Rightarrow> uuid \<Rightarrow> go_error + uuid" where
  "gameOpponentID g u =
     (if u = game_Player1ID g then Inr (game_Player2ID g)
      else if u = game_Player2ID g then Inr (game_Player1ID g) else Inl ErrForbidden)"

definition gameOpponentSecretHash :: "game \<Rightarrow> uuid \<Rightarrow> go_error + string \<times> int" where
  "gameOpponentSecretHash g u =
     (if u = game_Player1ID g then Inr (game_Player2Secret g, 2)
      else if u = game_Player2ID g then Inr (game_Player1Secret g, 1) else Inl ErrForbidden)"

definition addGameGuess ::
  "game \<Rightarrow> uuid \<Rightarrow> int list \<Rightarrow> DigitResult list \<Rightarrow> bool \<Rightarrow> time \<Rightarrow> (guess \<times> game) go" where
  "addGameGuess g u guessDigits results isAuto t =
     (if game_Status g \<noteq> GameStatusInProgress then throw ErrGameNotStarted
      else if \<not> CanGuess g u then throw ErrNotYourTurn
      else andThen newUUID (\<lambda>newID.
        let row = \<lparr>guess_ID = newID, guess_GameID = game_ID g, guess_PlayerID = u,
                   guess_Turn = game_CurrentTurn g, guess_GuessNumber = format_digits guessDigits,
                   guess_DigitResults = results, guess_HitCount = HitCount results,
                   guess_IsAuto = isAuto, guess_CreatedAt = t, guess_UpdatedAt = t\<rparr>
        in andThen (lift_result (gameOpponentID g u)) (\<lambda>nextPlayer.
           ret (row, g\<lparr>game_CurrentTurn := game_CurrentTurn g + 1,
                       game_CurrentTurnPlayerID := Some nextPlayer, game_UpdatedAt := t\<rparr>))))"

definition finishGame :: "game \<Rightarrow> uuid \<Rightarrow> time \<Rightarrow> go_error + game" where
  "finishGame g winnerID t =
     (if game_Status g \<noteq> GameStatusInProgress then Inl ErrGameAlreadyFinished
      else if winnerID \<noteq> game_Player1ID g \<and> winnerID \<noteq> game_Player2ID g
      then Inl (ErrText ''winner is not a participant'')
      else Inr (g\<lparr>game_Status := GameStatusFinished, game_WinnerID := Some winnerID,
                  game_FinishedAt := Some t, game_UpdatedAt := t\<rparr>))"

definition cancelGameBySecretTimeout :: "game \<Rightarrow> time \<Rightarrow> go_error + game" where
  "cancelGameBySecretTimeout g t =
     (if game_Status g \<noteq> GameStatusWaitingSecret then Inl ErrBadRequest
      else Inr (g\<lparr>game_Status := GameStatusFinished, game_FinishedAt := Some t,
                  game_UpdatedAt := t\<rparr>))"

subsection \<open>Well-formed games\<close>

text \<open>Player 1 moves on the odd turns, player 2 on the even ones.\<close>

definition turn_player :: "game \<Rightarrow> int \<Rightarrow> uuid" where
  "turn_player g n = (if odd n then game_Player1ID g else game_Player2ID g)"

definition waiting_ok :: "game \<Rightarrow> bool" where
  "waiting_ok g \<longleftrightarrow> \<not> BothSecretsSet g \<and> game_CurrentTurn g = 1 \<and>
     game_CurrentTurnPlayerID g = None \<and> game_WinnerID g = None \<and>
     game_StartedAt g = None \<and> game_FinishedAt g = None"

definition running_ok :: "game \<Rightarrow> bool" where
  "running_ok g \<longleftrightarrow> BothSecretsSet g \<and> 1 \<le> game_CurrentTurn g \<and>
     game_CurrentTurnPlayerID g = Some (turn_player g (game_CurrentTurn g)) \<and>
     game_WinnerID g = None \<and> game_StartedAt g \<noteq> None \<and> game_FinishedAt g = None"

text \<open>A finished game has a winner, who made the last guess, or was cancelled before it started.\<close>

definition finished_ok :: "game \<Rightarrow> bool" where
  "finished_ok g \<longleftrightarrow> game_FinishedAt g \<noteq> None \<and>
     (case game_WinnerID g of
        None \<Rightarrow> game_StartedAt g = None \<and> game_CurrentTurn g = 1 \<and>
          game_CurrentTurnPlayerID g = None \<and> \<not> BothSecretsSet g
      | Some w \<Rightarrow> game_StartedAt g \<noteq> None \<and> BothSecretsSet g \<and> 2 \<le> game_CurrentTurn g \<and>
          w = turn_player g (game_CurrentTurn g - 1))"

definition game_ok :: "game \<Rightarrow> bool" where
  "game_ok g \<longleftrightarrow> game_Player1ID g \<noteq> game_Player2ID g \<and>
     (game_Status g = GameStatusWaitingSecret \<and> waiting_ok g \<or>
      game_Status g = GameStatusInProgress \<and> running_ok g \<or>
      game_Status g = GameStatusFinished \<and> finished_ok g)"

lemmas game_ok_defs = game_ok_def waiting_ok_def running_ok_def finished_ok_def turn_player_def

lemma BothSecretsSet_frame [simp]:
  "BothSecretsSet (g\<lparr>game_UpdatedAt := t\<rparr>) = BothSecretsSet g"
  by (simp add: BothSecretsSet_def)

lemma turn_player_participant: "IsParticipant g (turn_player g n)"
  by (simp add: turn_player_def IsParticipant_def)

lemma game_ok_can_guess:
  "game_ok g \<Longrightarrow> CanGuess g u \<longleftrightarrow>
     game_Status g = GameStatusInProgress \<and> u = turn_player g (game_CurrentTurn g)"
  by (auto simp: game_ok_def running_ok_def CanGuess_def IsCurrentTurn_def)

lemma opponent_next:
  assumes "game_ok g" "game_Status g = GameStatusInProgress" "CanGuess g u"
  shows "gameOpponentID g u = Inr (turn_player g (game_CurrentTurn g + 1))"
  using assms by (auto simp: game_ok_def running_ok_def CanGuess_def IsCurrentTurn_def
      gameOpponentID_def turn_player_def)

lemma game_ok_waiting:
  "game_Status g = GameStatusWaitingSecret \<Longrightarrow> game_ok g \<longleftrightarrow>
     game_Player1ID g \<noteq> game_Player2ID g \<and> waiting_ok g"
  by (simp add: game_ok_def)

lemma game_ok_running:
  "game_Status g = GameStatusInProgress \<Longrightarrow> game_ok g \<longleftrightarrow>
     game_Player1ID g \<noteq> game_Player2ID g \<and> running_ok g"
  by (simp add: game_ok_def)

lemma game_ok_finished:
  "game_Status g = GameStatusFinished \<Longrightarrow> game_ok g \<longleftrightarrow>
     game_Player1ID g \<noteq> game_Player2ID g \<and> finished_ok g"
  by (simp add: game_ok_def)

lemma setGameSecretHash_cases:
  assumes "setGameSecretHash g u hash = Inr g'"
  obtains "u = game_Player1ID g" "game_Player1Secret g = ''''" "g' = g\<lparr>game_Player1Secret := hash\<rparr>"
  | "u \<noteq> game_Player1ID g" "u = game_Player2ID g" "game_Player2Secret g = ''''"
      "g' = g\<lparr>game_Player2Secret := hash\<rparr>"
  using assms by (auto simp: setGameSecretHash_def split: if_splits)

lemma startGame_Inr:
  "startGame g t = Inr g' \<longleftrightarrow> game_Status g = GameStatusWaitingSecret \<and> BothSecretsSet g \<and>
     g' = g\<lparr>game_Status := GameStatusInProgress, game_CurrentTurn := 1,
            game_CurrentTurnPlayerID := Some (game_Player1ID g),
            game_StartedAt := Some t, game_UpdatedAt := t\<rparr>"
  by (auto simp: startGame_def)

lemma finishGame_Inr:
  "finishGame g u t = Inr g' \<longleftrightarrow> game_Status g = GameStatusInProgress \<and> IsParticipant g u \<and>
     g' = g\<lparr>game_Status := GameStatusFinished, game_WinnerID := Some u,
            game_FinishedAt := Some t, game_UpdatedAt := t\<rparr>"
  by (auto simp: finishGame_def IsParticipant_def)

lemma cancelGame_Inr:
  "cancelGameBySecretTimeout g t = Inr g' \<longleftrightarrow> game_Status g = GameStatusWaitingSecret \<and>
     g' = g\<lparr>game_Status := GameStatusFinished, game_FinishedAt := Some t, game_UpdatedAt := t\<rparr>"
  by (auto simp: cancelGameBySecretTimeout_def)

lemma setGameSecretHash_ok:
  assumes "setGameSecretHash g u hash = Inr g'" "game_ok g"
    "game_Status g = GameStatusWaitingSecret" "\<not> BothSecretsSet g'"
  shows "game_ok (g'\<lparr>game_UpdatedAt := t\<rparr>)"
  using assms(1)
  by (cases rule: setGameSecretHash_cases)
    (use assms(2-4) in \<open>simp_all add: game_ok_waiting waiting_ok_def BothSecretsSet_def\<close>)

lemma setGameSecretHash_start_ok:
  assumes "setGameSecretHash g u hash = Inr g1" "game_ok g"
    "startGame (g1\<lparr>game_UpdatedAt := t\<rparr>) t' = Inr g'"
  shows "game_ok g' \<and> game_Status g' = GameStatusInProgress \<and> game_CurrentTurn g' = 1"
  using assms(1)
  by (cases rule: setGameSecretHash_cases)
    (use assms(2,3) in \<open>simp_all add: startGame_Inr game_ok_waiting game_ok_running waiting_ok_def
       running_ok_def BothSecretsSet_def turn_player_def\<close>)

lemma addGameGuess_success:
  "addGameGuess g u ds rs auto t w = (Inr (row, g'), w') \<longleftrightarrow>
     game_Status g = GameStatusInProgress \<and> CanGuess g u \<and>
     (\<exists>next. gameOpponentID g u = Inr next \<and>
       row = \<lparr>guess_ID = w_ids w (w_nids w), guess_GameID = game_ID g, guess_PlayerID = u,
              guess_Turn = game_CurrentTurn g, guess_GuessNumber = format_digits ds,
              guess_DigitResults = rs, guess_HitCount = HitCount rs, guess_IsAuto = auto,
              guess_CreatedAt = t, guess_UpdatedAt = t\<rparr> \<and>
       g' = g\<lparr>game_CurrentTurn := game_CurrentTurn g + 1,
              game_CurrentTurnPlayerID := Some next, game_UpdatedAt := t\<rparr> \<and>
       w' = w\<lparr>w_nids := Suc (w_nids w)\<rparr>)"
  by (auto simp: addGameGuess_def Let_def success_iff)

lemma addGameGuess_ok:
  assumes "addGameGuess g u ds rs auto t w = (Inr (row, g'), w')" "game_ok g"
  shows "game_ok g'" "game_Status g' = GameStatusInProgress" "u = turn_player g (game_CurrentTurn g)"
proof -
  from assms(1) obtain nextp where run: "game_Status g = GameStatusInProgress" "CanGuess g u"
      "gameOpponentID g u = Inr nextp"
    and g': "g' = g\<lparr>game_CurrentTurn := game_CurrentTurn g + 1,
              game_CurrentTurnPlayerID := Some nextp, game_UpdatedAt := t\<rparr>"
    by (auto simp: addGameGuess_success)
  from opponent_next [OF assms(2) run(1,2)] run(3)
  have nextp: "nextp = turn_player g (game_CurrentTurn g + 1)" by simp
  show "game_Status g' = GameStatusInProgress" by (simp add: g' run(1))
  show "game_ok g'" using assms(2)
    by (simp add: g' game_ok_running run(1) running_ok_def nextp BothSecretsSet_def turn_player_def)
  show "u = turn_player g (game_CurrentTurn g)" using assms(2) run(2)
    by (simp add: game_ok_can_guess)
qed

lemma finishGame_ok:
  assumes "addGameGuess g u ds rs auto t w = (Inr (row, g1), w')" "game_ok g"
    "finishGame g1 u t' = Inr g'"
  shows "game_ok g' \<and> game_Status g' = GameStatusFinished \<and> game_WinnerID g' = Some u"
proof -
  note ok = addGameGuess_ok [OF assms(1,2)]
  from assms(1) have g1: "game_CurrentTurn g1 = game_CurrentTurn g + 1"
    "game_Player1ID g1 = game_Player1ID g" "game_Player2ID g1 = game_Player2ID g"
    by (auto simp: addGameGuess_success)
  have "1 \<le> game_CurrentTurn g" using assms(1,2)
    by (auto simp: addGameGuess_success game_ok_running running_ok_def)
  with ok(1,3) assms(3) show ?thesis
    by (simp add: finishGame_Inr game_ok_running game_ok_finished running_ok_def finished_ok_def
        BothSecretsSet_def turn_player_def g1)
qed

lemma cancelGame_ok:
  assumes "cancelGameBySecretTimeout g t = Inr g'" "game_ok g"
  shows "game_ok g'"
  using assms
  by (simp add: cancelGame_Inr game_ok_waiting game_ok_finished waiting_ok_def finished_ok_def
      BothSecretsSet_def)

lemma keeps_addGameGuess [keeps_intros]:
  "keeps (\<lambda>w. I (w_db w)) (addGameGuess g u ds rs auto t)"
  unfolding addGameGuess_def Let_def by (intro keeps_intros)

text \<open>The rules write neither the identity of a game nor its players.\<close>

definition same_game :: "game \<Rightarrow> game \<Rightarrow> bool" where
  "same_game g g' \<longleftrightarrow> game_ID g' = game_ID g \<and> game_Player1ID g' = game_Player1ID g \<and>
     game_Player2ID g' = game_Player2ID g \<and> game_CreatedAt g' = game_CreatedAt g"

lemma same_game_rules:
  "setGameSecretHash g u hash = Inr g' \<Longrightarrow> same_game g g'"
  "startGame g t = Inr g' \<Longrightarrow> same_game g g'"
  "addGameGuess g u ds rs auto t w = (Inr (row, g'), w') \<Longrightarrow> same_game g g'"
  "finishGame g u t = Inr g' \<Longrightarrow> same_game g g'"
  "cancelGameBySecretTimeout g t = Inr g' \<Longrightarrow> same_game g g'"
  by (auto simp: same_game_def setGameSecretHash_def startGame_def addGameGuess_success
      finishGame_def cancelGameBySecretTimeout_def split: if_splits)

end
