(* ===== verification/ActivityLog.thy ===== *)
theory ActivityLog
  imports Repos
begin

text \<open>
  \<open>usecase/activity\_log.go\<close>: the records kept of what users and administrators do. \<open>json.Marshal\<close> of
  these maps cannot fail; a record that is not saved is reported with an error of its own.
\<close>

definition recordActivityLog :: "uuid option \<Rightarrow> string \<Rightarrow> json_object \<Rightarrow> time \<Rightarrow> unit go" where
  "recordActivityLog userID logType detail t =
     andThen newUUID (\<lambda>newID.
     mapErr (\<lambda>_. ErrText ''failed to save activity log'')
       (activityLogRepo_Create \<lparr>actlog_ID = newID, actlog_UserID = userID, actlog_LogType = logType,
          actlog_Detail = detail, actlog_CreatedAt = t, actlog_UpdatedAt = t\<rparr>))"

definition recordGuessActivityLog ::
  "uuid \<Rightarrow> uuid \<Rightarrow> int \<Rightarrow> int \<Rightarrow> bool \<Rightarrow> bool \<Rightarrow> time \<Rightarrow> unit go" where
  "recordGuessActivityLog gameID playerID turn hitCount isWin isAuto t =
     recordActivityLog (Some playerID) ''guess''
       [(''gameId'', JUuid gameID), (''playerId'', JUuid playerID), (''turn'', JInt turn),
        (''hitCount'', JInt hitCount), (''isWin'', JBool isWin), (''isAuto'', JBool isAuto)] t"

definition recordGameOverActivityLog :: "uuid \<Rightarrow> string \<Rightarrow> uuid option \<Rightarrow> time \<Rightarrow> unit go" where
  "recordGameOverActivityLog gameID reason winnerID t =
     recordActivityLog None ''game_over''
       ([(''gameId'', JUuid gameID), (''reason'', JStr reason)] @
        (case winnerID of None \<Rightarrow> [] | Some u \<Rightarrow> [(''winnerId'', JUuid u)])) t"

definition recordTimeoutActivityLog :: "uuid \<Rightarrow> uuid \<Rightarrow> time \<Rightarrow> unit go" where
  "recordTimeoutActivityLog gameID playerID t =
     recordActivityLog (Some playerID) ''timeout''
       [(''gameId'', JUuid gameID), (''playerId'', JUuid playerID)] t"

definition recordRecoverActivityLog :: "uuid \<Rightarrow> time \<Rightarrow> unit go" where
  "recordRecoverActivityLog gameID t =
     recordActivityLog None ''recover'' [(''gameId'', JUuid gameID)] t"

definition recordAdminDeleteUserLog :: "uuid \<Rightarrow> uuid \<Rightarrow> time \<Rightarrow> unit go" where
  "recordAdminDeleteUserLog adminID targetID t =
     recordActivityLog (Some adminID) ''admin_delete_user''
       [(''adminId'', JUuid adminID), (''targetUserId'', JUuid targetID)] t"

definition recordAdminRebuildRankingLog :: "uuid \<Rightarrow> time \<Rightarrow> unit go" where
  "recordAdminRebuildRankingLog adminID t =
     recordActivityLog (Some adminID) ''admin_rebuild_ranking'' [(''adminId'', JUuid adminID)] t"

lemmas record_defs =
  recordGuessActivityLog_def recordGameOverActivityLog_def recordTimeoutActivityLog_def
  recordRecoverActivityLog_def recordAdminDeleteUserLog_def recordAdminRebuildRankingLog_def

text \<open>Only the table of activity logs changes.\<close>

lemma keeps_recordActivityLog:
  assumes "\<And>d t. I d \<Longrightarrow> I (d\<lparr>db_actlogs := t\<rparr>)"
  shows "keeps (\<lambda>w. I (w_db w)) (recordActivityLog u ty d t)"
  unfolding recordActivityLog_def activityLogRepo_Create_def
  by (intro keeps_intros keeps_dbExec) (auto simp: assms split: option.splits)

lemma keeps_record:
  assumes "\<And>d t. I d \<Longrightarrow> I (d\<lparr>db_actlogs := t\<rparr>)"
  shows "keeps (\<lambda>w. I (w_db w)) (recordGuessActivityLog g p n hc win auto t)"
    "keeps (\<lambda>w. I (w_db w)) (recordGameOverActivityLog g reason winner t)"
    "keeps (\<lambda>w. I (w_db w)) (recordTimeoutActivityLog g p t)"
    "keeps (\<lambda>w. I (w_db w)) (recordRecoverActivityLog g t)"
    "keeps (\<lambda>w. I (w_db w)) (recordAdminDeleteUserLog p q t)"
    "keeps (\<lambda>w. I (w_db w)) (recordAdminRebuildRankingLog p t)"
  unfolding record_defs by (intro keeps_recordActivityLog assms; assumption)+

end
