(* ===== verification/Hub.thy ===== *)
theory Hub
  imports RedisStore
begin

text \<open>
  \<open>websocket/hub.go\<close>: the connected clients by user, what is written to their connections, and the
  session store that joins the hub with the sessions in Redis. A connection that was closed refuses
  every later write; what is written to an open one is recorded.
\<close>

subsection \<open>Connections\<close>

definition conn_Close :: "nat \<Rightarrow> world \<Rightarrow> world" where
  "conn_Close k w = w\<lparr>w_closed := insert k (w_closed w)\<rparr>"

definition WriteMessage :: "nat \<Rightarrow> json_value \<Rightarrow> unit go" where
  "WriteMessage k v = (\<lambda>w.
     if k \<in> w_closed w then (Inl ErrIO, w) else (Inr (), w\<lparr>w_frames := w_frames w @ [(k, v)]\<rparr>))"

definition close_client :: "clientConn \<Rightarrow> world \<Rightarrow> world" where
  "close_client cl w = (case cc_conn cl of None \<Rightarrow> w | Some k \<Rightarrow> conn_Close k w)"

subsection \<open>The hub\<close>

definition Hub_Register :: "uuid \<Rightarrow> string \<Rightarrow> nat option \<Rightarrow> unit go" where
  "Hub_Register userID connectionID conn = (\<lambda>w.
     let w1 = (case map_of (w_hub w) userID of None \<Rightarrow> w | Some old \<Rightarrow> close_client old w)
     in (Inr (), w1\<lparr>w_hub := AList.update userID
           \<lparr>cc_userID = userID, cc_connID = connectionID, cc_conn = conn\<rparr> (w_hub w1)\<rparr>))"

definition Hub_Disconnect :: "uuid \<Rightarrow> unit go" where
  "Hub_Disconnect userID = (\<lambda>w. case map_of (w_hub w) userID of
     None \<Rightarrow> (Inr (), w)
   | Some cl \<Rightarrow> let w1 = close_client cl w in
       (Inr (), w1\<lparr>w_hub := AList.delete userID (w_hub w1)\<rparr>))"

definition SendRaw :: "uuid \<Rightarrow> json_value \<Rightarrow> unit go" where
  "SendRaw userID v = (\<lambda>w. case map_of (w_hub w) userID of
     None \<Rightarrow> (Inr (), w)
   | Some cl \<Rightarrow> (case cc_conn cl of None \<Rightarrow> (Inr (), w) | Some k \<Rightarrow> WriteMessage k v w))"

definition SendToUser :: "uuid \<Rightarrow> string \<Rightarrow> json_object \<Rightarrow> unit go" where
  "SendToUser userID eventType payload =
     SendRaw userID (JObj [(''type'', JStr eventType), (''data'', JObj payload)])"

definition SendError :: "uuid \<Rightarrow> string \<Rightarrow> string \<Rightarrow> unit go" where
  "SendError userID code message =
     ignoreErr (SendRaw userID (JObj [(''type'', JStr ''ERROR''),
       (''data'', JObj [(''code'', JStr code), (''message'', JStr message)])]))"

definition SendPong :: "uuid \<Rightarrow> unit go" where
  "SendPong userID = ignoreErr (SendRaw userID (JObj [(''type'', JStr ''PONG'')]))"

subsection \<open>The session store\<close>

text \<open>A \<open>SessionStore\<close> is the hub and its Redis part, an interface that may be \<open>nil\<close>.\<close>

definition SessionStore_SetUser :: "store option \<Rightarrow> uuid \<Rightarrow> string \<Rightarrow> duration \<Rightarrow> unit go" where
  "SessionStore_SetUser redis userID connectionID ttl =
     (case redis of None \<Rightarrow> ret () | Some s \<Rightarrow> SetUser s userID connectionID ttl)"

definition SessionStore_DeleteUser :: "store option \<Rightarrow> uuid \<Rightarrow> unit go" where
  "SessionStore_DeleteUser redis userID =
     andThen (Hub_Disconnect userID) (\<lambda>_.
     case redis of None \<Rightarrow> ret () | Some s \<Rightarrow> DeleteUser s userID)"

definition DisconnectWithError :: "store option \<Rightarrow> uuid \<Rightarrow> string \<Rightarrow> string \<Rightarrow> unit go" where
  "DisconnectWithError redis userID code message =
     andThen (SendError userID code message) (\<lambda>_. SessionStore_DeleteUser redis userID)"

subsection \<open>What they do\<close>

lemma keeps_hub [keeps_intros]:
  "keeps (\<lambda>w. I (w_db w)) (WriteMessage k v)"
  "keeps (\<lambda>w. I (w_db w)) (Hub_Register u i k')"
  "keeps (\<lambda>w. I (w_db w)) (Hub_Disconnect u)"
  "keeps (\<lambda>w. I (w_db w)) (SendRaw u v)"
  "keeps (\<lambda>w. I (w_db w)) (SendToUser u ty p)"
  "keeps (\<lambda>w. I (w_db w)) (SendError u code msg)"
  "keeps (\<lambda>w. I (w_db w)) (SendPong u)"
proof -
  show wr: "keeps (\<lambda>w. I (w_db w)) (WriteMessage k v)" for k v
    by (simp add: keeps_def WriteMessage_def)
  show "keeps (\<lambda>w. I (w_db w)) (Hub_Register u i k')"
    by (simp add: keeps_def Hub_Register_def Let_def close_client_def conn_Close_def split: option.split)
  show "keeps (\<lambda>w. I (w_db w)) (Hub_Disconnect u)"
    by (simp add: keeps_def Hub_Disconnect_def Let_def close_client_def conn_Close_def split: option.split)
  show raw: "keeps (\<lambda>w. I (w_db w)) (SendRaw u v)" for u v
    using wr by (simp add: keeps_def SendRaw_def split: option.split)
  show "keeps (\<lambda>w. I (w_db w)) (SendToUser u ty p)"
    unfolding SendToUser_def by (rule raw)
  show "keeps (\<lambda>w. I (w_db w)) (SendError u code msg)" "keeps (\<lambda>w. I (w_db w)) (SendPong u)"
    unfolding SendError_def SendPong_def by (intro keeps_ignoreErr raw)+
qed

lemma keeps_sessions [keeps_intros]:
  "keeps (\<lambda>w. I (w_db w)) (SetUser s u i t)"
  "keeps (\<lambda>w. I (w_db w)) (DeleteUser s u)"
  "keeps (\<lambda>w. I (w_db w)) (SessionStore_SetUser r u i t)"
  "keeps (\<lambda>w. I (w_db w)) (SessionStore_DeleteUser r u)"
  "keeps (\<lambda>w. I (w_db w)) (DisconnectWithError r u code msg)"
  unfolding SessionStore_SetUser_def SessionStore_DeleteUser_def DisconnectWithError_def
    SetUser_def DeleteUser_def Let_def
  by (intro keeps_intros)+

text \<open>
  Every connection a user can be reached by is open: registering closes the one it replaces, and a
  client that leaves is closed. A number names one connection.
\<close>

definition hub_ok :: "world \<Rightarrow> bool" where
  "hub_ok w \<longleftrightarrow> distinct (map fst (w_hub w)) \<and>
     (\<forall>(u, cl)\<in>set (w_hub w). cc_userID cl = u \<and> (\<forall>k. cc_conn cl = Some k \<longrightarrow> k \<notin> w_closed w)) \<and>
     (\<forall>(u, cl)\<in>set (w_hub w). \<forall>(v, cl')\<in>set (w_hub w).
        cc_conn cl \<noteq> None \<longrightarrow> cc_conn cl = cc_conn cl' \<longrightarrow> u = v)"

definition hub_conn :: "world \<Rightarrow> uuid \<Rightarrow> nat option" where
  "hub_conn w u = Option.bind (map_of (w_hub w) u) cc_conn"

lemma hub_ok_map_of:
  assumes "hub_ok w"
  shows "map_of (w_hub w) u = Some cl \<Longrightarrow> cc_conn cl = Some k \<Longrightarrow> k \<notin> w_closed w"
    "map_of (w_hub w) u = Some cl \<Longrightarrow> map_of (w_hub w) v = Some cl' \<Longrightarrow> cc_conn cl = Some k \<Longrightarrow>
     cc_conn cl' = Some k \<Longrightarrow> u = v"
  using assms unfolding hub_ok_def by (fastforce dest!: map_of_SomeD)+

end
