(* ===== verification/Game.thy ===== *)
theory Game
  imports GameLogic ActivityLog Hub
begin

text \<open>
  The game use case: \<open>usecase/game.go\<close> and \<open>usecase/game\_play.go\<close>. A function that changes the row of
  the game it was given returns the changed row. The body of each transaction is a definition of
  its own (\<open>setSecretTx\<close>, \<open>submitGuessTx\<close>), since another request can run between the transaction
  and what surrounds it.
\<close>

subsection \<open>The use case and its dependencies\<close>

text \<open>
  \<open>GameUseCase\<close>: the interfaces that may be \<open>nil\<close>, and the settings. The repositories are those of
  \<open>Repos\<close>, the hasher that of \<open>Crypto\<close>; \<open>Random\<close> and \<open>Notifier\<close> are there or not.
\<close>

record GameUseCase =
  uc_Secrets :: hasher
  uc_Locks :: "store option"
  uc_Turns :: "store option"
  uc_Random :: bool
  uc_Notifier :: bool
  uc_TurnDuration :: duration
  uc_SecretSetup :: duration
  uc_GameLockTTL :: duration

definition NewGameUseCase ::
  "hasher \<Rightarrow> store option \<Rightarrow> store option \<Rightarrow> bool \<Rightarrow> bool \<Rightarrow> duration \<Rightarrow> duration \<Rightarrow> duration \<Rightarrow>
   GameUseCase" where
  "NewGameUseCase secrets locks turns random notifier turnDuration secretSetup gameLockTTL =
     \<lparr>uc_Secrets = secrets, uc_Locks = locks, uc_Turns = turns, uc_Random = random,
      uc_Notifier = notifier, uc_TurnDuration = turnDuration, uc_SecretSetup = secretSetup,
      uc_GameLockTTL = gameLockTTL\<rparr>"

text \<open>\<open>if g.Notifier != nil { _ = g.Notifier.SendToUser(...) }\<close>\<close>

definition sendIfNotifier :: "GameUseCase \<Rightarrow> uuid \<Rightarrow> string \<Rightarrow> json_object \<Rightarrow> unit go" where
  "sendIfNotifier c u eventType payload =
     (if uc_Notifier c then ignoreErr (SendToUser u eventType payload) else ret ())"

lemma keeps_sendIfNotifier [keeps_intros]: "keeps (\<lambda>w. I (w_db w)) (sendIfNotifier c u ty p)"
  unfolding sendIfNotifier_def by (intro keeps_intros)

text \<open>
  \<open>if g.Locks != nil { ok, err := AcquireLock(...); ...; if !ok { return ErrRateLimitExceeded } }\<close>
\<close>

definition gameLock :: "GameUseCase \<Rightarrow> rkey \<Rightarrow> unit go" where
  "gameLock c key = (case uc_Locks c of
     None \<Rightarrow> ret ()
   | Some s \<Rightarrow> andThen (AcquireLock s key (uc_GameLockTTL c)) (\<lambda>ok. ensure ok ErrRateLimitExceeded))"

lemma keeps_AcquireLock [keeps_intros]: "keeps (\<lambda>w. I (w_db w)) (AcquireLock s k t)"
  unfolding AcquireLock_def by (intro keeps_intros)

lemma keeps_gameLock [keeps_intros]: "keeps (\<lambda>w. I (w_db w)) (gameLock c k)"
  unfolding gameLock_def by (intro keeps_intros)

subsection \<open>The state shown to a player (usecase/game.go)\<close>

record GuessSummary =
  gs_Turn :: int
  gs_GuessNumber :: string
  gs_DigitResults :: "int list"
  gs_HitCount :: int
  gs_IsAuto :: bool

record GameStateOutput =
  out_GameID :: uuid
  out_Status :: GameStatus
  out_CurrentTurn :: int
  out_CurrentTurnPlayerID :: "uuid option"
  out_RemainingSeconds :: int
  out_MyGuesses :: "GuessSummary list"
  out_OpponentGuessCount :: int

fun GameStatus_string :: "GameStatus \<Rightarrow> string" where
  "GameStatus_string GameStatusWaitingSecret = ''WAITING_SECRET''"
| "GameStatus_string GameStatusInProgress = ''IN_PROGRESS''"
| "GameStatus_string GameStatusFinished = ''FINISHED''"
| "GameStatus_string (OtherGameStatus s) = s"

text \<open>The text of an optional player is empty for \<open>nil\<close>.\<close>

fun player_text :: "uuid option \<Rightarrow> json_value" where
  "player_text None = JStr ''''"
| "player_text (Some u) = JUuid u"

definition gameStateWSPayload :: "GameStateOutput \<Rightarrow> json_object" where
  "gameStateWSPayload s =
     [(''gameId'', JUuid (out_GameID s)), (''status'', JStr (GameStatus_string (out_Status s))),
      (''currentTurn'', JInt (out_CurrentTurn s)),
      (''currentTurnPlayerID'', player_text (out_CurrentTurnPlayerID s)),
      (''remainingSeconds'', JInt (out_RemainingSeconds s)),
      (''myGuesses'', JArr (map (\<lambda>row. JObj
         [(''turn'', JInt (gs_Turn row)), (''guessNumber'', JStr (gs_GuessNumber row)),
          (''digitResults'', JArr (map JInt (gs_DigitResults row))),
          (''hitCount'', JInt (gs_HitCount row)), (''isAuto'', JBool (gs_IsAuto row))])
         (out_MyGuesses s))),
      (''opponentGuessCount'', JInt (out_OpponentGuessCount s))]"

definition guess_summary :: "guess \<Rightarrow> GuessSummary" where
  "guess_summary row =
     \<lparr>gs_Turn = guess_Turn row, gs_GuessNumber = guess_GuessNumber row,
      gs_DigitResults = DigitResultsToInts (guess_DigitResults row),
      gs_HitCount = guess_HitCount row, gs_IsAuto = guess_IsAuto row\<rparr>"

definition buildGameState :: "GameUseCase \<Rightarrow> uuid \<Rightarrow> uuid \<Rightarrow> GameStateOutput go" where
  "buildGameState c userID gameID =
     andThen (gameRepo_FindByID gameID) (\<lambda>found.
     andThen (require found ErrNotFound) (\<lambda>game.
     andThen (ensure (IsParticipant game userID) ErrForbidden) (\<lambda>_.
     andThen (guessRepo_ListByGameAndPlayer gameID userID) (\<lambda>myGuesses.
     let opponentID = (if userID = game_Player2ID game then game_Player1ID game
                       else game_Player2ID game) in
     andThen (guessRepo_CountByGameExcludingPlayer gameID opponentID) (\<lambda>oppCount.
     andThen (case uc_Turns c of
         Some s \<Rightarrow> if game_Status game = GameStatusInProgress
                   then andThen now (\<lambda>t. RemainingSeconds s gameID t) else ret 0
       | None \<Rightarrow> ret 0) (\<lambda>remaining.
     ret \<lparr>out_GameID = gameID, out_Status = game_Status game,
          out_CurrentTurn = game_CurrentTurn game,
          out_CurrentTurnPlayerID = game_CurrentTurnPlayerID game,
          out_RemainingSeconds = remaining, out_MyGuesses = map guess_summary myGuesses,
          out_OpponentGuessCount = oppCount\<rparr>))))))"

definition GetGameState :: "GameUseCase \<Rightarrow> uuid \<Rightarrow> uuid \<Rightarrow> GameStateOutput go" where
  "GetGameState c userID gameID = buildGameState c userID gameID"

definition SyncGameState :: "GameUseCase \<Rightarrow> uuid \<Rightarrow> uuid \<Rightarrow> GameStateOutput go" where
  "SyncGameState c userID gameID =
     andThen (buildGameState c userID gameID) (\<lambda>state.
     andThen (sendIfNotifier c userID ''GAME_STATE_SYNC'' (gameStateWSPayload state)) (\<lambda>_.
     ret state))"

definition ensureGamePlayer :: "uuid \<Rightarrow> unit go" where
  "ensureGamePlayer userID =
     andThen (userRepo_FindByID userID) (\<lambda>found.
     case found of
       None \<Rightarrow> throw ErrUnauthorized
     | Some u \<Rightarrow> if IsDeleted u then throw ErrUnauthorized
                 else if IsMaster u then throw ErrForbidden else ret ())"

subsection \<open>Setting a secret (usecase/game\_play.go)\<close>

definition startGameInTx :: "game \<Rightarrow> time \<Rightarrow> unit go" where
  "startGameInTx game t =
     andThen (lift_result (startGame game t)) (\<lambda>game. gameRepo_Update game)"

definition secretAllowed :: "GameStatus \<Rightarrow> go_error + unit" where
  "secretAllowed s =
     (if s = GameStatusInProgress then Inl ErrGameAlreadyStarted
      else if s = GameStatusFinished then Inl ErrGameAlreadyFinished
      else if s = GameStatusWaitingSecret then Inr ()
      else Inl ErrBadRequest)"

text \<open>The transaction of \<open>SetSecretNumber\<close>; its result is \<open>started\<close>.\<close>

definition setSecretTx :: "GameUseCase \<Rightarrow> uuid \<Rightarrow> uuid \<Rightarrow> int list \<Rightarrow> bool go" where
  "setSecretTx c userID gameID secretDigits =
     andThen (gameRepo_FindByIDForUpdate gameID) (\<lambda>found.
     andThen (require found ErrNotFound) (\<lambda>game.
     andThen (ensure (IsParticipant game userID) ErrForbidden) (\<lambda>_.
     andThen (lift_result (secretAllowed (game_Status game))) (\<lambda>_.
     let slot = (if userID = game_Player2ID game then 2 else 1) in
     andThen (lift_result (Hash (uc_Secrets c) secretDigits gameID slot)) (\<lambda>hash.
     andThen (lift_result (setGameSecretHash game userID hash)) (\<lambda>game.
     andThen now (\<lambda>t.
     let game = game\<lparr>game_UpdatedAt := t\<rparr> in
     andThen (gameRepo_Update game) (\<lambda>_.
     if BothSecretsSet game
     then andThen now (\<lambda>t. andThen (startGameInTx game t) (\<lambda>_. ret True))
     else ret False))))))))"

definition notifyTurnChanged :: "GameUseCase \<Rightarrow> game \<Rightarrow> unit go" where
  "notifyTurnChanged c game =
     (case game_CurrentTurnPlayerID game of
        None \<Rightarrow> ret ()
      | Some turnPlayer \<Rightarrow>
          if \<not> uc_Notifier c then ret ()
          else andThen (case uc_Turns c of
              None \<Rightarrow> ret 0
            | Some s \<Rightarrow> andThen now (\<lambda>t. RemainingSeconds s (game_ID game) t)) (\<lambda>remaining.
          let payload =
            [(''gameId'', JUuid (game_ID game)), (''currentTurn'', JInt (game_CurrentTurn game)),
             (''currentTurnPlayerID'', JUuid turnPlayer), (''remainingSeconds'', JInt remaining)] in
          forEach [game_Player1ID game, game_Player2ID game] (\<lambda>uid.
            ignoreErr (SendToUser uid ''TURN_CHANGED'' payload))))"

definition notifyGameStart :: "GameUseCase \<Rightarrow> uuid \<Rightarrow> unit go" where
  "notifyGameStart c gameID =
     andThen (gameRepo_FindByID gameID) (\<lambda>found.
     case found of
       None \<Rightarrow> ret ()
     | Some game \<Rightarrow>
         andThen now (\<lambda>t.
         let expires = t + uc_TurnDuration c in
         andThen (case uc_Turns c of None \<Rightarrow> ret () | Some s \<Rightarrow>
             (case game_CurrentTurnPlayerID game of None \<Rightarrow> ret () | Some p \<Rightarrow>
               SetTurn s gameID (game_CurrentTurn game) p t expires)) (\<lambda>_.
         andThen (forEach [game_Player1ID game, game_Player2ID game] (\<lambda>uid.
             andThen (buildGameState c uid gameID) (\<lambda>state.
             sendIfNotifier c uid ''GAME_STATE_SYNC'' (gameStateWSPayload state)))) (\<lambda>_.
         notifyTurnChanged c game))))"

definition SetSecretNumber :: "GameUseCase \<Rightarrow> uuid \<Rightarrow> uuid \<Rightarrow> string \<Rightarrow> unit go" where
  "SetSecretNumber c userID gameID secret =
     andThen (gameLock c (SecretLockKey gameID userID)) (\<lambda>_.
     andThen (lift_result (ValidateFourDigits secret)) (\<lambda>secretDigits.
     andThen (ensureGamePlayer userID) (\<lambda>_.
     andThen (WithTx (setSecretTx c userID gameID secretDigits)) (\<lambda>started.
     if started then notifyGameStart c gameID else ret ()))))"

subsection \<open>A guess (usecase/game\_play.go)\<close>

record guessResultOutput =
  gr_GuessID :: uuid
  gr_PlayerID :: uuid
  gr_Turn :: int
  gr_DigitResults :: "int list"
  gr_HitCount :: int
  gr_IsWin :: bool
  gr_IsAuto :: bool
  gr_NextTurnPlayerID :: "uuid option"

definition incrementUserWinCount :: "uuid \<Rightarrow> time \<Rightarrow> unit go" where
  "incrementUserWinCount userID t =
     andThen (userRepo_FindByID userID) (\<lambda>found.
     andThen (require found ErrNotFound) (\<lambda>u.
     userRepo_Update (u\<lparr>user_WinCount := user_WinCount u + 1, user_UpdatedAt := t\<rparr>)))"

text \<open>
  \<open>finishGameService\<close> returns no error when the row of the winner or of the loser is missing, since
  \<open>mapRepoNotFound(nil)\<close> is \<open>nil\<close>; the game is then as it was given.
\<close>

definition finishGameService :: "game \<Rightarrow> uuid \<Rightarrow> time \<Rightarrow> game go" where
  "finishGameService game winnerID t =
     (if winnerID = uuid_nil then throw ErrBadRequest
      else andThen (lift_result (gameOpponentID game winnerID)) (\<lambda>loserID.
      andThen (mapErr mapRepoNotFound (userRepo_FindByID winnerID)) (\<lambda>winner.
      case winner of None \<Rightarrow> ret game | Some winner \<Rightarrow>
      andThen (mapErr mapRepoNotFound (userRepo_FindByID loserID)) (\<lambda>loser.
      case loser of None \<Rightarrow> ret game | Some loser \<Rightarrow>
      andThen (lift_result (finishGame game winnerID t)) (\<lambda>game.
      andThen (gameRepo_Update game) (\<lambda>_.
      andThen newUUID (\<lambda>historyID.
      andThen (matchHistoryRepo_Create
        \<lparr>history_ID = historyID, history_GameID = game_ID game, history_WinnerID = winnerID,
         history_LoserID = loserID, history_WinnerUsername = user_Username winner,
         history_LoserUsername = user_Username loser, history_FinishedAt = t,
         history_CreatedAt = t, history_UpdatedAt = t\<rparr>) (\<lambda>_.
      andThen (incrementUserWinCount winnerID t) (\<lambda>_.
      ret game)))))))))"

text \<open>\<open>var results [4]model.DigitResult\<close> filled from the slice.\<close>

definition fill_results :: "DigitResult list \<Rightarrow> DigitResult list" where
  "fill_results rs = take 4 (rs @ replicate 4 DigitMiss)"

text \<open>The transaction of \<open>SubmitGuess\<close>: the result shown to the players and \<open>finished\<close>.\<close>

definition submitGuessTx ::
  "GameUseCase \<Rightarrow> uuid \<Rightarrow> uuid \<Rightarrow> int list \<Rightarrow> bool \<Rightarrow> (guessResultOutput \<times> bool) go" where
  "submitGuessTx c userID gameID guessDigits isAuto =
     andThen (gameRepo_FindByIDForUpdate gameID) (\<lambda>found.
     andThen (require found ErrNotFound) (\<lambda>game.
     andThen (ensure (IsParticipant game userID) ErrForbidden) (\<lambda>_.
     let (opponentHash, opponentSlot) =
       (if userID = game_Player2ID game then (game_Player1Secret game, 1)
        else (game_Player2Secret game, 2)) in
     andThen (ensure (opponentHash \<noteq> '''') ErrBadRequest) (\<lambda>_.
     andThen (lift_result (Verify (uc_Secrets c) opponentHash guessDigits gameID opponentSlot))
       (\<lambda>resultsSlice.
     let results = fill_results resultsSlice in
     andThen now (\<lambda>t.
     andThen (addGameGuess game userID guessDigits results isAuto t) (\<lambda>(row, game).
     andThen (guessRepo_Create row) (\<lambda>_.
     let isWin = IsWin results in
     andThen (if isWin then finishGameService game userID t
              else andThen (gameRepo_Update game) (\<lambda>_. ret game)) (\<lambda>game.
     ret (\<lparr>gr_GuessID = guess_ID row, gr_PlayerID = userID, gr_Turn = guess_Turn row,
           gr_DigitResults = DigitResultsToInts (guess_DigitResults row),
           gr_HitCount = guess_HitCount row, gr_IsWin = isWin, gr_IsAuto = isAuto,
           gr_NextTurnPlayerID = game_CurrentTurnPlayerID game\<rparr>, isWin))))))))))"

definition notifyGuessResult ::
  "GameUseCase \<Rightarrow> uuid \<Rightarrow> guessResultOutput \<Rightarrow> bool \<Rightarrow> uuid \<Rightarrow> unit go" where
  "notifyGuessResult c gameID result finished winnerID =
     andThen (gameRepo_FindByID gameID) (\<lambda>found.
     case found of
       None \<Rightarrow> ret ()
     | Some game \<Rightarrow>
         let players = [game_Player1ID game, game_Player2ID game];
             guessPayload =
               [(''gameId'', JUuid gameID), (''guessId'', JUuid (gr_GuessID result)),
                (''playerId'', JUuid (gr_PlayerID result)),
                (''digitResults'', JArr (map JInt (gr_DigitResults result))),
                (''hitCount'', JInt (gr_HitCount result)), (''isWin'', JBool (gr_IsWin result)),
                (''isAuto'', JBool (gr_IsAuto result)),
                (''nextTurnPlayerID'', player_text (gr_NextTurnPlayerID result))] in
         andThen (forEach players (\<lambda>uid. sendIfNotifier c uid ''GUESS_RESULT'' guessPayload)) (\<lambda>_.
         if finished then
           andThen (case uc_Turns c of Some s \<Rightarrow> ignoreErr (DeleteTurn s gameID) | None \<Rightarrow> ret ()) (\<lambda>_.
           andThen now (\<lambda>t.
           andThen (recordGameOverActivityLog gameID ''guess_win'' (Some winnerID) t) (\<lambda>_.
           forEach players (\<lambda>uid. sendIfNotifier c uid ''GAME_OVER''
             [(''gameId'', JUuid gameID), (''reason'', JStr ''guess_win''),
              (''winnerId'', JUuid winnerID)]))))
         else
           andThen (case uc_Turns c of None \<Rightarrow> ret () | Some s \<Rightarrow>
               (case game_CurrentTurnPlayerID game of None \<Rightarrow> ret () | Some p \<Rightarrow>
                 andThen now (\<lambda>t.
                 SetTurn s gameID (game_CurrentTurn game) p t (t + uc_TurnDuration c)))) (\<lambda>_.
           notifyTurnChanged c game)))"

definition SubmitGuess :: "GameUseCase \<Rightarrow> uuid \<Rightarrow> uuid \<Rightarrow> string \<Rightarrow> bool \<Rightarrow> unit go" where
  "SubmitGuess c userID gameID guess isAuto =
     andThen (if isAuto then ret () else gameLock c (GuessLockKey gameID userID)) (\<lambda>_.
     andThen (lift_result (ValidateFourDigits guess)) (\<lambda>guessDigits.
     andThen (ensureGamePlayer userID) (\<lambda>_.
     andThen (WithTx (submitGuessTx c userID gameID guessDigits isAuto)) (\<lambda>(result, finished).
     andThen now (\<lambda>t.
     andThen (recordGuessActivityLog gameID userID (gr_Turn result) (gr_HitCount result)
        (gr_IsWin result) isAuto t) (\<lambda>_.
     notifyGuessResult c gameID result finished (if finished then userID else uuid_nil)))))))"

end
