(* ===== verification/GameInv.thy ===== *)
theory GameInv
  imports Game
begin

text \<open>
  The invariant of the database under the duels: what the rows of games, guesses, users and match
  histories have to do with one another, and that the two transactions of the game use case keep
  it, in whatever state they start.
\<close>

subsection \<open>The invariant\<close>

definition game_guesses :: "db \<Rightarrow> game \<Rightarrow> guess list" where
  "game_guesses d g = filter (\<lambda>r. guess_GameID r = game_ID g) (db_guesses d)"

text \<open>A stored secret is the hash of four different digits.\<close>

definition secret_hashed :: "hasher \<Rightarrow> uuid \<Rightarrow> int \<Rightarrow> string \<Rightarrow> bool" where
  "secret_hashed h gid slot s \<longleftrightarrow>
     (s \<noteq> '''' \<longrightarrow> (\<exists>ds. four_distinct_digits ds \<and> Hash h ds gid slot = Inr s))"

definition secrets_ok :: "hasher \<Rightarrow> game \<Rightarrow> bool" where
  "secrets_ok h g \<longleftrightarrow> secret_hashed h (game_ID g) 1 (game_Player1Secret g) \<and>
     secret_hashed h (game_ID g) 2 (game_Player2Secret g)"

definition opponentSecret :: "game \<Rightarrow> uuid \<Rightarrow> string \<times> int" where
  "opponentSecret g u =
     (if u = game_Player2ID g then (game_Player1Secret g, 1) else (game_Player2Secret g, 2))"

text \<open>
  A guess was made by the player of its turn, its results are those of the opponent's secret, and
  it is right exactly when it is the last guess of a game somebody won.
\<close>

definition guess_ok :: "hasher \<Rightarrow> game \<Rightarrow> guess \<Rightarrow> bool" where
  "guess_ok h g r \<longleftrightarrow>
     guess_PlayerID r = turn_player g (guess_Turn r) \<and>
     (\<exists>ds. four_distinct_digits ds \<and> guess_GuessNumber r = format_digits ds \<and>
        Verify h (fst (opponentSecret g (guess_PlayerID r))) ds (game_ID g)
          (snd (opponentSecret g (guess_PlayerID r))) = Inr (guess_DigitResults r)) \<and>
     guess_HitCount r = HitCount (guess_DigitResults r) \<and>
     (IsWin (guess_DigitResults r) \<longleftrightarrow>
        game_WinnerID g \<noteq> None \<and> guess_Turn r = game_CurrentTurn g - 1)"

definition game_log_ok :: "hasher \<Rightarrow> guess list \<Rightarrow> game \<Rightarrow> bool" where
  "game_log_ok h rs g \<longleftrightarrow> game_ok g \<and> secrets_ok h g \<and>
     map guess_Turn rs = [1..game_CurrentTurn g - 1] \<and> (\<forall>r\<in>set rs. guess_ok h g r)"

definition games_inv :: "hasher \<Rightarrow> db \<Rightarrow> bool" where
  "games_inv h d \<longleftrightarrow> distinct (map game_ID (db_games d)) \<and>
     (\<forall>g\<in>set (db_games d). game_log_ok h (game_guesses d g) g) \<and>
     (\<forall>r\<in>set (db_guesses d). guess_GameID r \<in> game_ID ` set (db_games d))"

text \<open>The players of a game have accounts, and no two active games share a player.\<close>

definition players_inv :: "db \<Rightarrow> bool" where
  "players_inv d \<longleftrightarrow> distinct (map user_ID (db_users d)) \<and>
     (\<forall>g\<in>set (db_games d). game_Player1ID g \<in> user_ID ` set (db_users d) \<and>
        game_Player2ID g \<in> user_ID ` set (db_users d))"

definition one_active_inv :: "db \<Rightarrow> bool" where
  "one_active_inv d \<longleftrightarrow>
     (\<forall>g\<in>set (db_games d). \<forall>g'\<in>set (db_games d). \<forall>u.
        active_status (game_Status g) \<longrightarrow> active_status (game_Status g') \<longrightarrow>
        IsParticipant g u \<longrightarrow> IsParticipant g' u \<longrightarrow> game_ID g = game_ID g')"

text \<open>The match histories are the results of the games somebody won, one for each.\<close>

definition other_player :: "game \<Rightarrow> uuid \<Rightarrow> uuid" where
  "other_player g u = (if u = game_Player1ID g then game_Player2ID g else game_Player1ID g)"

definition history_result :: "match_history \<Rightarrow> uuid \<times> uuid \<times> uuid" where
  "history_result h = (history_GameID h, history_WinnerID h, history_LoserID h)"

definition game_result :: "game \<Rightarrow> (uuid \<times> uuid \<times> uuid) set" where
  "game_result g = (case game_WinnerID g of
     None \<Rightarrow> {} | Some u \<Rightarrow> {(game_ID g, u, other_player g u)})"

definition game_results :: "game list \<Rightarrow> (uuid \<times> uuid \<times> uuid) set" where
  "game_results gs = (\<Union>g\<in>set gs. game_result g)"

definition histories_inv :: "db \<Rightarrow> bool" where
  "histories_inv d \<longleftrightarrow> distinct (map history_GameID (db_histories d)) \<and>
     history_result ` set (db_histories d) = game_results (db_games d)"

definition won_by :: "uuid \<Rightarrow> match_history list \<Rightarrow> nat" where
  "won_by u hs = length (filter (\<lambda>h. history_WinnerID h = u) hs)"

definition wins_inv :: "db \<Rightarrow> bool" where
  "wins_inv d \<longleftrightarrow> (\<forall>u\<in>set (db_users d). user_WinCount u = int (won_by (user_ID u) (db_histories d)))"

definition duel_inv :: "hasher \<Rightarrow> db \<Rightarrow> bool" where
  "duel_inv h d \<longleftrightarrow> games_inv h d \<and> players_inv d \<and> one_active_inv d \<and> histories_inv d \<and> wins_inv d"

text \<open>
  The same with another relation \<open>R\<close> between the wins an account counts and the results that name it as
  winner: where calls of different requests interleave, a count may fall behind.
\<close>

definition wins_upto :: "(int \<Rightarrow> int \<Rightarrow> bool) \<Rightarrow> db \<Rightarrow> bool" where
  "wins_upto R d \<longleftrightarrow> (\<forall>u\<in>set (db_users d). R (user_WinCount u) (int (won_by (user_ID u) (db_histories d))))"

definition duels_inv :: "(int \<Rightarrow> int \<Rightarrow> bool) \<Rightarrow> hasher \<Rightarrow> db \<Rightarrow> bool" where
  "duels_inv R h d \<longleftrightarrow> games_inv h d \<and> players_inv d \<and> one_active_inv d \<and> histories_inv d \<and> wins_upto R d"

lemma duel_inv_eq: "duel_inv h d = duels_inv (=) h d"
  by (simp add: duel_inv_def duels_inv_def wins_inv_def wins_upto_def)

lemmas inv_defs = duel_inv_def games_inv_def players_inv_def one_active_inv_def histories_inv_def
  wins_inv_def game_guesses_def

text \<open>They do not speak about the other tables.\<close>

lemma duels_inv_frame [simp]:
  "duels_inv R h (d\<lparr>db_queue := q\<rparr>) = duels_inv R h d"
  "duels_inv R h (d\<lparr>db_rankings := rk\<rparr>) = duels_inv R h d"
  "duels_inv R h (d\<lparr>db_tokens := tk\<rparr>) = duels_inv R h d"
  "duels_inv R h (d\<lparr>db_actlogs := al\<rparr>) = duels_inv R h d"
  "duels_inv R h (d\<lparr>db_loginlogs := ll\<rparr>) = duels_inv R h d"
  "duels_inv R h (d\<lparr>db_wslogs := wl\<rparr>) = duels_inv R h d"
  by (simp_all add: duels_inv_def games_inv_def players_inv_def one_active_inv_def histories_inv_def
      wins_upto_def game_guesses_def)

lemma duel_inv_frame [simp]:
  "duel_inv h (d\<lparr>db_queue := q\<rparr>) = duel_inv h d"
  "duel_inv h (d\<lparr>db_rankings := rk\<rparr>) = duel_inv h d"
  "duel_inv h (d\<lparr>db_tokens := tk\<rparr>) = duel_inv h d"
  "duel_inv h (d\<lparr>db_actlogs := al\<rparr>) = duel_inv h d"
  "duel_inv h (d\<lparr>db_loginlogs := ll\<rparr>) = duel_inv h d"
  "duel_inv h (d\<lparr>db_wslogs := wl\<rparr>) = duel_inv h d"
  by (simp_all add: inv_defs)

subsection \<open>Saving a row\<close>

lemma save_row_twice:
  assumes "pk r' = pk r"
  shows "save_row pk r' (save_row pk r t) = save_row pk r' t"
proof (cases "pk r \<in> pk ` set t")
  case True
  with assms show ?thesis
    by (auto simp: save_row_def image_iff)
next
  case False
  then have "map (\<lambda>x. if pk x = pk r then r' else x) t = t"
    by (induction t) auto
  with False assms show ?thesis
    by (simp add: save_row_def)
qed

lemma set_save_row_present:
  "distinct (map pk t) \<Longrightarrow> r \<in> set t \<Longrightarrow> pk r' = pk r \<Longrightarrow>
   set (save_row pk r' t) = insert r' (set t - {r})"
  by (auto simp: set_save_row dest: distinct_key_eq)

text \<open>A rule that does not touch the guesses, and one that adds a guess.\<close>

lemma guess_ok_same_game:
  assumes "same_game g g'" "game_Player1Secret g' = game_Player1Secret g"
    "game_Player2Secret g' = game_Player2Secret g" "game_WinnerID g' = game_WinnerID g"
    "game_CurrentTurn g' = game_CurrentTurn g"
  shows "guess_ok h g' r = guess_ok h g r"
  using assms by (simp add: guess_ok_def same_game_def turn_player_def opponentSecret_def)

lemma game_guesses_same: "game_ID g' = game_ID g \<Longrightarrow> game_guesses d g' = game_guesses d g"
  by (simp add: game_guesses_def)

lemma games_inv_save:
  assumes inv: "games_inv h d" and g: "g \<in> set (db_games d)" and same: "same_game g g'"
    and rows: "\<forall>r\<in>set rows. guess_GameID r = game_ID g"
    and ok: "game_log_ok h (game_guesses d g @ rows) g'"
  shows "games_inv h (d\<lparr>db_games := save_row game_ID g' (db_games d),
                        db_guesses := db_guesses d @ rows\<rparr>)" (is "games_inv h ?d")
proof -
  from same have id: "game_ID g' = game_ID g" by (simp add: same_game_def)
  from inv have dist: "distinct (map game_ID (db_games d))" by (simp add: games_inv_def)
  note set' = set_save_row_present [OF dist g id]
  have "game_guesses ?d g' = game_guesses d g @ rows"
    using rows by (simp add: game_guesses_def id)
  moreover have "game_guesses ?d x = game_guesses d x" if "x \<in> set (db_games d) - {g}" for x
  proof -
    from that dist g have "game_ID x \<noteq> game_ID g" by (auto dest: distinct_key_eq)
    with rows show ?thesis by (simp add: game_guesses_def filter_empty_conv)
  qed
  ultimately have "\<forall>x\<in>set (db_games ?d). game_log_ok h (game_guesses ?d x) x"
    using ok inv by (auto simp: set' games_inv_def)
  moreover have "game_ID ` set (db_games ?d) = game_ID ` set (db_games d)"
    using g id by (auto simp: set')
  ultimately show ?thesis
    using inv rows g distinct_save_row [OF dist, of g'] by (auto simp: games_inv_def)
qed

lemma players_inv_save:
  assumes "players_inv d" "g \<in> set (db_games d)" "same_game g g'" "distinct (map game_ID (db_games d))"
  shows "players_inv (d\<lparr>db_games := save_row game_ID g' (db_games d)\<rparr>)"
  using assms set_save_row_present [OF assms(4,2), of g']
  by (auto simp: players_inv_def same_game_def)

lemma one_active_inv_save:
  assumes "one_active_inv d" "g \<in> set (db_games d)" "same_game g g'"
    "distinct (map game_ID (db_games d))"
    "active_status (game_Status g') \<Longrightarrow> active_status (game_Status g)"
  shows "one_active_inv (d\<lparr>db_games := save_row game_ID g' (db_games d)\<rparr>)"
proof -
  have "IsParticipant g' u = IsParticipant g u" for u
    using assms(3) by (simp add: IsParticipant_def same_game_def)
  moreover have "game_ID g' = game_ID g" using assms(3) by (simp add: same_game_def)
  ultimately show ?thesis
    using assms(1,2,5) set_save_row_present [OF assms(4,2), of g']
    unfolding one_active_inv_def by simp blast
qed

lemma game_results_save:
  assumes "distinct (map game_ID gs)" "g \<in> set gs" "game_ID g' = game_ID g" "game_WinnerID g = None"
  shows "game_results (save_row game_ID g' gs) = game_result g' \<union> game_results gs"
proof -
  have "game_result g = {}" using assms(4) by (simp add: game_result_def)
  then show ?thesis
    unfolding game_results_def set_save_row_present [OF assms(1-3)] using assms(2) by auto
qed

lemma same_game_result:
  assumes "same_game g g'"
  shows "game_result g' = (case game_WinnerID g' of
     None \<Rightarrow> {} | Some u \<Rightarrow> {(game_ID g, u, other_player g u)})"
  using assms by (simp add: game_result_def same_game_def other_player_def split: option.split)

lemma one_active_inv_cong: "db_games d = db_games d' \<Longrightarrow> one_active_inv d = one_active_inv d'"
  unfolding one_active_inv_def by (rule arg_cong)

text \<open>
  The two ways a rule of the game changes the database: a row of a game and perhaps a guess, or the
  end of a game with its history and the win of its winner.
\<close>

lemma duels_inv_save:
  assumes inv: "duels_inv R h d" and g: "g \<in> set (db_games d)" and same: "same_game g g'"
    and rows: "\<forall>r\<in>set rows. guess_GameID r = game_ID g"
    and log: "game_log_ok h (game_guesses d g @ rows) g'"
    and active: "active_status (game_Status g') \<Longrightarrow> active_status (game_Status g)"
    and noone: "game_WinnerID g = None" "game_WinnerID g' = None"
    and d': "db_games d' = save_row game_ID g' (db_games d)" "db_guesses d' = db_guesses d @ rows"
      "db_users d' = db_users d" "db_histories d' = db_histories d"
  shows "duels_inv R h d'"
proof -
  from inv have parts: "games_inv h d" "players_inv d" "one_active_inv d" "histories_inv d" "wins_upto R d"
    and dist: "distinct (map game_ID (db_games d))"
    by (simp_all add: duels_inv_def games_inv_def)
  from same have id: "game_ID g' = game_ID g" by (simp add: same_game_def)
  have "games_inv h d'" using games_inv_save [OF parts(1) g same rows log]
    by (simp add: games_inv_def game_guesses_def d')
  moreover have "players_inv d'" using players_inv_save [OF parts(2) g same dist]
    by (simp add: players_inv_def d')
  moreover have "one_active_inv d'" 
    using one_active_inv_save [OF parts(3) g same dist active] d'(1)
    by (subst one_active_inv_cong) auto
  moreover have "histories_inv d'" using parts(4) game_results_save [OF dist g id noone(1)]
    by (simp add: histories_inv_def d' game_result_def noone(2))
  moreover have "wins_upto R d'" using parts(5) by (simp add: wins_upto_def d')
  ultimately show ?thesis by (simp add: duels_inv_def)
qed

lemmas duel_inv_save = duels_inv_save [where R = "(=)", folded duel_inv_eq]

text \<open>A win and a result more.\<close>

lemma wins_upto_win:
  assumes wins: "wins_upto R d" and u: "u \<in> set (db_users d)" and dist: "distinct (map user_ID (db_users d))"
    and step: "\<And>a b. R a b \<Longrightarrow> R (a + 1) (b + 1)"
    and d': "db_users d' = save_row user_ID (u\<lparr>user_WinCount := user_WinCount u + 1, user_UpdatedAt := t\<rparr>) (db_users d)"
      "db_histories d' = db_histories d @ [hist]"
    and hist: "history_WinnerID hist = user_ID u"
  shows "wins_upto R d'"
proof -
  let ?u = "u\<lparr>user_WinCount := user_WinCount u + 1, user_UpdatedAt := t\<rparr>"
  have won: "won_by p (db_histories d') = won_by p (db_histories d) + (if p = user_ID u then 1 else 0)" for p
    by (simp add: won_by_def d'(2) hist)
  show ?thesis
    unfolding wins_upto_def
  proof
    fix v assume "v \<in> set (db_users d')"
    then consider "v = ?u" | "v \<in> set (db_users d)" "v \<noteq> u" by (auto simp: d'(1) set_save_row_present [OF dist u])
    then show "R (user_WinCount v) (int (won_by (user_ID v) (db_histories d')))"
    proof cases
      case 1
      have "R (user_WinCount u) (int (won_by (user_ID u) (db_histories d)))"
        using wins u by (simp add: wins_upto_def)
      from step [OF this] show ?thesis by (simp add: 1 won add.commute)
    next
      case 2
      with u dist have "user_ID v \<noteq> user_ID u" by (auto dest: distinct_key_eq)
      with 2 wins show ?thesis by (simp add: won wins_upto_def)
    qed
  qed
qed

lemma duels_inv_win:
  assumes inv: "duels_inv R h d" and g: "g \<in> set (db_games d)" and same: "same_game g g'"
    and rows: "\<forall>r\<in>set rows. guess_GameID r = game_ID g"
    and log: "game_log_ok h (game_guesses d g @ rows) g'"
    and active: "active_status (game_Status g)"
    and winner: "game_WinnerID g = None" "game_WinnerID g' = Some (user_ID u)"
    and fresh: "history_GameID hist \<notin> history_GameID ` set (db_histories d)"
    and hist: "history_result hist = (game_ID g, user_ID u, other_player g (user_ID u))"
    and u: "u \<in> set (db_users d)"
    and d': "db_games d' = save_row game_ID g' (db_games d)" "db_guesses d' = db_guesses d @ rows"
      "db_users d' = save_row user_ID (u\<lparr>user_WinCount := user_WinCount u + 1, user_UpdatedAt := t\<rparr>)
         (db_users d)"
      "db_histories d' = db_histories d @ [hist]"
    and step: "\<And>a b. R a b \<Longrightarrow> R (a + 1) (b + 1)"
  shows "duels_inv R h d'"
proof -
  let ?u = "u\<lparr>user_WinCount := user_WinCount u + 1, user_UpdatedAt := t\<rparr>"
  from inv have parts: "games_inv h d" "players_inv d" "one_active_inv d" "histories_inv d" "wins_upto R d"
    and dist: "distinct (map game_ID (db_games d))" "distinct (map user_ID (db_users d))"
    by (simp_all add: duels_inv_def games_inv_def players_inv_def)
  from same have id: "game_ID g' = game_ID g" by (simp add: same_game_def)
  have users: "set (db_users d') = insert ?u (set (db_users d) - {u})"
    unfolding d' by (rule set_save_row_present [OF dist(2) u]) simp
  have "map user_ID (db_users d') = map user_ID (db_users d)"
    unfolding d' using u by (intro keys_save_row_present) (auto simp: image_iff)
  then have ids: "distinct (map user_ID (db_users d'))" "user_ID ` set (db_users d') = user_ID ` set (db_users d)"
    using dist(2) by (simp, metis set_map)
  have "games_inv h d'" using games_inv_save [OF parts(1) g same rows log]
    by (simp add: games_inv_def game_guesses_def d')
  moreover have "players_inv d'"
    using players_inv_save [OF parts(2) g same dist(1)] ids by (simp add: players_inv_def d'(1))
  moreover have "one_active_inv d'"
    using one_active_inv_save [OF parts(3) g same dist(1)] active d'(1)
    by (subst one_active_inv_cong) auto
  moreover have "histories_inv d'"
    using parts(4) game_results_save [OF dist(1) g id winner(1)] fresh hist
    by (simp add: histories_inv_def d' same_game_result [OF same] winner(2))
  moreover have "history_WinnerID hist = user_ID u" using hist by (simp add: history_result_def)
  then have "wins_upto R d'" by (intro wins_upto_win [OF parts(5) u dist(2) step]) (simp_all add: d'(3,4))
  ultimately show ?thesis by (simp add: duels_inv_def)
qed

subsection \<open>Setting a secret\<close>

lemma gameRepo_Update_success [success_iff]:
  "gameRepo_Update g w = (Inr x, w') \<longleftrightarrow>
     \<not> w_faults w (w_nio w) \<and> (w_dialect w = Postgres \<longrightarrow> game_fits g) \<and>
     w' = w\<lparr>w_nio := Suc (w_nio w),
            w_db := (w_db w)\<lparr>db_games := save_row game_ID g (db_games (w_db w))\<rparr>\<rparr>"
  by (auto simp: gameRepo_Update_def dbExec_success)

text \<open>What a transaction that succeeds has read and written.\<close>

definition secret_step :: "GameUseCase \<Rightarrow> uuid \<Rightarrow> int list \<Rightarrow> bool \<Rightarrow> game \<Rightarrow> game \<Rightarrow> bool" where
  "secret_step c u ds started g g' \<longleftrightarrow>
     IsParticipant g u \<and> game_Status g = GameStatusWaitingSecret \<and>
     (\<exists>hash g1 t. Hash (uc_Secrets c) ds (game_ID g) (if u = game_Player2ID g then 2 else 1) = Inr hash \<and>
        setGameSecretHash g u hash = Inr g1 \<and> started = BothSecretsSet g1 \<and>
        (if started then \<exists>t2. startGame (g1\<lparr>game_UpdatedAt := t\<rparr>) t2 = Inr g'
         else g' = g1\<lparr>game_UpdatedAt := t\<rparr>))"

lemma secretAllowed_Inr: "secretAllowed s = Inr x \<longleftrightarrow> s = GameStatusWaitingSecret"
  by (simp add: secretAllowed_def)

lemma setSecretTx_success:
  assumes "setSecretTx c u gid ds w = (Inr started, w')"
  obtains g g' where "first_row game_ID (\<lambda>g. game_ID g = gid) (db_games (w_db w)) = Some g"
    "g \<in> set (db_games (w_db w))" "game_ID g = gid" "secret_step c u ds started g g'"
    "w_db w' = (w_db w)\<lparr>db_games := save_row game_ID g' (db_games (w_db w))\<rparr>"
proof -
  let ?d = "w_db w"
  from assms obtain g hash g1 t where
      found: "first_row game_ID (\<lambda>g. game_ID g = gid) (db_games ?d) = Some g"
    and pre: "IsParticipant g u" "game_Status g = GameStatusWaitingSecret"
      "Hash (uc_Secrets c) ds gid (if u = game_Player2ID g then 2 else 1) = Inr hash"
      "setGameSecretHash g u hash = Inr g1"
    and rest: "\<not> started \<and> \<not> BothSecretsSet g1 \<and>
        w_db w' = ?d\<lparr>db_games := save_row game_ID (g1\<lparr>game_UpdatedAt := t\<rparr>) (db_games ?d)\<rparr> \<or>
      started \<and> BothSecretsSet g1 \<and> (\<exists>t2 g'. startGame (g1\<lparr>game_UpdatedAt := t\<rparr>) t2 = Inr g' \<and>
        w_db w' = ?d\<lparr>db_games := save_row game_ID g'
          (save_row game_ID (g1\<lparr>game_UpdatedAt := t\<rparr>) (db_games ?d))\<rparr>)"
    unfolding setSecretTx_def startGameInTx_def Let_def
    by (fastforce simp: success_iff find_defs secretAllowed_Inr split: if_splits)
  from first_row_Some [OF found] have g: "g \<in> set (db_games ?d)" "game_ID g = gid" by simp_all
  from rest show thesis
  proof (elim disjE conjE exE)
    assume "\<not> started" "\<not> BothSecretsSet g1"
      "w_db w' = ?d\<lparr>db_games := save_row game_ID (g1\<lparr>game_UpdatedAt := t\<rparr>) (db_games ?d)\<rparr>"
    then show thesis using pre g found by (intro that) (auto simp: secret_step_def)
  next
    fix t2 g'
    assume A: "started" "BothSecretsSet g1" "startGame (g1\<lparr>game_UpdatedAt := t\<rparr>) t2 = Inr g'"
      "w_db w' = ?d\<lparr>db_games := save_row game_ID g'
          (save_row game_ID (g1\<lparr>game_UpdatedAt := t\<rparr>) (db_games ?d))\<rparr>"
    then have "game_ID g' = game_ID (g1\<lparr>game_UpdatedAt := t\<rparr>)" by (auto simp: startGame_Inr)
    then show thesis using A pre g found
      by (intro that [of g g']) (auto simp: secret_step_def save_row_twice)
  qed
qed

lemma secret_step_same: "secret_step c u ds started g g' \<Longrightarrow> same_game g g'"
  by (auto simp: secret_step_def startGame_Inr same_game_def split: if_splits
      elim!: setGameSecretHash_cases)

lemma secret_step_ok:
  assumes step: "secret_step c u ds started g g'" and ok: "game_ok g" "secrets_ok (uc_Secrets c) g"
    and ds: "four_distinct_digits ds"
  shows "game_ok g'" "secrets_ok (uc_Secrets c) g'" "game_CurrentTurn g' = 1" "game_WinnerID g' = None"
    "game_Status g' = (if started then GameStatusInProgress else GameStatusWaitingSecret)"
proof -
  from step obtain hash g1 t where status: "game_Status g = GameStatusWaitingSecret"
    and hash: "Hash (uc_Secrets c) ds (game_ID g) (if u = game_Player2ID g then 2 else 1) = Inr hash"
    and g1: "setGameSecretHash g u hash = Inr g1" "started = BothSecretsSet g1"
    and g': "if started then \<exists>t2. startGame (g1\<lparr>game_UpdatedAt := t\<rparr>) t2 = Inr g'
         else g' = g1\<lparr>game_UpdatedAt := t\<rparr>"
    unfolding secret_step_def by blast
  from ok(1) status have waiting: "game_CurrentTurn g = 1" "game_WinnerID g = None"
    "game_Player1ID g \<noteq> game_Player2ID g"
    by (simp_all add: game_ok_waiting waiting_ok_def)
  have same: "game_ID g1 = game_ID g" "game_CurrentTurn g1 = 1" "game_WinnerID g1 = None"
    "game_Status g1 = GameStatusWaitingSecret"
    using g1(1) waiting status by (auto elim!: setGameSecretHash_cases)
  have "secrets_ok (uc_Secrets c) g1"
    using g1(1) ok(2) ds hash waiting(3)
    by (auto simp: secrets_ok_def secret_hashed_def elim!: setGameSecretHash_cases)
  with g' same show "secrets_ok (uc_Secrets c) g'" "game_CurrentTurn g' = 1" "game_WinnerID g' = None"
    "game_Status g' = (if started then GameStatusInProgress else GameStatusWaitingSecret)"
    by (auto simp: secrets_ok_def startGame_Inr split: if_splits)
  show "game_ok g'"
  proof (cases started)
    case True
    with g' setGameSecretHash_start_ok [OF g1(1) ok(1)] show ?thesis by auto
  next
    case False
    with g' g1(2) setGameSecretHash_ok [OF g1(1) ok(1) status] show ?thesis by auto
  qed
qed

lemma duels_inv_setSecretTx:
  assumes inv: "duels_inv R (uc_Secrets c) (w_db w)" and ds: "four_distinct_digits ds"
    and run: "setSecretTx c u gid ds w = (Inr started, w')"
  shows "duels_inv R (uc_Secrets c) (w_db w')"
  using run
proof (cases rule: setSecretTx_success)
  case (1 g g')
  from inv 1(2) have log: "game_log_ok (uc_Secrets c) (game_guesses (w_db w) g) g"
    by (simp add: duels_inv_def games_inv_def)
  then have ok: "game_ok g" "secrets_ok (uc_Secrets c) g" by (simp_all add: game_log_ok_def)
  note ok' = secret_step_ok [OF 1(4) ok ds]
  have status: "game_Status g = GameStatusWaitingSecret" using 1(4) by (simp add: secret_step_def)
  with ok(1) have g: "game_CurrentTurn g = 1" "game_WinnerID g = None"
    by (simp_all add: game_ok_waiting waiting_ok_def)
  with log have "game_guesses (w_db w) g = []" by (simp add: game_log_ok_def)
  with ok' have "game_log_ok (uc_Secrets c) (game_guesses (w_db w) g @ []) g'"
    by (simp add: game_log_ok_def)
  then show ?thesis
    by (intro duels_inv_save [OF inv 1(2) secret_step_same [OF 1(4)], of "[]"])
      (simp_all add: 1(5) g ok' status)
qed

lemmas duel_inv_setSecretTx = duels_inv_setSecretTx [where R = "(=)", folded duel_inv_eq]

subsection \<open>A guess\<close>

lemma addGameGuess_db:
  "addGameGuess g u ds rs auto t w = (Inr (row, g'), w') \<Longrightarrow>
     w_db w' = w_db w \<and> w_dialect w' = w_dialect w"
  by (auto simp: addGameGuess_success)

lemma userRepo_Update_success [success_iff]:
  "userRepo_Update u w = (Inr x, w') \<longleftrightarrow>
     \<not> w_faults w (w_nio w) \<and> (w_dialect w = Postgres \<longrightarrow> user_fits u) \<and>
     w' = w\<lparr>w_nio := Suc (w_nio w),
            w_db := (w_db w)\<lparr>db_users := save_row user_ID u (db_users (w_db w))\<rparr>\<rparr>"
  by (auto simp: userRepo_Update_def dbExec_success)

lemma guessRepo_Create_success [success_iff]:
  "guessRepo_Create r w = (Inr x, w') \<longleftrightarrow>
     \<not> w_faults w (w_nio w) \<and> (\<forall>y\<in>set (db_guesses (w_db w)). \<not> guess_conflict y r) \<and>
     (w_dialect w = Postgres \<longrightarrow> guess_fits r) \<and>
     w' = w\<lparr>w_nio := Suc (w_nio w),
            w_db := (w_db w)\<lparr>db_guesses := db_guesses (w_db w) @ [r]\<rparr>\<rparr>"
  by (auto simp: guessRepo_Create_def dbExec_success insert_row_def split: if_splits)

lemma matchHistoryRepo_Create_success [success_iff]:
  "matchHistoryRepo_Create h w = (Inr x, w') \<longleftrightarrow>
     \<not> w_faults w (w_nio w) \<and>
     (\<forall>y\<in>set (db_histories (w_db w)). history_ID y \<noteq> history_ID h \<and> history_GameID y \<noteq> history_GameID h) \<and>
     (w_dialect w = Postgres \<longrightarrow> history_fits h) \<and>
     w' = w\<lparr>w_nio := Suc (w_nio w),
            w_db := (w_db w)\<lparr>db_histories := db_histories (w_db w) @ [h]\<rparr>\<rparr>"
  by (auto simp: matchHistoryRepo_Create_def dbExec_success insert_row_def split: if_splits)

lemma fill_results_id: "length rs = 4 \<Longrightarrow> fill_results rs = rs"
  by (simp add: fill_results_def)

lemma finishGameService_success:
  assumes run: "finishGameService g u t w = (Inr g', w')"
    and users: "\<forall>p. IsParticipant g p \<longrightarrow> p \<in> user_ID ` set (db_users (w_db w))"
  obtains x y hist where "IsParticipant g u" "x \<in> set (db_users (w_db w))" "user_ID x = u"
    "finishGame g u t = Inr g'"
    "y \<in> set (db_users (w_db w))" "user_ID y = other_player g u"
    "history_result hist = (game_ID g, u, other_player g u)"
    "history_WinnerUsername hist = user_Username x" "history_LoserUsername hist = user_Username y"
    "history_GameID hist \<notin> history_GameID ` set (db_histories (w_db w))"
    "w_db w' = (w_db w)\<lparr>db_games := save_row game_ID g' (db_games (w_db w)),
       db_histories := db_histories (w_db w) @ [hist],
       db_users := save_row user_ID (x\<lparr>user_WinCount := user_WinCount x + 1, user_UpdatedAt := t\<rparr>)
         (db_users (w_db w))\<rparr>"
proof -
  let ?d = "w_db w" and ?find = "\<lambda>i d. first_row user_ID (\<lambda>x. user_ID x = i) (db_users d)"
  have found: "?find p ?d \<noteq> None" if "IsParticipant g p" for p
    using users that by (auto simp: first_row_None)
  from run obtain loser where loser: "gameOpponentID g u = Inr loser"
    by (auto simp: finishGameService_def success_iff split: if_splits)
  then have part: "IsParticipant g u" "loser = other_player g u" "IsParticipant g loser"
    by (auto simp: gameOpponentID_def IsParticipant_def other_player_def split: if_splits)
  from found [OF part(1)] found [OF part(3)] obtain x y where
    xy: "?find u ?d = Some x" "?find loser ?d = Some y" by auto
  from first_row_Some [OF xy(1)] first_row_Some [OF xy(2)]
  have rows: "x \<in> set (db_users ?d)" "user_ID x = u" "y \<in> set (db_users ?d)" "user_ID y = loser"
    by simp_all
  from run loser xy obtain hid where
    fin: "finishGame g u t = Inr g'" and
    hist: "\<forall>h\<in>set (db_histories ?d). history_GameID h \<noteq> game_ID g'" and
    db: "w_db w' = ?d\<lparr>db_games := save_row game_ID g' (db_games ?d),
       db_histories := db_histories ?d @ [\<lparr>history_ID = hid, history_GameID = game_ID g',
         history_WinnerID = u, history_LoserID = loser, history_WinnerUsername = user_Username x,
         history_LoserUsername = user_Username y, history_FinishedAt = t, history_CreatedAt = t,
         history_UpdatedAt = t\<rparr>],
       db_users := save_row user_ID (x\<lparr>user_WinCount := user_WinCount x + 1, user_UpdatedAt := t\<rparr>)
         (db_users ?d)\<rparr>"
    by (auto simp: finishGameService_def incrementUserWinCount_def success_iff find_defs
        split: if_splits)
  have "game_ID g' = game_ID g" using fin by (auto simp: finishGame_Inr)
  with part(1) rows fin hist db part(2) show thesis
    by (intro that) (auto simp: history_result_def)
qed

definition guess_step ::
  "GameUseCase \<Rightarrow> uuid \<Rightarrow> int list \<Rightarrow> bool \<Rightarrow> time \<Rightarrow> game \<Rightarrow> guess \<Rightarrow> game \<Rightarrow> bool" where
  "guess_step c u ds isAuto t g row g1 \<longleftrightarrow>
     fst (opponentSecret g u) \<noteq> '''' \<and>
     Verify (uc_Secrets c) (fst (opponentSecret g u)) ds (game_ID g) (snd (opponentSecret g u)) =
       Inr (guess_DigitResults row) \<and>
     (\<exists>w w1. addGameGuess g u ds (guess_DigitResults row) isAuto t w = (Inr (row, g1), w1))"

lemma submitGuessTx_eq:
  "submitGuessTx c userID gameID guessDigits isAuto =
     andThen (gameRepo_FindByIDForUpdate gameID) (\<lambda>found.
     andThen (require found ErrNotFound) (\<lambda>game.
     andThen (ensure (IsParticipant game userID) ErrForbidden) (\<lambda>_.
     andThen (ensure (fst (opponentSecret game userID) \<noteq> '''') ErrBadRequest) (\<lambda>_.
     andThen (lift_result (Verify (uc_Secrets c) (fst (opponentSecret game userID)) guessDigits gameID
       (snd (opponentSecret game userID)))) (\<lambda>rs.
     andThen now (\<lambda>t.
     andThen (addGameGuess game userID guessDigits (fill_results rs) isAuto t) (\<lambda>(row, game).
     andThen (guessRepo_Create row) (\<lambda>_.
     andThen (if IsWin (fill_results rs) then finishGameService game userID t
              else andThen (gameRepo_Update game) (\<lambda>_. ret game)) (\<lambda>game.
     ret (\<lparr>gr_GuessID = guess_ID row, gr_PlayerID = userID, gr_Turn = guess_Turn row,
           gr_DigitResults = DigitResultsToInts (guess_DigitResults row),
           gr_HitCount = guess_HitCount row, gr_IsWin = IsWin (fill_results rs), gr_IsAuto = isAuto,
           gr_NextTurnPlayerID = game_CurrentTurnPlayerID game\<rparr>, IsWin (fill_results rs)))))))))))"
  unfolding submitGuessTx_def Let_def opponentSecret_def split_def ..

lemma submitGuessTx_parts:
  assumes "submitGuessTx c u gid ds isAuto w = (Inr (result, finished), w')"
  shows "\<exists>g rs t w1 w2 row g1 w4 g5. first_row game_ID (\<lambda>g. game_ID g = gid) (db_games (w_db w)) = Some g \<and>
     fst (opponentSecret g u) \<noteq> '''' \<and>
     Verify (uc_Secrets c) (fst (opponentSecret g u)) ds gid (snd (opponentSecret g u)) = Inr rs \<and>
     addGameGuess g u ds (fill_results rs) isAuto t w1 = (Inr (row, g1), w2) \<and> w_db w1 = w_db w \<and>
     (if IsWin (fill_results rs) then finishGameService g1 u t
         else andThen (gameRepo_Update g1) (\<lambda>_. ret g1)) w4 = (Inr g5, w') \<and>
     w_db w4 = (w_db w2)\<lparr>db_guesses := db_guesses (w_db w2) @ [row]\<rparr> \<and>
     finished = IsWin (fill_results rs) \<and> gr_IsWin result = finished \<and>
       gr_Turn result = guess_Turn row \<and> gr_HitCount result = guess_HitCount row \<and>
       gr_DigitResults result = DigitResultsToInts (guess_DigitResults row)"
  using assms unfolding submitGuessTx_eq
  apply (simp only: success_iff find_defs)
  apply clarify
  apply (simp only: success_iff find_defs prod.case)
  apply clarify
  apply (intro exI conjI)
  apply (assumption | simp)+
  done
lemma submitGuessTx_success:
  assumes "submitGuessTx c u gid ds isAuto w = (Inr (result, finished), w')"
  obtains g row g1 t where "first_row game_ID (\<lambda>g. game_ID g = gid) (db_games (w_db w)) = Some g"
    "g \<in> set (db_games (w_db w))" "game_ID g = gid" "guess_step c u ds isAuto t g row g1"
    "finished = IsWin (guess_DigitResults row)" "gr_IsWin result = finished"
    "gr_Turn result = guess_Turn row" "gr_HitCount result = guess_HitCount row"
    "gr_DigitResults result = guess_DigitResults row"
    "if finished
     then \<exists>g' w1. finishGameService g1 u t w1 = (Inr g', w') \<and>
       w_db w1 = (w_db w)\<lparr>db_guesses := db_guesses (w_db w) @ [row]\<rparr>
     else w_db w' = (w_db w)\<lparr>db_guesses := db_guesses (w_db w) @ [row],
       db_games := save_row game_ID g1 (db_games (w_db w))\<rparr>"
proof -
  let ?d = "w_db w"
  from submitGuessTx_parts [OF assms] obtain g rs t w1 w2 row g1 w4 g5 where
      found: "first_row game_ID (\<lambda>g. game_ID g = gid) (db_games ?d) = Some g"
    and secret: "fst (opponentSecret g u) \<noteq> []"
    and verify: "Verify (uc_Secrets c) (fst (opponentSecret g u)) ds gid (snd (opponentSecret g u)) = Inr rs"
    and add: "addGameGuess g u ds (fill_results rs) isAuto t w1 = (Inr (row, g1), w2)" "w_db w1 = ?d"
    and rest: "(if IsWin (fill_results rs) then finishGameService g1 u t
         else andThen (gameRepo_Update g1) (\<lambda>_. ret g1)) w4 = (Inr g5, w')"
    and fin: "w_db w4 = (w_db w2)\<lparr>db_guesses := db_guesses (w_db w2) @ [row]\<rparr>"
      "finished = IsWin (fill_results rs)" "gr_IsWin result = finished"
      "gr_Turn result = guess_Turn row" "gr_HitCount result = guess_HitCount row"
      "gr_DigitResults result = DigitResultsToInts (guess_DigitResults row)"
    by blast
  from first_row_Some [OF found] have g: "g \<in> set (db_games ?d)" "game_ID g = gid" by simp_all
  have rs: "fill_results rs = rs" using Verify_length [OF verify] by (rule fill_results_id)
  have row: "guess_DigitResults row = rs" using add(1) by (auto simp: addGameGuess_success rs)
  have w2: "w_db w2 = ?d" using addGameGuess_db [OF add(1)] add(2) by simp
  show thesis
  proof (rule that [OF found g, of t row g1])
    show "guess_step c u ds isAuto t g row g1"
      unfolding guess_step_def row g(2) using secret verify add(1) rs by auto
    show "if finished
     then \<exists>g' w1. finishGameService g1 u t w1 = (Inr g', w') \<and>
       w_db w1 = ?d\<lparr>db_guesses := db_guesses ?d @ [row]\<rparr>
     else w_db w' = ?d\<lparr>db_guesses := db_guesses ?d @ [row],
       db_games := save_row game_ID g1 (db_games ?d)\<rparr>"
      using rest fin(1) by (cases finished) (fastforce simp: fin(2) w2, simp add: fin(2) w2 success_iff)
  qed (use fin in \<open>simp_all add: row rs DigitResultsToInts_def\<close>)
qed

text \<open>What a guess does to the log of its game.\<close>

lemma guess_ok_later:
  assumes "guess_ok h g r" "same_game g g'" "game_Player1Secret g' = game_Player1Secret g"
    "game_Player2Secret g' = game_Player2Secret g" "game_WinnerID g = None"
    "game_WinnerID g' = None \<or> guess_Turn r \<noteq> game_CurrentTurn g' - 1"
  shows "guess_ok h g' r"
  using assms by (auto simp: guess_ok_def same_game_def turn_player_def opponentSecret_def)

lemma guess_step_facts:
  assumes step: "guess_step c u ds isAuto t g row g1" and ok: "game_ok g"
  shows "game_Status g = GameStatusInProgress" "u = turn_player g (game_CurrentTurn g)"
    "game_WinnerID g = None" "1 \<le> game_CurrentTurn g" "game_ok g1" "same_game g g1"
    "game_Status g1 = GameStatusInProgress" "game_WinnerID g1 = None"
    "game_CurrentTurn g1 = game_CurrentTurn g + 1"
    "game_Player1Secret g1 = game_Player1Secret g" "game_Player2Secret g1 = game_Player2Secret g"
    "guess_GameID row = game_ID g" "guess_PlayerID row = u" "guess_Turn row = game_CurrentTurn g"
    "guess_GuessNumber row = format_digits ds" "guess_HitCount row = HitCount (guess_DigitResults row)"
    "guess_IsAuto row = isAuto"
proof -
  from step obtain w w1 where add: "addGameGuess g u ds (guess_DigitResults row) isAuto t w = (Inr (row, g1), w1)"
    unfolding guess_step_def by blast
  show status: "game_Status g = GameStatusInProgress" and u: "u = turn_player g (game_CurrentTurn g)"
    using add addGameGuess_ok(3) [OF add ok] by (simp_all add: addGameGuess_success)
  show "game_WinnerID g = None" "1 \<le> game_CurrentTurn g"
    using ok by (simp_all add: game_ok_running status running_ok_def)
  then show "game_ok g1" "same_game g g1" "game_Status g1 = GameStatusInProgress" "game_WinnerID g1 = None"
    "game_CurrentTurn g1 = game_CurrentTurn g + 1"
    "game_Player1Secret g1 = game_Player1Secret g" "game_Player2Secret g1 = game_Player2Secret g"
    using addGameGuess_ok(1,2) [OF add ok] same_game_rules(3) [OF add]
    using add [unfolded addGameGuess_success] by auto
  from add obtain i where "row = \<lparr>guess_ID = i, guess_GameID = game_ID g, guess_PlayerID = u,
              guess_Turn = game_CurrentTurn g, guess_GuessNumber = format_digits ds,
              guess_DigitResults = guess_DigitResults row, guess_HitCount = HitCount (guess_DigitResults row),
              guess_IsAuto = isAuto, guess_CreatedAt = t, guess_UpdatedAt = t\<rparr>"
    by (auto simp: addGameGuess_success)
  then show "guess_GameID row = game_ID g" "guess_PlayerID row = u"
    "guess_Turn row = game_CurrentTurn g" "guess_GuessNumber row = format_digits ds"
    "guess_HitCount row = HitCount (guess_DigitResults row)" "guess_IsAuto row = isAuto"
    by (metis guess.select_convs)+
qed

lemma guess_step_log:
  assumes step: "guess_step c u ds isAuto t g row g1" and log: "game_log_ok (uc_Secrets c) rs g"
    and ds: "four_distinct_digits ds"
    and g': "if IsWin (guess_DigitResults row) then finishGame g1 u t = Inr g' else g' = g1"
  shows "game_log_ok (uc_Secrets c) (rs @ [row]) g'"
proof -
  from log have ok: "game_ok g" "secrets_ok (uc_Secrets c) g"
    and turns: "map guess_Turn rs = [1..game_CurrentTurn g - 1]"
    and rs: "\<And>r. r \<in> set rs \<Longrightarrow> guess_ok (uc_Secrets c) g r"
    by (simp_all add: game_log_ok_def)
  note f = guess_step_facts [OF step ok(1)]
  from step obtain w w1 where add: "addGameGuess g u ds (guess_DigitResults row) isAuto t w = (Inr (row, g1), w1)"
    unfolding guess_step_def by blast
  have g'_eq: "game_CurrentTurn g' = game_CurrentTurn g + 1"
    "game_Player1Secret g' = game_Player1Secret g" "game_Player2Secret g' = game_Player2Secret g"
    "game_WinnerID g' = (if IsWin (guess_DigitResults row) then Some u else None)" "same_game g g'"
    using g' f(6-11) by (auto simp: finishGame_Inr same_game_def split: if_splits)
  have "game_ok g'"
    using g' f(5) finishGame_ok [OF add ok(1)] by (auto split: if_splits)
  moreover have "secrets_ok (uc_Secrets c) g'"
    using ok(2) g'_eq by (simp add: secrets_ok_def same_game_def)
  moreover have "map guess_Turn (rs @ [row]) = [1..game_CurrentTurn g' - 1]"
    using f(4) by (simp add: turns f(14) g'_eq upto_rec2 [of 1 "game_CurrentTurn g"])
  moreover have "guess_ok (uc_Secrets c) g' r" if r: "r \<in> set rs" for r
  proof (rule guess_ok_later [OF rs [OF r] g'_eq(5,2,3) f(3)])
    from r have "guess_Turn r \<in> set (map guess_Turn rs)" by simp
    then show "game_WinnerID g' = None \<or> guess_Turn r \<noteq> game_CurrentTurn g' - 1"
      by (simp only: turns) (simp add: g'_eq)
  qed
  moreover have "guess_ok (uc_Secrets c) g' row"
  proof -
    have "opponentSecret g' u = opponentSecret g u" "turn_player g' n = turn_player g n" for n
      using g'_eq by (simp_all add: opponentSecret_def turn_player_def same_game_def)
    with step ds g'_eq f(2,12-16) show ?thesis
      unfolding guess_ok_def guess_step_def by (auto simp: same_game_def)
  qed
  ultimately show ?thesis by (auto simp: game_log_ok_def)
qed

lemma duels_inv_submitGuessTx:
  assumes inv: "duels_inv R (uc_Secrets c) (w_db w)" and ds: "four_distinct_digits ds"
    and run: "submitGuessTx c u gid ds isAuto w = (Inr (result, finished), w')"
    and step: "\<And>a b. R a b \<Longrightarrow> R (a + 1) (b + 1)"
  shows "duels_inv R (uc_Secrets c) (w_db w')"
  using run
proof (cases rule: submitGuessTx_success)
  case (1 g row g1 t)
  let ?d = "w_db w"
  from inv 1(2) have log: "game_log_ok (uc_Secrets c) (game_guesses ?d g) g"
    and part: "\<forall>p. IsParticipant g p \<longrightarrow> p \<in> user_ID ` set (db_users ?d)"
    by (auto simp: duels_inv_def games_inv_def players_inv_def IsParticipant_def)
  then have ok: "game_ok g" by (simp add: game_log_ok_def)
  note f = guess_step_facts [OF 1(4) ok]
  note log' = guess_step_log [OF 1(4) log ds]
  show ?thesis
  proof (cases finished)
    case False
    with 1(5,10) have db: "w_db w' = ?d\<lparr>db_guesses := db_guesses ?d @ [row],
        db_games := save_row game_ID g1 (db_games ?d)\<rparr>" and lose: "\<not> IsWin (guess_DigitResults row)"
      by simp_all
    show ?thesis
      by (rule duels_inv_save [OF inv 1(2) f(6), of "[row]"])
        (use f log' [of g1] lose in \<open>simp_all add: db\<close>)
  next
    case True
    with 1(5,10) obtain g' w1 where fin: "finishGameService g1 u t w1 = (Inr g', w')"
      and w1: "w_db w1 = ?d\<lparr>db_guesses := db_guesses ?d @ [row]\<rparr>"
      and win: "IsWin (guess_DigitResults row)" by auto
    have part1: "\<forall>p. IsParticipant g1 p \<longrightarrow> p \<in> user_ID ` set (db_users (w_db w1))"
      using part f(6) by (simp add: w1 IsParticipant_def same_game_def)
    from fin part1 show ?thesis
    proof (cases rule: finishGameService_success)
      case (1 x y hist)
      have g': "game_WinnerID g' = Some u" "same_game g1 g'" "game_ID g' = game_ID g"
        using 1(4) f(6) by (auto simp: finishGame_Inr same_game_def)
      then have same: "same_game g g'" using f(6) by (simp add: same_game_def)
      have other: "game_ID g1 = game_ID g" "other_player g1 u = other_player g u"
        using f(6) by (simp_all add: same_game_def other_player_def)
      show ?thesis
        by (rule duels_inv_win [OF inv \<open>g \<in> set (db_games ?d)\<close> same, of "[row]" x hist _ t])
          (use step 1 f log' [of g'] win g' other in \<open>simp_all add: w1\<close>)
    qed
  qed
qed

lemma duel_inv_submitGuessTx:
  "duel_inv (uc_Secrets c) (w_db w) \<Longrightarrow> four_distinct_digits ds \<Longrightarrow>
   submitGuessTx c u gid ds isAuto w = (Inr (result, finished), w') \<Longrightarrow> duel_inv (uc_Secrets c) (w_db w')"
  unfolding duel_inv_eq by (rule duels_inv_submitGuessTx) simp_all

subsection \<open>The use case keeps the invariant\<close>

lemma keeps_andThen_lift:
  "(\<And>x. r = Inr x \<Longrightarrow> keeps I (k x)) \<Longrightarrow> keeps I (andThen (lift_result r) k)"
  by (cases r) (auto simp: keeps_def andThen_def lift_result_def)

lemma keeps_turns [keeps_intros]:
  "keeps (\<lambda>w. I (w_db w)) (SetTurn s g n p a b)"
  "keeps (\<lambda>w. I (w_db w)) (DeleteTurn s g)"
  "keeps (\<lambda>w. I (w_db w)) (RemainingSeconds s g t)"
  "keeps (\<lambda>w. I (w_db w)) (GetTurn s g)"
  unfolding SetTurn_def DeleteTurn_def RemainingSeconds_def GetTurn_def Let_def
  by (intro keeps_intros)+

lemma keeps_buildGameState [keeps_intros]: "keeps (\<lambda>w. I (w_db w)) (buildGameState c u g)"
  unfolding buildGameState_def Let_def by (intro keeps_intros)

lemma keeps_notifyTurnChanged [keeps_intros]: "keeps (\<lambda>w. I (w_db w)) (notifyTurnChanged c g)"
  unfolding notifyTurnChanged_def Let_def by (intro keeps_intros)

lemma keeps_notifyGameStart [keeps_intros]: "keeps (\<lambda>w. I (w_db w)) (notifyGameStart c g)"
  unfolding notifyGameStart_def Let_def by (intro keeps_intros)

lemma keeps_ensureGamePlayer [keeps_intros]: "keeps (\<lambda>w. I (w_db w)) (ensureGamePlayer u)"
  unfolding ensureGamePlayer_def by (intro keeps_intros)

lemma keeps_notifyGuessResult:
  assumes "\<And>d t. I d \<Longrightarrow> I (d\<lparr>db_actlogs := t\<rparr>)"
  shows "keeps (\<lambda>w. I (w_db w)) (notifyGuessResult c gid r fin u)"
  unfolding notifyGuessResult_def Let_def
  by (intro keeps_intros keeps_record assms; assumption)

text \<open>
  What the use case promises about the database, whatever a client wants to preserve: a property
  that the two transactions and the activity log preserve is preserved by its operations, on every
  path through them, the failing ones included.
\<close>

locale duel_transactions =
  fixes c :: GameUseCase
    and I :: "db \<Rightarrow> bool"
  assumes secret_closed: "I (w_db w) \<Longrightarrow> four_distinct_digits ds \<Longrightarrow>
      setSecretTx c u gid ds w = (Inr started, w') \<Longrightarrow> I (w_db w')"
    and guess_closed: "I (w_db w) \<Longrightarrow> four_distinct_digits ds \<Longrightarrow>
      submitGuessTx c u gid ds auto w = (Inr res, w') \<Longrightarrow> I (w_db w')"
    and actlog_closed: "I d \<Longrightarrow> I (d\<lparr>db_actlogs := t\<rparr>)"
begin

lemma keeps_SetSecretNumber: "keeps (\<lambda>w. I (w_db w)) (SetSecretNumber c u gid s)"
  unfolding SetSecretNumber_def
  apply (rule keeps_andThen, intro keeps_intros, rule keeps_andThen_lift, rule keeps_andThen,
      rule keeps_intros, rule keeps_andThen, rule keeps_WithTx)
   apply (auto simp: ValidateFourDigits_Inr elim: secret_closed)[1]
  apply (intro keeps_intros)
  done

lemma keeps_SubmitGuess: "keeps (\<lambda>w. I (w_db w)) (SubmitGuess c u gid s auto)"
  unfolding SubmitGuess_def
  apply (rule keeps_andThen, intro keeps_intros, rule keeps_andThen_lift, rule keeps_andThen,
      rule keeps_intros, rule keeps_andThen, rule keeps_WithTx)
   apply (auto simp: ValidateFourDigits_Inr elim: guess_closed)[1]
  apply (intro keeps_intros keeps_record keeps_notifyGuessResult actlog_closed; assumption)
  done

lemma keeps_SyncGameState: "keeps (\<lambda>w. I (w_db w)) (SyncGameState c u gid)"
  unfolding SyncGameState_def by (intro keeps_intros)

end

interpretation duel_txs: duel_transactions c "duel_inv (uc_Secrets c)" for c
  by unfold_locales (auto elim: duel_inv_setSecretTx duel_inv_submitGuessTx)

end
