(* ===== verification/GameRecovery.thy ===== *)
theory GameRecovery
  imports GameInv
begin

text \<open>
  What happens to a game without a request of its players: \<open>usecase/handle\_timeout.go\<close> (a turn that
  ran out), \<open>usecase/game\_recovery.go\<close> (secrets that were not set in time, games found at the start
  of the server) and the workers \<open>worker/turn\_timeout.go\<close> and \<open>worker/secret\_setup\_timeout.go\<close>.
\<close>

subsection \<open>A turn that ran out (usecase/handle\_timeout.go)\<close>

text \<open>\<open>validateTimeoutGame\<close> returns \<open>nil\<close> on every branch that follows the query.\<close>

definition validateTimeoutGame :: "uuid \<Rightarrow> uuid \<Rightarrow> int \<Rightarrow> unit go" where
  "validateTimeoutGame gameID playerID redisTurn =
     andThen (gameRepo_FindByID gameID) (\<lambda>found.
     case found of
       None \<Rightarrow> ret ()
     | Some game \<Rightarrow>
         if game_Status game \<noteq> GameStatusInProgress then ret ()
         else if game_CurrentTurnPlayerID game \<noteq> Some playerID then ret ()
         else if game_CurrentTurn game \<noteq> redisTurn then ret ()
         else ret ())"

definition isTimeoutRaceError :: "go_error \<Rightarrow> bool" where
  "isTimeoutRaceError e \<longleftrightarrow>
     e = ErrNotYourTurn \<or> e = ErrGameAlreadyFinished \<or> e = ErrGameNotStarted \<or> e = ErrNotFound"

text \<open>The turn of the store concerns this player and is over.\<close>

definition turn_over :: "TurnInfo option \<Rightarrow> uuid \<Rightarrow> time \<Rightarrow> bool" where
  "turn_over info playerID t = (case info of
     None \<Rightarrow> False | Some i \<Rightarrow> ti_PlayerID i = playerID \<and> \<not> t < ti_ExpiresAt i)"

definition autoGuess :: "GameUseCase \<Rightarrow> uuid \<Rightarrow> uuid \<Rightarrow> time \<Rightarrow> unit go" where
  "autoGuess c gameID playerID t =
     andThen (ensure (uc_Random c) (ErrText ''no random generator'')) (\<lambda>_.
     andThen GenerateGuessNumber (\<lambda>guessNum.
     andThen (attempt (SubmitGuess c playerID gameID guessNum True)) (\<lambda>res.
     case res of
       Inl e \<Rightarrow> if isTimeoutRaceError e then ret () else throw e
     | Inr _ \<Rightarrow> recordTimeoutActivityLog gameID playerID t)))"

definition HandleTimeout :: "GameUseCase \<Rightarrow> uuid \<Rightarrow> uuid \<Rightarrow> unit go" where
  "HandleTimeout c gameID playerID =
     andThen now (\<lambda>t.
     andThen (case uc_Locks c of None \<Rightarrow> ret True
       | Some s \<Rightarrow> AcquireLock s (GuessLockKey gameID playerID) (uc_GameLockTTL c)) (\<lambda>ok.
     if \<not> ok then ret ()
     else case uc_Turns c of None \<Rightarrow> ret () | Some s \<Rightarrow>
       andThen (GetTurn s gameID) (\<lambda>turnInfo.
       if \<not> turn_over turnInfo playerID t then ret ()
       else andThen (validateTimeoutGame gameID playerID
                (case turnInfo of Some i \<Rightarrow> ti_Turn i | None \<Rightarrow> 0)) (\<lambda>_.
       andThen (GetTurn s gameID) (\<lambda>turnInfo.
       if \<not> turn_over turnInfo playerID t then ret ()
       else autoGuess c gameID playerID t)))))"

text \<open>\<open>log.Printf\<close> of an error: the loop of a worker goes on.\<close>

definition TurnTimeoutWorker_tick :: "GameUseCase \<Rightarrow> store \<Rightarrow> time \<Rightarrow> unit go" where
  "TurnTimeoutWorker_tick c s t =
     andThen (attempt (ListExpiredTurns s t)) (\<lambda>res. case res of
       Inl _ \<Rightarrow> ret ()
     | Inr entries \<Rightarrow> forEach entries (\<lambda>e. ignoreErr (HandleTimeout c (et_GameID e) (et_PlayerID e))))"

subsection \<open>Secrets that were not set in time (usecase/game\_recovery.go)\<close>

definition cancelTx :: "GameUseCase \<Rightarrow> uuid \<Rightarrow> time \<Rightarrow> (uuid \<times> uuid) option go" where
  "cancelTx c gameID t =
     andThen (gameRepo_FindByIDForUpdate gameID) (\<lambda>found.
     case found of
       None \<Rightarrow> ret None
     | Some game \<Rightarrow>
         if game_Status game \<noteq> GameStatusWaitingSecret then ret None
         else if game_StartedAt game \<noteq> None \<or> game_FinishedAt game \<noteq> None \<or>
                 game_WinnerID game \<noteq> None then ret None
         else let deadline = game_CreatedAt game + uc_SecretSetup c in
           if \<not> deadline < t then ret None
           else
             let game = (case cancelGameBySecretTimeout game t of Inl _ \<Rightarrow> game | Inr g \<Rightarrow> g) in
             andThen (gameRepo_Update game) (\<lambda>_.
             ret (Some (game_Player1ID game, game_Player2ID game))))"

definition CancelBySecretTimeout :: "GameUseCase \<Rightarrow> uuid \<Rightarrow> unit go" where
  "CancelBySecretTimeout c gameID =
     andThen now (\<lambda>t.
     andThen (WithTx (cancelTx c gameID t)) (\<lambda>cancelled.
     case cancelled of
       None \<Rightarrow> ret ()
     | Some (player1, player2) \<Rightarrow>
         andThen (case uc_Turns c of None \<Rightarrow> ret () | Some s \<Rightarrow> ignoreErr (DeleteTurn s gameID)) (\<lambda>_.
         andThen (forEach [player1, player2] (\<lambda>uid. sendIfNotifier c uid ''GAME_OVER''
           [(''gameId'', JUuid gameID), (''reason'', JStr ''secret_setup_timeout'')])) (\<lambda>_.
         recordGameOverActivityLog gameID ''secret_setup_timeout'' None t))))"

definition recoverInProgressGameTurn :: "GameUseCase \<Rightarrow> game \<Rightarrow> time \<Rightarrow> unit go" where
  "recoverInProgressGameTurn c game t =
     (case uc_Turns c of None \<Rightarrow> ret () | Some s \<Rightarrow>
     (case game_CurrentTurnPlayerID game of None \<Rightarrow> ret () | Some playerID \<Rightarrow>
       andThen (GetTurn s (game_ID game)) (\<lambda>turnInfo.
       if (case turnInfo of None \<Rightarrow> False | Some i \<Rightarrow> t < ti_ExpiresAt i) then ret ()
       else
         let expiresAt = t + uc_TurnDuration c in
         andThen (SetTurn s (game_ID game) (game_CurrentTurn game) playerID t expiresAt) (\<lambda>_.
         let remaining = whole_seconds (expiresAt - t);
             payload =
               [(''gameId'', JUuid (game_ID game)), (''currentTurn'', JInt (game_CurrentTurn game)),
                (''currentTurnPlayerID'', JUuid playerID), (''remainingSeconds'', JInt remaining)] in
         andThen (forEach [game_Player1ID game, game_Player2ID game] (\<lambda>uid.
           sendIfNotifier c uid ''TURN_CHANGED'' payload)) (\<lambda>_.
         recordRecoverActivityLog (game_ID game) t)))))"

definition RecoverActiveGames :: "GameUseCase \<Rightarrow> unit go" where
  "RecoverActiveGames c =
     andThen now (\<lambda>t.
     andThen (gameRepo_ListByStatus GameStatusInProgress) (\<lambda>inProgress.
     andThen (forEach inProgress (\<lambda>game. recoverInProgressGameTurn c game t)) (\<lambda>_.
     let before = t - uc_SecretSetup c in
     andThen (gameRepo_ListByStatusCreatedBefore GameStatusWaitingSecret before) (\<lambda>waitingExpired.
     forEach waitingExpired (\<lambda>game. CancelBySecretTimeout c (game_ID game))))))"

definition SecretSetupTimeoutWorker_tick :: "GameUseCase \<Rightarrow> time \<Rightarrow> unit go" where
  "SecretSetupTimeoutWorker_tick c t =
     (if uc_SecretSetup c \<le> 0 then ret ()
      else
        let before = t - uc_SecretSetup c in
        andThen (attempt (gameRepo_ListByStatusCreatedBefore GameStatusWaitingSecret before)) (\<lambda>res.
        case res of
          Inl _ \<Rightarrow> ret ()
        | Inr games \<Rightarrow> forEach games (\<lambda>game. ignoreErr (CancelBySecretTimeout c (game_ID game)))))"

subsection \<open>The invariant\<close>

declare keeps_case_sum [keeps_intros]

lemma keeps_case_Some_prod [keeps_intros]:
  "keeps I m \<Longrightarrow> (\<And>a b. keeps I (f a b)) \<Longrightarrow>
   keeps I (case r of None \<Rightarrow> m | Some (a, b) \<Rightarrow> f a b)"
  by (cases r) auto

lemma keeps_expired_turns [keeps_intros]: "keeps (\<lambda>w. I (w_db w)) (ListExpiredTurns s t)"
proof -
  have batch: "keeps (\<lambda>w. I (w_db w)) (expired_in_batch s t gids out)" for s t gids out
    by (induction s t gids out rule: expired_in_batch.induct)
      (auto intro!: keeps_intros)
  have "keeps (\<lambda>w. I (w_db w)) (scan_batches s t bs out)" for s t bs out
    by (induction s t bs out rule: scan_batches.induct)
      (auto intro!: keeps_intros batch)
  then show ?thesis by (auto simp: ListExpiredTurns_def keeps_def)
qed

lemma duels_inv_cancelTx:
  assumes inv: "duels_inv R h (w_db w)" and run: "cancelTx c gid t w = (Inr res, w')"
  shows "duels_inv R h (w_db w')"
proof -
  let ?d = "w_db w"
  from run have "w_db w' = ?d \<or> (\<exists>g g'. first_row game_ID (\<lambda>g. game_ID g = gid) (db_games ?d) = Some g \<and>
      game_Status g = GameStatusWaitingSecret \<and>
      cancelGameBySecretTimeout g t = Inr g' \<and>
      w_db w' = ?d\<lparr>db_games := save_row game_ID g' (db_games ?d)\<rparr>)"
    by (auto simp: cancelTx_def Let_def success_iff find_defs cancelGame_Inr cancelGameBySecretTimeout_def
        split: option.splits if_splits)
  then show ?thesis
  proof (elim disjE exE conjE)
    fix g g'
    assume found: "first_row game_ID (\<lambda>g. game_ID g = gid) (db_games ?d) = Some g"
      and status: "game_Status g = GameStatusWaitingSecret"
      and g': "cancelGameBySecretTimeout g t = Inr g'"
      and db: "w_db w' = ?d\<lparr>db_games := save_row game_ID g' (db_games ?d)\<rparr>"
    from first_row_Some [OF found] have g: "g \<in> set (db_games ?d)" by simp
    with inv have log: "game_log_ok h (game_guesses ?d g) g" by (simp add: duels_inv_def games_inv_def)
    then have ok: "game_ok g" by (simp add: game_log_ok_def)
    with status have *: "game_CurrentTurn g = 1" "game_WinnerID g = None"
      by (simp_all add: game_ok_waiting waiting_ok_def)
    from g' have g'_eq: "game_WinnerID g' = game_WinnerID g" "game_CurrentTurn g' = game_CurrentTurn g"
      "game_Player1Secret g' = game_Player1Secret g" "game_Player2Secret g' = game_Player2Secret g"
      "game_Status g' = GameStatusFinished" "game_ID g' = game_ID g"
      by (auto simp: cancelGame_Inr)
    have "game_log_ok h (game_guesses ?d g @ []) g'"
      using log cancelGame_ok [OF g' ok] * by (simp add: game_log_ok_def g'_eq secrets_ok_def)
    then show ?thesis
      by (intro duels_inv_save [OF inv g same_game_rules(5) [OF g'], of "[]"])
        (simp_all add: db * g'_eq status)
  qed (simp add: inv)
qed

lemmas duel_inv_cancelTx = duels_inv_cancelTx [where R = "(=)", folded duel_inv_eq]

locale game_transactions = duel_transactions +
  assumes cancel_closed: "I (w_db w) \<Longrightarrow> cancelTx c gid t w = (Inr r, w') \<Longrightarrow> I (w_db w')"
begin

lemma keeps_CancelBySecretTimeout: "keeps (\<lambda>w. I (w_db w)) (CancelBySecretTimeout c gid)"
  unfolding CancelBySecretTimeout_def
  by (rule keeps_andThen, rule keeps_intros, rule keeps_andThen, rule keeps_WithTx,
      erule (1) cancel_closed) (intro keeps_intros keeps_record actlog_closed; assumption)

lemma keeps_RecoverActiveGames: "keeps (\<lambda>w. I (w_db w)) (RecoverActiveGames c)"
  unfolding RecoverActiveGames_def recoverInProgressGameTurn_def Let_def
  by (intro keeps_intros keeps_CancelBySecretTimeout keeps_record actlog_closed; assumption)

lemma keeps_HandleTimeout: "keeps (\<lambda>w. I (w_db w)) (HandleTimeout c gid pid)"
  unfolding HandleTimeout_def validateTimeoutGame_def autoGuess_def
  by (intro keeps_intros keeps_record keeps_SubmitGuess actlog_closed; assumption)

lemma keeps_TurnTimeoutWorker: "keeps (\<lambda>w. I (w_db w)) (TurnTimeoutWorker_tick c s t)"
  unfolding TurnTimeoutWorker_tick_def by (intro keeps_intros keeps_HandleTimeout)

lemma keeps_SecretSetupTimeoutWorker:
  "keeps (\<lambda>w. I (w_db w)) (SecretSetupTimeoutWorker_tick c t)"
  unfolding SecretSetupTimeoutWorker_tick_def Let_def
  by (intro keeps_intros keeps_CancelBySecretTimeout)

end

interpretation game_txs: game_transactions c "duel_inv (uc_Secrets c)" for c
  by unfold_locales (rule duel_inv_cancelTx)

end
