(* ===== verification/Duel.thy ===== *)
theory Duel
  imports GameRecovery
begin

text \<open>
  The game as its rules describe it, without hashes, rows or clocks: two secrets, the guesses made so
  far, and who may do what. The transactions of the game use case refine it.
\<close>

subsection \<open>The abstract game\<close>

record duel =
  duel_secret1 :: "int list option"
  duel_secret2 :: "int list option"
  duel_moves :: "int list list"
  duel_cancelled :: bool

text \<open>Player 1 makes the odd moves and looks for the secret of player 2.\<close>

definition mover :: "duel \<Rightarrow> int" where
  "mover a = (if even (length (duel_moves a)) then 1 else 2)"

definition target :: "duel \<Rightarrow> int \<Rightarrow> int list option" where
  "target a slot = (if slot = 1 then duel_secret2 a else duel_secret1 a)"

definition duel_started :: "duel \<Rightarrow> bool" where
  "duel_started a \<longleftrightarrow> duel_secret1 a \<noteq> None \<and> duel_secret2 a \<noteq> None"

definition duel_won :: "duel \<Rightarrow> bool" where
  "duel_won a \<longleftrightarrow> duel_moves a \<noteq> [] \<and>
     Some (last (duel_moves a)) = target a (if odd (length (duel_moves a)) then 1 else 2)"

definition duel_status :: "duel \<Rightarrow> GameStatus" where
  "duel_status a =
     (if duel_cancelled a \<or> duel_won a then GameStatusFinished
      else if duel_started a then GameStatusInProgress else GameStatusWaitingSecret)"

definition duel_set_secret :: "duel \<Rightarrow> int \<Rightarrow> int list \<Rightarrow> duel option" where
  "duel_set_secret a slot ds =
     (if duel_status a \<noteq> GameStatusWaitingSecret then None
      else if slot = 1 then
        (if duel_secret1 a = None then Some (a\<lparr>duel_secret1 := Some ds\<rparr>) else None)
      else (if duel_secret2 a = None then Some (a\<lparr>duel_secret2 := Some ds\<rparr>) else None))"

definition duel_guess :: "duel \<Rightarrow> int \<Rightarrow> int list \<Rightarrow> (duel \<times> DigitResult list) option" where
  "duel_guess a slot ds =
     (if duel_status a \<noteq> GameStatusInProgress \<or> slot \<noteq> mover a then None
      else case target a slot of
        None \<Rightarrow> None
      | Some s \<Rightarrow> Some (a\<lparr>duel_moves := duel_moves a @ [ds]\<rparr>, JudgeDigits s ds))"

definition duel_cancel :: "duel \<Rightarrow> duel option" where
  "duel_cancel a =
     (if duel_status a \<noteq> GameStatusWaitingSecret then None else Some (a\<lparr>duel_cancelled := True\<rparr>))"

subsection \<open>The refinement relation\<close>

definition secret_refines :: "hasher \<Rightarrow> uuid \<Rightarrow> int \<Rightarrow> string \<Rightarrow> int list option \<Rightarrow> bool" where
  "secret_refines h gid slot stored s = (case s of
     None \<Rightarrow> stored = ''''
   | Some ds \<Rightarrow> four_distinct_digits ds \<and> Hash h ds gid slot = Inr stored)"

definition refines :: "hasher \<Rightarrow> guess list \<Rightarrow> game \<Rightarrow> duel \<Rightarrow> bool" where
  "refines h rs g a \<longleftrightarrow>
     secret_refines h (game_ID g) 1 (game_Player1Secret g) (duel_secret1 a) \<and>
     secret_refines h (game_ID g) 2 (game_Player2Secret g) (duel_secret2 a) \<and>
     map guess_GuessNumber rs = map format_digits (duel_moves a) \<and>
     (\<forall>ds\<in>set (duel_moves a). four_distinct_digits ds) \<and>
     (duel_moves a \<noteq> [] \<longrightarrow> duel_started a) \<and>
     game_Status g = duel_status a"

lemma secret_refines_Some [simp]:
  "secret_refines h gid slot s (Some ds) \<longleftrightarrow> four_distinct_digits ds \<and> Hash h ds gid slot = Inr s"
  by (simp add: secret_refines_def)

lemma secret_refines_None: "secret_refines h gid slot s x \<Longrightarrow> x = None \<longleftrightarrow> s = ''''"
  by (auto simp: secret_refines_def split: option.splits dest: Hash_not_empty)

lemma refines_started: "refines h rs g a \<Longrightarrow> duel_started a \<longleftrightarrow> BothSecretsSet g"
  by (auto simp: refines_def duel_started_def BothSecretsSet_def dest!: secret_refines_None)

lemma refines_length: "refines h rs g a \<Longrightarrow> length (duel_moves a) = length rs"
  unfolding refines_def by (metis length_map)

lemma log_length: "game_log_ok h rs g \<Longrightarrow> int (length rs) = game_CurrentTurn g - 1"
proof -
  assume log: "game_log_ok h rs g"
  then have "length (map guess_Turn rs) = nat (game_CurrentTurn g - 1)"
    by (simp only: game_log_ok_def) simp
  moreover from log have "1 \<le> game_CurrentTurn g"
    by (auto simp: game_log_ok_def game_ok_def waiting_ok_def running_ok_def finished_ok_def
        split: option.splits)
  ultimately show ?thesis by simp
qed

text \<open>The player to move is the abstract mover.\<close>

lemma mover_player:
  assumes "refines h rs g a" "game_log_ok h rs g"
  shows "turn_player g (game_CurrentTurn g) = (if mover a = 1 then game_Player1ID g else game_Player2ID g)"
proof -
  have "game_CurrentTurn g = int (length (duel_moves a)) + 1"
    using refines_length [OF assms(1)] log_length [OF assms(2)] by simp
  then show ?thesis by (simp add: turn_player_def mover_def)
qed

subsection \<open>Setting a secret\<close>

definition player_slot :: "game \<Rightarrow> uuid \<Rightarrow> int" where
  "player_slot g u = (if u = game_Player2ID g then 2 else 1)"

lemma status_waiting_moves:
  "duel_status a = GameStatusWaitingSecret \<Longrightarrow> \<not> duel_started a \<and> \<not> duel_cancelled a"
  by (auto simp: duel_status_def split: if_splits)

lemma secret_step_refines:
  assumes step: "secret_step c u ds started g g'" and ds: "four_distinct_digits ds"
    and ok: "game_ok g" "secrets_ok (uc_Secrets c) g" and ref: "refines (uc_Secrets c) rs g a"
  shows "\<exists>a'. duel_set_secret a (player_slot g u) ds = Some a' \<and> refines (uc_Secrets c) rs g' a' \<and>
    started = duel_started a'"
proof -
  let ?h = "uc_Secrets c" and ?slot = "player_slot g u"
  from step obtain hash g1 t where status: "game_Status g = GameStatusWaitingSecret"
    and hash: "Hash ?h ds (game_ID g) ?slot = Inr hash"
    and g1: "setGameSecretHash g u hash = Inr g1" "started = BothSecretsSet g1"
    and g': "if started then \<exists>t2. startGame (g1\<lparr>game_UpdatedAt := t\<rparr>) t2 = Inr g'
         else g' = g1\<lparr>game_UpdatedAt := t\<rparr>"
    unfolding secret_step_def player_slot_def by blast
  from ok(1) status have two: "game_Player1ID g \<noteq> game_Player2ID g" by (simp add: game_ok_waiting)
  have a: "duel_status a = GameStatusWaitingSecret" using ref status by (simp add: refines_def)
  then have open_a: "\<not> duel_started a" "\<not> duel_cancelled a" by (simp_all add: status_waiting_moves)
  with ref have nomoves: "duel_moves a = []" "rs = []" by (auto simp: refines_def)
  let ?a = "if ?slot = 1 then a\<lparr>duel_secret1 := Some ds\<rparr> else a\<lparr>duel_secret2 := Some ds\<rparr>"
  note secrets = ref [unfolded refines_def]
  have set: "duel_set_secret a ?slot ds = Some ?a"
    using g1(1) secrets two
    by (auto simp: duel_set_secret_def a player_slot_def dest!: secret_refines_None
        elim!: setGameSecretHash_cases)
  have g'_eq: "game_ID g' = game_ID g" "game_Player1Secret g' = game_Player1Secret g1"
    "game_Player2Secret g' = game_Player2Secret g1"
    "game_Status g' = (if started then GameStatusInProgress else GameStatusWaitingSecret)"
    using g' g1(1) status by (auto simp: startGame_Inr split: if_splits elim!: setGameSecretHash_cases)
  from ref have old: "secret_refines ?h (game_ID g) 1 (game_Player1Secret g) (duel_secret1 a)"
    "secret_refines ?h (game_ID g) 2 (game_Player2Secret g) (duel_secret2 a)"
    by (simp_all add: refines_def)
  have "secret_refines ?h (game_ID g') 1 (game_Player1Secret g') (duel_secret1 ?a) \<and>
    secret_refines ?h (game_ID g') 2 (game_Player2Secret g') (duel_secret2 ?a)"
    using g1(1) unfolding g'_eq
    by (cases rule: setGameSecretHash_cases) (use old hash ds two in \<open>simp_all add: player_slot_def\<close>)
  moreover from this have "started = duel_started ?a"
    unfolding g1(2) duel_started_def BothSecretsSet_def g'_eq
    by (auto dest!: secret_refines_None)
  moreover have "duel_status ?a = (if duel_started ?a then GameStatusInProgress else GameStatusWaitingSecret)"
    using open_a nomoves by (auto simp: duel_status_def duel_won_def)
  ultimately have "refines ?h rs g' ?a"
    unfolding refines_def by (simp add: nomoves g'_eq)
  with set \<open>started = duel_started ?a\<close> show ?thesis by blast
qed

subsection \<open>A guess\<close>

lemma guess_step_refines:
  assumes step: "guess_step c u ds auto t g row g1" and ds: "four_distinct_digits ds"
    and log: "game_log_ok (uc_Secrets c) rs g" and ref: "refines (uc_Secrets c) rs g a"
    and differ: "digests_differ (uc_Secrets c) (game_ID g) 1" "digests_differ (uc_Secrets c) (game_ID g) 2"
    and g': "if IsWin (guess_DigitResults row) then finishGame g1 u t = Inr g' else g' = g1"
  shows "\<exists>a'. duel_guess a (player_slot g u) ds = Some (a', guess_DigitResults row) \<and>
    refines (uc_Secrets c) (rs @ [row]) g' a' \<and> IsWin (guess_DigitResults row) = duel_won a'"
proof -
  let ?h = "uc_Secrets c" and ?slot = "player_slot g u" and ?a = "a\<lparr>duel_moves := duel_moves a @ [ds]\<rparr>"
  from log have ok: "game_ok g" by (simp add: game_log_ok_def)
  note f = guess_step_facts [OF step ok]
  from ok f(1) have two: "game_Player1ID g \<noteq> game_Player2ID g" by (simp add: game_ok_running)
  have a: "duel_status a = GameStatusInProgress" using ref f(1) by (simp add: refines_def)
  then have open_a: "duel_started a" "\<not> duel_cancelled a" by (auto simp: duel_status_def split: if_splits)
  have slot: "?slot = mover a"
    using mover_player [OF ref log] f(2) two by (auto simp: player_slot_def mover_def)
  note secrets = ref [unfolded refines_def]
  obtain s where s: "target a ?slot = Some s"
    using open_a(1) by (cases "?slot = 1") (auto simp: target_def duel_started_def)
  have secret: "four_distinct_digits s" "Hash ?h s (game_ID g) (snd (opponentSecret g u)) = Inr (fst (opponentSecret g u))"
    using secrets s by (auto simp: target_def player_slot_def opponentSecret_def secret_refines_def split: if_splits)
  have differ_opp: "digests_differ ?h (game_ID g) (snd (opponentSecret g u))"
    using differ by (simp add: opponentSecret_def)
  have results: "guess_DigitResults row = JudgeDigits s ds"
    using step Verify_Hash_judge [OF differ_opp secret(1) ds secret(2)] by (simp add: guess_step_def)
  have len: "length s = 4" "length ds = 4" using secret(1) ds by (simp_all add: four_distinct_digits_length)
  have "target ?a (if odd (length (duel_moves ?a)) then 1 else 2) = Some s"
    using s unfolding slot by (simp add: target_def mover_def split: if_splits)
  then have "duel_won ?a \<longleftrightarrow> s = ds" unfolding duel_won_def by auto
  then have won: "duel_won ?a \<longleftrightarrow> IsWin (guess_DigitResults row)"
    by (simp only: results IsWin_JudgeDigits [OF len])
  have guess: "duel_guess a ?slot ds = Some (?a, guess_DigitResults row)"
    by (simp add: duel_guess_def a slot s [unfolded slot] results)
  have g'_eq: "game_ID g' = game_ID g" "game_Player1Secret g' = game_Player1Secret g"
    "game_Player2Secret g' = game_Player2Secret g"
    "game_Status g' = (if IsWin (guess_DigitResults row) then GameStatusFinished else GameStatusInProgress)"
    using g' f(6-11) by (auto simp: finishGame_Inr same_game_def split: if_splits)
  have "duel_status ?a = game_Status g'"
    using open_a won unfolding g'_eq duel_status_def by (simp add: duel_started_def)
  then have "refines ?h (rs @ [row]) g' ?a"
    using secrets ds open_a(1) f(15) unfolding refines_def g'_eq(1-3) by (simp add: duel_started_def)
  with guess won show ?thesis by blast
qed

subsection \<open>The transactions on the database\<close>

text \<open>The game stored under an identifier, with its guesses, is a duel.\<close>

definition stored_duel :: "hasher \<Rightarrow> db \<Rightarrow> uuid \<Rightarrow> duel \<Rightarrow> bool" where
  "stored_duel h d gid a \<longleftrightarrow>
     (\<exists>g\<in>set (db_games d). game_ID g = gid \<and> refines h (game_guesses d g) g a)"

lemma stored_duel_unique:
  assumes "duel_inv h d" "stored_duel h d gid a" "g \<in> set (db_games d)" "game_ID g = gid"
  shows "refines h (game_guesses d g) g a"
  using assms by (auto simp: stored_duel_def duel_inv_def games_inv_def dest: distinct_key_eq)

lemma stored_duel_save:
  assumes "duel_inv h d" "g \<in> set (db_games d)" "game_ID g' = game_ID g"
    "refines h (game_guesses d g @ rows) g' a" "\<forall>r\<in>set rows. guess_GameID r = game_ID g"
    "db_games d' = save_row game_ID g' (db_games d)" "db_guesses d' = db_guesses d @ rows"
  shows "stored_duel h d' (game_ID g) a"
proof -
  have "g' \<in> set (db_games d')"
    using assms(1-3) by (simp add: assms(6) duel_inv_def games_inv_def set_save_row_present)
  moreover have "game_guesses d' g' = game_guesses d g @ rows"
    using assms(5) by (simp add: game_guesses_def assms(3,7))
  ultimately show ?thesis using assms(3,4) unfolding stored_duel_def by auto
qed

lemma setSecretTx_refines:
  assumes inv: "duel_inv (uc_Secrets c) (w_db w)" and ds: "four_distinct_digits ds"
    and run: "setSecretTx c u gid ds w = (Inr started, w')"
    and a: "stored_duel (uc_Secrets c) (w_db w) gid a"
  shows "\<exists>g\<in>set (db_games (w_db w)). \<exists>a'. game_ID g = gid \<and> IsParticipant g u \<and>
    duel_set_secret a (player_slot g u) ds = Some a' \<and> stored_duel (uc_Secrets c) (w_db w') gid a' \<and>
    started = duel_started a'"
  using run
proof (cases rule: setSecretTx_success)
  case (1 g g')
  from inv 1(2) have log: "game_log_ok (uc_Secrets c) (game_guesses (w_db w) g) g"
    by (simp add: duel_inv_def games_inv_def)
  then have ok: "game_ok g" "secrets_ok (uc_Secrets c) g" by (simp_all add: game_log_ok_def)
  from secret_step_refines [OF 1(4) ds ok stored_duel_unique [OF inv a 1(2,3)]]
  obtain a' where a': "duel_set_secret a (player_slot g u) ds = Some a'"
    "refines (uc_Secrets c) (game_guesses (w_db w) g) g' a'" "started = duel_started a'" by blast
  have "game_ID g' = game_ID g" using secret_step_same [OF 1(4)] by (simp add: same_game_def)
  from stored_duel_save [OF inv 1(2) this, of "[]" a' "w_db w'"] a'(2)
  have "stored_duel (uc_Secrets c) (w_db w') gid a'" by (simp add: 1(3,5))
  moreover have "IsParticipant g u" using 1(4) by (simp add: secret_step_def)
  ultimately show ?thesis using a' 1(2,3) by blast
qed

lemma submitGuessTx_refines:
  assumes inv: "duel_inv (uc_Secrets c) (w_db w)" and ds: "four_distinct_digits ds"
    and run: "submitGuessTx c u gid ds auto w = (Inr (result, finished), w')"
    and a: "stored_duel (uc_Secrets c) (w_db w) gid a"
    and differ: "digests_differ (uc_Secrets c) gid 1" "digests_differ (uc_Secrets c) gid 2"
  shows "\<exists>g\<in>set (db_games (w_db w)). \<exists>a'. game_ID g = gid \<and> IsParticipant g u \<and>
    duel_guess a (player_slot g u) ds = Some (a', gr_DigitResults result) \<and>
    stored_duel (uc_Secrets c) (w_db w') gid a' \<and> finished = duel_won a'"
  using run
proof (cases rule: submitGuessTx_success)
  case (1 g row g1 t)
  let ?d = "w_db w" and ?h = "uc_Secrets c"
  from inv 1(2) have log: "game_log_ok ?h (game_guesses ?d g) g"
    and part: "\<forall>p. IsParticipant g p \<longrightarrow> p \<in> user_ID ` set (db_users ?d)"
    by (auto simp: duel_inv_def games_inv_def players_inv_def IsParticipant_def)
  then have ok: "game_ok g" by (simp add: game_log_ok_def)
  note f = guess_step_facts [OF 1(4) ok]
  have "\<exists>g'. (if finished then finishGame g1 u t = Inr g' else g' = g1) \<and> game_ID g' = game_ID g \<and>
    db_games (w_db w') = save_row game_ID g' (db_games ?d) \<and> db_guesses (w_db w') = db_guesses ?d @ [row]"
  proof (cases finished)
    case False
    with 1(10) f(6) show ?thesis by (simp add: same_game_def)
  next
    case True
    with 1(10) obtain g' w1 where fin: "finishGameService g1 u t w1 = (Inr g', w')"
      and w1: "w_db w1 = ?d\<lparr>db_guesses := db_guesses ?d @ [row]\<rparr>" by auto
    have part1: "\<forall>p. IsParticipant g1 p \<longrightarrow> p \<in> user_ID ` set (db_users (w_db w1))"
      using part f(6) by (simp add: w1 IsParticipant_def same_game_def)
    from fin part1 show ?thesis
      by (cases rule: finishGameService_success)
        (use f(6) True in \<open>auto simp: w1 finishGame_Inr same_game_def\<close>)
  qed
  then obtain g' where g': "if finished then finishGame g1 u t = Inr g' else g' = g1"
      "game_ID g' = game_ID g" "db_games (w_db w') = save_row game_ID g' (db_games ?d)"
      "db_guesses (w_db w') = db_guesses ?d @ [row]" by blast
  from guess_step_refines [OF 1(4) ds log stored_duel_unique [OF inv a 1(2,3)]] differ g'(1)
  obtain a' where a': "duel_guess a (player_slot g u) ds = Some (a', guess_DigitResults row)"
    "refines ?h (game_guesses ?d g @ [row]) g' a'" "IsWin (guess_DigitResults row) = duel_won a'"
    unfolding 1(3,5) by blast
  from stored_duel_save [OF inv 1(2) g'(2) a'(2) _ g'(3,4)] f(12)
  have "stored_duel ?h (w_db w') gid a'" by (simp add: 1(3))
  moreover have "IsParticipant g u" using f(2) by (simp add: turn_player_participant)
  ultimately show ?thesis using a' 1(2,3,5,9) by (intro bexI [of _ g]) auto
qed

text \<open>Every stored game is a duel, and a new game is the empty one.\<close>

definition empty_duel :: duel where
  "empty_duel = \<lparr>duel_secret1 = None, duel_secret2 = None, duel_moves = [], duel_cancelled = False\<rparr>"

lemma secret_of:
  assumes "secret_hashed h gid slot s"
  obtains x where "secret_refines h gid slot s x"
proof (cases "s = ''''")
  case True
  then show thesis by (intro that [of None]) (simp add: secret_refines_def)
next
  case False
  with assms obtain ds where "four_distinct_digits ds" "Hash h ds gid slot = Inr s"
    by (auto simp: secret_hashed_def)
  then show thesis by (intro that [of "Some ds"]) simp
qed

lemma moves_of:
  assumes "\<forall>r\<in>set rs. guess_ok h g r"
  shows "\<exists>dss. map guess_GuessNumber rs = map format_digits dss \<and> (\<forall>ds\<in>set dss. four_distinct_digits ds)"
  using assms
proof (induction rs)
  case (Cons r rs)
  then obtain dss where "map guess_GuessNumber rs = map format_digits dss"
    "\<forall>ds\<in>set dss. four_distinct_digits ds" by auto
  moreover from Cons.prems obtain ds where "four_distinct_digits ds" "guess_GuessNumber r = format_digits ds"
    by (auto simp: guess_ok_def)
  ultimately show ?case by (intro exI [of _ "ds # dss"]) simp
qed simp

lemma format_digits_eq:
  assumes "four_distinct_digits a" "four_distinct_digits b"
  shows "format_digits a = format_digits b \<longleftrightarrow> a = b"
  using assms ValidateFourDigits_Inr [of "format_digits a" a] ValidateFourDigits_Inr [of "format_digits a" b]
  by (metis Inr_inject)

lemma last_guess_turn:
  assumes log: "game_log_ok h rs g" and rs: "rs \<noteq> []"
  shows "guess_Turn (last rs) = game_CurrentTurn g - 1"
proof -
  let ?n = "game_CurrentTurn g - 1"
  from log have "map guess_Turn rs = [1..?n]" by (simp add: game_log_ok_def)
  then have "guess_Turn (last rs) = last [1..?n]" using rs by (metis last_map)
  moreover have "1 \<le> ?n" using log_length [OF log] rs by (cases rs) simp_all
  ultimately show ?thesis by (simp add: upto_rec2)
qed

lemma last_guess_wins:
  assumes log: "game_log_ok h rs g" and rs: "rs \<noteq> []"
    and differ: "digests_differ h (game_ID g) 1" "digests_differ h (game_ID g) 2"
    and secrets: "secret_refines h (game_ID g) 1 (game_Player1Secret g) (duel_secret1 a)"
      "secret_refines h (game_ID g) 2 (game_Player2Secret g) (duel_secret2 a)"
    and both: "BothSecretsSet g"
    and moves: "map guess_GuessNumber rs = map format_digits (duel_moves a)"
      "\<forall>ds\<in>set (duel_moves a). four_distinct_digits ds"
  shows "duel_won a \<longleftrightarrow> game_WinnerID g \<noteq> None"
proof -
  let ?n = "game_CurrentTurn g - 1"
  have len: "length (duel_moves a) = length rs" using moves(1) by (metis length_map)
  with rs have nonempty: "duel_moves a \<noteq> []" by auto
  have n: "?n = int (length (duel_moves a))" using log_length [OF log] len by simp
  from log have ok: "guess_ok h g (last rs)" and two: "game_Player1ID g \<noteq> game_Player2ID g"
    using rs by (auto simp: game_log_ok_def game_ok_def)
  note turn = last_guess_turn [OF log rs]
  have number: "guess_GuessNumber (last rs) = format_digits (last (duel_moves a))"
    using moves(1) rs nonempty by (metis last_map)
  let ?slot = "if odd (length (duel_moves a)) then 1 else 2 :: int"
  have player: "guess_PlayerID (last rs) = (if odd (length (duel_moves a)) then game_Player1ID g else game_Player2ID g)"
    using ok turn n by (simp add: guess_ok_def turn_player_def)
  from secrets both obtain s1 s2 where s12: "duel_secret1 a = Some s1" "duel_secret2 a = Some s2"
    by (auto simp: BothSecretsSet_def dest!: secret_refines_None)
  define s where "s = (if odd (length (duel_moves a)) then s2 else s1)"
  have s: "target a ?slot = Some s" by (simp add: target_def s_def s12)
  let ?opp = "opponentSecret g (guess_PlayerID (last rs))"
  have hash: "four_distinct_digits s" "Hash h s (game_ID g) (snd ?opp) = Inr (fst ?opp)"
    "digests_differ h (game_ID g) (snd ?opp)"
    using secrets s12 two differ by (auto simp: s_def opponentSecret_def player)
  from ok obtain ds where ds: "four_distinct_digits ds" "guess_GuessNumber (last rs) = format_digits ds"
    "Verify h (fst ?opp) ds (game_ID g) (snd ?opp) = Inr (guess_DigitResults (last rs))"
    unfolding guess_ok_def by blast
  have "last (duel_moves a) = ds"
    using number ds(1,2) moves(2) nonempty by (simp add: format_digits_eq [symmetric])
  moreover have "guess_DigitResults (last rs) = JudgeDigits s ds"
    using Verify_Hash_judge [OF hash(3,1) ds(1) hash(2)] ds(3) by simp
  then have "IsWin (guess_DigitResults (last rs)) \<longleftrightarrow> s = ds"
    using hash(1) ds(1) by (simp add: IsWin_JudgeDigits four_distinct_digits_length)
  ultimately show ?thesis
    using ok turn nonempty s by (auto simp: guess_ok_def duel_won_def)
qed

lemma game_is_duel:
  assumes log: "game_log_ok h rs g"
    and differ: "digests_differ h (game_ID g) 1" "digests_differ h (game_ID g) 2"
  shows "\<exists>a. refines h rs g a"
proof -
  from log have ok: "game_ok g" and hashed: "secret_hashed h (game_ID g) 1 (game_Player1Secret g)"
      "secret_hashed h (game_ID g) 2 (game_Player2Secret g)"
    and rs: "\<forall>r\<in>set rs. guess_ok h g r"
    by (simp_all add: game_log_ok_def secrets_ok_def)
  from secret_of [OF hashed(1)] obtain x1 where x1: "secret_refines h (game_ID g) 1 (game_Player1Secret g) x1" .
  from secret_of [OF hashed(2)] obtain x2 where x2: "secret_refines h (game_ID g) 2 (game_Player2Secret g) x2" .
  from moves_of [OF rs] obtain dss where dss: "map guess_GuessNumber rs = map format_digits dss"
    "\<forall>ds\<in>set dss. four_distinct_digits ds" by blast
  define a where "a = \<lparr>duel_secret1 = x1, duel_secret2 = x2, duel_moves = dss,
    duel_cancelled = (game_Status g = GameStatusFinished \<and> game_WinnerID g = None)\<rparr>"
  have both: "duel_started a \<longleftrightarrow> BothSecretsSet g"
    using x1 x2 by (auto simp: a_def duel_started_def BothSecretsSet_def dest!: secret_refines_None)
  have len: "length dss = length rs" using dss(1) by (metis length_map)
  have n: "int (length rs) = game_CurrentTurn g - 1" by (rule log_length [OF log])
  have won: "duel_won a \<longleftrightarrow> game_WinnerID g \<noteq> None" if "rs \<noteq> []" "BothSecretsSet g"
    using last_guess_wins [OF log that(1) differ, of a] x1 x2 dss that(2) by (simp add: a_def)
  have "duel_won a \<Longrightarrow> rs \<noteq> []" using len by (auto simp: duel_won_def a_def)
  moreover have "2 \<le> game_CurrentTurn g \<Longrightarrow> rs \<noteq> []" using n by auto
  ultimately have "game_Status g = duel_status a \<and> (dss \<noteq> [] \<longrightarrow> duel_started a)"
    using ok n won both len unfolding game_ok_def duel_status_def
    by (auto simp: waiting_ok_def running_ok_def finished_ok_def a_def split: option.splits)
  then show ?thesis
    using x1 x2 dss by (intro exI [of _ a]) (simp add: refines_def a_def)
qed

lemma stored_game_is_duel:
  assumes "duel_inv h d" "g \<in> set (db_games d)"
    "digests_differ h (game_ID g) 1" "digests_differ h (game_ID g) 2"
  shows "\<exists>a. stored_duel h d (game_ID g) a"
  using assms game_is_duel [of h "game_guesses d g" g]
  by (auto simp: stored_duel_def duel_inv_def games_inv_def)

subsection \<open>Who guessed, and what was shown\<close>

text \<open>Each guess was made by the player of its turn, and shows how it compares with the other's secret.\<close>

definition played_by_rules :: "game \<Rightarrow> guess list \<Rightarrow> duel \<Rightarrow> bool" where
  "played_by_rules g rs a \<longleftrightarrow> (\<forall>n<length rs.
     guess_PlayerID (rs ! n) = (if even n then game_Player1ID g else game_Player2ID g) \<and>
     map_option (\<lambda>s. JudgeDigits s (duel_moves a ! n)) (target a (if even n then 1 else 2)) =
       Some (guess_DigitResults (rs ! n)))"

lemma refines_played_by_rules:
  assumes log: "game_log_ok h rs g" and ref: "refines h rs g a"
    and differ: "digests_differ h (game_ID g) 1" "digests_differ h (game_ID g) 2"
  shows "played_by_rules g rs a"
  unfolding played_by_rules_def
proof (intro allI impI)
  fix n assume n: "n < length rs"
  have len: "length (duel_moves a) = length rs" by (rule refines_length [OF ref])
  from log n have ok: "guess_ok h g (rs ! n)" and two: "game_Player1ID g \<noteq> game_Player2ID g"
    by (auto simp: game_log_ok_def game_ok_def)
  have "guess_Turn (rs ! n) = map guess_Turn rs ! n" using n by simp
  also have "\<dots> = [1..game_CurrentTurn g - 1] ! n" using log by (simp add: game_log_ok_def)
  also have "\<dots> = int n + 1" using n log_length [OF log] by simp
  finally have player: "guess_PlayerID (rs ! n) = (if even n then game_Player1ID g else game_Player2ID g)"
    using ok by (simp add: guess_ok_def turn_player_def)
  have "duel_started a" using ref len n by (auto simp: refines_def)
  then obtain s1 s2 where s12: "duel_secret1 a = Some s1" "duel_secret2 a = Some s2" by (auto simp: duel_started_def)
  define s where "s = (if even n then s2 else s1)"
  let ?opp = "opponentSecret g (guess_PlayerID (rs ! n))"
  have hash: "four_distinct_digits s" "Hash h s (game_ID g) (snd ?opp) = Inr (fst ?opp)"
    "digests_differ h (game_ID g) (snd ?opp)"
    using ref s12 two differ by (auto simp: s_def opponentSecret_def player refines_def)
  from ok obtain ds where ds: "four_distinct_digits ds" "guess_GuessNumber (rs ! n) = format_digits ds"
    "Verify h (fst ?opp) ds (game_ID g) (snd ?opp) = Inr (guess_DigitResults (rs ! n))"
    unfolding guess_ok_def by blast
  have "map guess_GuessNumber rs ! n = map format_digits (duel_moves a) ! n" using ref by (simp add: refines_def)
  then have "format_digits (duel_moves a ! n) = format_digits ds" using n len ds(2) by simp
  moreover have move: "four_distinct_digits (duel_moves a ! n)" using ref n len by (simp add: refines_def)
  ultimately have "duel_moves a ! n = ds" using ds(1) by (simp add: format_digits_eq)
  with Verify_Hash_judge [OF hash(3,1) ds(1) hash(2)] ds(3) have "guess_DigitResults (rs ! n) = JudgeDigits s (duel_moves a ! n)"
    by simp
  moreover have "target a (if even n then 1 else 2) = Some s" by (simp add: target_def s_def s12)
  ultimately show "guess_PlayerID (rs ! n) = (if even n then game_Player1ID g else game_Player2ID g) \<and>
     map_option (\<lambda>s. JudgeDigits s (duel_moves a ! n)) (target a (if even n then 1 else 2)) =
       Some (guess_DigitResults (rs ! n))" using player by simp
qed

end
