(* ===== verification/Tokens.thy ===== *)
theory Tokens
  imports Auth
begin

text \<open>
  The refresh tokens under the operations of \<open>Auth\<close>: a rotation replaces the token it was given, a
  family never has two usable tokens, and a token that was used once is worth nothing, but ends the
  family when it is shown again.
\<close>

subsection \<open>Updates of the tokens\<close>

lemma update_tokens_success [success_iff]:
  "update_tokens P f w = (Inr n, w') \<longleftrightarrow>
     \<not> w_faults w (w_nio w) \<and> n = int (length (filter P (db_tokens (w_db w)))) \<and>
     w' = w\<lparr>w_nio := Suc (w_nio w),
            w_db := (w_db w)\<lparr>db_tokens := update_rows P f (db_tokens (w_db w))\<rparr>\<rparr>"
  by (auto simp: update_tokens_def dbExec_success)

lemma refreshTokenRepo_Create_success [success_iff]:
  "refreshTokenRepo_Create t w = (Inr x, w') \<longleftrightarrow>
     \<not> w_faults w (w_nio w) \<and> (\<forall>y\<in>set (db_tokens (w_db w)). \<not> token_conflict y t) \<and>
     (w_dialect w = Postgres \<longrightarrow> token_fits t) \<and>
     w' = w\<lparr>w_nio := Suc (w_nio w), w_db := (w_db w)\<lparr>db_tokens := db_tokens (w_db w) @ [t]\<rparr>\<rparr>"
  by (auto simp: refreshTokenRepo_Create_def dbExec_success insert_row_def split: if_splits)

lemma loginLogRepo_Create_success [success_iff]:
  "loginLogRepo_Create l w = (Inr x, w') \<longleftrightarrow>
     \<not> w_faults w (w_nio w) \<and> (\<forall>y\<in>set (db_loginlogs (w_db w)). loginlog_ID y \<noteq> loginlog_ID l) \<and>
     w' = w\<lparr>w_nio := Suc (w_nio w),
            w_db := (w_db w)\<lparr>db_loginlogs := db_loginlogs (w_db w) @ [l]\<rparr>\<rparr>"
  by (auto simp: loginLogRepo_Create_def dbExec_success insert_row_def split: if_splits)

lemma rowsAffected_Inr: "rowsAffected None n = Inr x \<longleftrightarrow> n \<noteq> 0"
  by (simp add: rowsAffected_def)

lemma Issue_success [success_iff]:
  "Issue sv u r t w = (Inr tok, w') \<longleftrightarrow>
     sv_jwtSign sv (sv_jwtSecret sv) \<lparr>cl_Role = Role_string r, cl_Subject = sv_ustr sv u,
        cl_ID = sv_ustr sv (w_ids w (w_nids w)), cl_IssuedAt = Some t,
        cl_ExpiresAt = Some (t + sv_expiryMinutes sv * (60 * second))\<rparr> = Inr tok \<and>
     w' = w\<lparr>w_nids := Suc (w_nids w)\<rparr>"
  by (auto simp: Issue_def success_iff)

lemma Generate_success [success_iff]:
  "Generate sv w = (Inr p, w') \<longleftrightarrow>
     (\<exists>r. w_rand w (w_nrand w) = Some r \<and>
        p = \<lparr>pair_Plaintext = hex_encode (bytes64 r), pair_Hash = RefreshHash sv (hex_encode (bytes64 r))\<rparr>) \<and>
     w' = w\<lparr>w_nrand := Suc (w_nrand w)\<rparr>"
  by (auto simp: Generate_def success_iff Let_def)

lemma revocable_IsActive: "IsActive t n \<Longrightarrow> token_Status t \<noteq> RefreshTokenRevoked \<and> token_RevokedAt t = None"
  by (auto simp: IsActive_def IsRevoked_def)

subsection \<open>The invariant\<close>

definition family_ok :: "refresh_token list \<Rightarrow> bool" where
  "family_ok ts \<longleftrightarrow> (\<forall>t\<in>set ts. \<forall>t'\<in>set ts. token_FamilyID t = token_FamilyID t' \<longrightarrow>
     token_UserID t = token_UserID t' \<and>
     (token_RevokedAt t = None \<longrightarrow> token_RevokedAt t' = None \<longrightarrow> t = t'))"

definition status_ok :: "refresh_token \<Rightarrow> bool" where
  "status_ok t \<longleftrightarrow> token_Status t =
     (if token_RevokedAt t = None then RefreshTokenActive else RefreshTokenRevoked)"

definition token_inv :: "db \<Rightarrow> bool" where
  "token_inv d \<longleftrightarrow> distinct (map token_ID (db_tokens d)) \<and>
     distinct (map token_TokenHash (db_tokens d)) \<and>
     (\<forall>t\<in>set (db_tokens d). status_ok t) \<and> family_ok (db_tokens d)"

lemma token_inv_cong: "db_tokens d = db_tokens d' \<Longrightarrow> token_inv d = token_inv d'"
  by (simp only: token_inv_def)

lemma token_inv_revocable:
  "token_inv d \<Longrightarrow> t \<in> set (db_tokens d) \<Longrightarrow> token_revocable t \<longleftrightarrow> token_RevokedAt t = None"
  by (auto simp: token_inv_def status_ok_def token_revocable_def)

text \<open>A token that is revoked keeps its identity, its hash, its family and its owner.\<close>

definition same_token :: "refresh_token \<Rightarrow> refresh_token \<Rightarrow> bool" where
  "same_token t t' \<longleftrightarrow> token_ID t' = token_ID t \<and> token_TokenHash t' = token_TokenHash t \<and>
     token_FamilyID t' = token_FamilyID t \<and> token_UserID t' = token_UserID t"

lemma token_inv_revoke:
  assumes inv: "token_inv d" and f: "\<And>t. P t \<Longrightarrow> same_token t (f t) \<and> token_RevokedAt (f t) \<noteq> None \<and>
      token_Status (f t) = RefreshTokenRevoked"
  shows "token_inv (d\<lparr>db_tokens := update_rows P f (db_tokens d)\<rparr>)"
proof -
  let ?g = "\<lambda>t. if P t then f t else t" and ?ts = "db_tokens d"
  have same: "same_token t (?g t)" for t using f by (simp add: same_token_def)
  have ids: "map token_ID (map ?g ts) = map token_ID ts" "map token_TokenHash (map ?g ts) = map token_TokenHash ts"
    for ts using same by (auto simp: same_token_def)
  from inv have fam: "family_ok ?ts" by (simp add: token_inv_def)
  have "family_ok (map ?g ?ts)"
    unfolding family_ok_def
  proof (intro ballI impI)
    fix x y
    assume "x \<in> set (map ?g ?ts)" "y \<in> set (map ?g ?ts)" and xy: "token_FamilyID x = token_FamilyID y"
    then obtain t t' where t: "t \<in> set ?ts" "x = ?g t" and t': "t' \<in> set ?ts" "y = ?g t'" by auto
    have "token_FamilyID t = token_FamilyID t'"
      using xy same [of t] same [of t'] unfolding t(2) t'(2) same_token_def by metis
    with fam t(1) t'(1) have "token_UserID t = token_UserID t'"
      "token_RevokedAt t = None \<Longrightarrow> token_RevokedAt t' = None \<Longrightarrow> t = t'"
      unfolding family_ok_def by blast+
    with same [of t] same [of t'] f [of t] f [of t'] show "token_UserID x = token_UserID y \<and>
        (token_RevokedAt x = None \<longrightarrow> token_RevokedAt y = None \<longrightarrow> x = y)"
      unfolding t(2) t'(2) same_token_def by (metis (full_types))
  qed
  moreover have "\<forall>t\<in>set (map ?g ?ts). status_ok t"
    using inv f by (fastforce simp: token_inv_def status_ok_def)
  moreover have "db_tokens (d\<lparr>db_tokens := update_rows P f ?ts\<rparr>) = map ?g ?ts"
    by (simp add: update_rows_def)
  ultimately show ?thesis
    using inv unfolding token_inv_def by (simp only: ids simp_thms)
qed

lemma token_inv_add:
  assumes inv: "token_inv d" and new: "token_RevokedAt t = None" "token_Status t = RefreshTokenActive"
    "\<forall>y\<in>set (db_tokens d). \<not> token_conflict y t"
    and fam: "\<forall>y\<in>set (db_tokens d). token_FamilyID y = token_FamilyID t \<longrightarrow>
      token_UserID y = token_UserID t \<and> token_RevokedAt y \<noteq> None"
    and d': "db_tokens d' = db_tokens d @ [t]"
  shows "token_inv d'"
proof -
  have "distinct (map token_ID (db_tokens d @ [t]))" "distinct (map token_TokenHash (db_tokens d @ [t]))"
    using inv new(3) by (auto simp: token_inv_def token_conflict_def)
  moreover have "family_ok (db_tokens d @ [t])"
    unfolding family_ok_def
  proof (intro ballI impI)
    fix x y
    assume in_ts: "x \<in> set (db_tokens d @ [t])" "y \<in> set (db_tokens d @ [t])"
      and xy: "token_FamilyID x = token_FamilyID y"
    from inv have old: "family_ok (db_tokens d)" by (simp add: token_inv_def)
    from in_ts consider "x = t" "y = t" | "x = t" "y \<in> set (db_tokens d)"
      | "x \<in> set (db_tokens d)" "y = t" | "x \<in> set (db_tokens d)" "y \<in> set (db_tokens d)" by auto
    then show "token_UserID x = token_UserID y \<and>
        (token_RevokedAt x = None \<longrightarrow> token_RevokedAt y = None \<longrightarrow> x = y)"
    proof cases
      case 2
      with fam xy show ?thesis by metis
    next
      case 3
      with fam xy show ?thesis by metis
    next
      case 4
      with old xy show ?thesis unfolding family_ok_def by blast
    qed simp
  qed
  moreover have "\<forall>x\<in>set (db_tokens d @ [t]). status_ok x"
    using inv new by (auto simp: token_inv_def status_ok_def)
  ultimately show ?thesis by (simp add: token_inv_def d')
qed

subsection \<open>Rotation\<close>

lemma filter_token_key:
  assumes inv: "token_inv d" and t: "t \<in> set (db_tokens d)" "token_RevokedAt t = None"
  shows "filter (\<lambda>x. token_ID x = token_ID t \<and> token_revocable x) (db_tokens d) \<noteq> []"
  using t token_inv_revocable [OF inv t(1)] by (auto simp: filter_empty_conv)

text \<open>
  What a rotation that succeeds does: the token it was given is used up and names its replacement,
  which belongs to the same family and the same owner.
\<close>

definition rotated :: "AuthUseCase \<Rightarrow> time \<Rightarrow> refresh_token \<Rightarrow> string \<Rightarrow> db \<Rightarrow> db \<Rightarrow> bool" where
  "rotated a t old plain d d' \<longleftrightarrow>
     (\<exists>new u. token_RevokedAt old = None \<and> t < token_ExpiresAt old \<and>
        first_row user_ID (\<lambda>x. user_ID x = token_UserID old) (db_users d) = Some u \<and> \<not> IsDeleted u \<and>
        (\<forall>y\<in>set (db_tokens d). \<not> token_conflict y new) \<and>
        new = NewRefreshToken (token_ID new) (user_ID u) (RefreshHash (au_Services a) plain)
          (token_FamilyID old) (tokenExpiry a t) t \<and>
        d' = d\<lparr>db_tokens := update_rows (\<lambda>x. token_ID x = token_ID old \<and> token_revocable x)
                 (\<lambda>x. (token_revoke t x)\<lparr>token_ReplacedByTokenID := Some (token_ID new)\<rparr>)
                 (db_tokens d @ [new]),
               db_users := save_row user_ID (u\<lparr>user_LastActivityAt := t, user_UpdatedAt := t\<rparr>)
                 (db_users d)\<rparr>)"

lemma rotateRefreshToken_success:
  assumes "rotateRefreshToken a hash t w = (Inr (access, plain), w')"
  obtains old where "first_row token_ID (\<lambda>x. token_TokenHash x = hash) (db_tokens (w_db w)) = Some old"
    "rotated a t old plain (w_db w) (w_db w')"
proof -
  let ?d = "w_db w"
  from assms obtain old where
      old: "first_row token_ID (\<lambda>x. token_TokenHash x = hash) (db_tokens ?d) = Some old" "IsActive old t"
    by (auto simp: rotateRefreshToken_def success_iff find_defs split: option.splits if_splits)
  from assms old obtain u where
      u: "first_row user_ID (\<lambda>x. user_ID x = token_UserID old) (db_users ?d) = Some u" "\<not> IsDeleted u"
    by (auto simp: rotateRefreshToken_def success_iff find_defs split: option.splits if_splits)
  define i where "i = w_ids w (Suc (w_nids w))"
  let ?new = "NewRefreshToken i (user_ID u) (RefreshHash (au_Services a) plain) (token_FamilyID old)
    (tokenExpiry a t) t"
  from assms old u have fresh: "\<forall>y\<in>set (db_tokens ?d). \<not> token_conflict y ?new" and
    db: "w_db w' = ?d\<lparr>db_tokens := update_rows (\<lambda>x. token_ID x = token_ID old \<and> token_revocable x)
             (\<lambda>x. (token_revoke t x)\<lparr>token_ReplacedByTokenID := Some i\<rparr>) (db_tokens ?d @ [?new]),
           db_users := save_row user_ID (u\<lparr>user_LastActivityAt := t, user_UpdatedAt := t\<rparr>) (db_users ?d)\<rparr>"
    by (auto simp: rotateRefreshToken_def refreshTokenRepo_MarkUsed_def touchUserActivity_def Let_def
        success_iff find_defs i_def NewRefreshToken_def)
  have "token_ID ?new = i" by (simp add: NewRefreshToken_def)
  then have "rotated a t old plain ?d (w_db w')"
    using old(2) u fresh db unfolding rotated_def
    by (intro exI [of _ ?new] exI [of _ u]) (auto simp: IsActive_def IsRevoked_def IsExpired_def)
  with old(1) show thesis by (rule that)
qed

text \<open>The row that replaces an unrevoked one revokes the whole family, because no other row of it was
  in force.\<close>

lemma rotation_retires_family:
  assumes inv: "token_inv d" and old: "old \<in> set (db_tokens d)" "token_RevokedAt old = None"
    and x: "x \<in> set (db_tokens d)" "token_FamilyID x = token_FamilyID old"
  shows "token_UserID x = token_UserID old"
    and "token_RevokedAt x = None \<Longrightarrow> token_ID x = token_ID old \<and> token_revocable x"
proof -
  from inv old x have "token_UserID x = token_UserID old \<and> (token_RevokedAt x = None \<longrightarrow> x = old)"
    unfolding token_inv_def family_ok_def by blast
  then show "token_UserID x = token_UserID old"
    and "token_RevokedAt x = None \<Longrightarrow> token_ID x = token_ID old \<and> token_revocable x"
    using token_inv_revocable [OF inv x(1)] by auto
qed

lemma token_inv_rotated:
  assumes inv: "token_inv d" and old: "old \<in> set (db_tokens d)" and rot: "rotated a t old plain d d'"
  shows "token_inv d'"
proof -
  from rot obtain new u where act: "token_RevokedAt old = None"
    and u: "first_row user_ID (\<lambda>x. user_ID x = token_UserID old) (db_users d) = Some u"
    and fresh: "\<forall>y\<in>set (db_tokens d). \<not> token_conflict y new"
    and new: "new = NewRefreshToken (token_ID new) (user_ID u) (RefreshHash (au_Services a) plain)
          (token_FamilyID old) (tokenExpiry a t) t"
    and d': "db_tokens d' = update_rows (\<lambda>x. token_ID x = token_ID old \<and> token_revocable x)
                 (\<lambda>x. (token_revoke t x)\<lparr>token_ReplacedByTokenID := Some (token_ID new)\<rparr>)
                 (db_tokens d @ [new])"
    unfolding rotated_def by auto
  let ?P = "\<lambda>x. token_ID x = token_ID old \<and> token_revocable x"
  let ?f = "\<lambda>x. (token_revoke t x)\<lparr>token_ReplacedByTokenID := Some (token_ID new)\<rparr>"
  let ?d = "d\<lparr>db_tokens := update_rows ?P ?f (db_tokens d)\<rparr>"
  have owner: "user_ID u = token_UserID old" using first_row_Some [OF u] by simp
  have new_eq: "token_FamilyID new = token_FamilyID old" "token_UserID new = token_UserID old"
    "token_RevokedAt new = None" "token_Status new = RefreshTokenActive"
    by (subst new, simp add: NewRefreshToken_def owner)+
  have ne: "token_ID new \<noteq> token_ID old" using fresh old by (auto simp: token_conflict_def)
  have split: "db_tokens d' = db_tokens ?d @ [new]" using ne by (simp add: d' update_rows_def)
  have inv': "token_inv ?d"
    by (rule token_inv_revoke [OF inv]) (simp add: same_token_def token_revoke_def)
  have ids: "token_ID y \<in> token_ID ` set (db_tokens d) \<and> token_TokenHash y \<in> token_TokenHash ` set (db_tokens d)"
    if "y \<in> set (db_tokens ?d)" for y
    using that old imageI [OF old, of token_ID]
    by (auto simp: update_rows_def token_revoke_def split: if_splits)
  have "token_UserID y = token_UserID new \<and> token_RevokedAt y \<noteq> None"
    if y: "y \<in> set (db_tokens ?d)" "token_FamilyID y = token_FamilyID new" for y
  proof -
    from y(1) obtain x where x: "x \<in> set (db_tokens d)" "y = (if ?P x then ?f x else x)"
      by (auto simp: update_rows_def)
    with y(2) new_eq have "token_FamilyID x = token_FamilyID old"
      by (auto simp: token_revoke_def split: if_splits)
    from rotation_retires_family [OF inv old act x(1) this] show ?thesis
      by (auto simp: x(2) new_eq token_revoke_def)
  qed
  moreover have "\<not> token_conflict y new" if "y \<in> set (db_tokens ?d)" for y
    using ids [OF that] fresh by (auto simp: token_conflict_def)
  ultimately show ?thesis
    by (intro token_inv_add [OF inv' new_eq(3,4) _ _ split]) blast+
qed

subsection \<open>The operations keep the invariant\<close>

lemma token_inv_revocation:
  "token_inv d \<Longrightarrow> token_inv (d\<lparr>db_tokens := update_rows P (token_revoke t) (db_tokens d)\<rparr>)"
  by (rule token_inv_revoke) (simp_all add: same_token_def token_revoke_def)

lemma token_inv_delete:
  assumes "token_inv d"
  shows "token_inv (d\<lparr>db_tokens := delete_rows P (db_tokens d)\<rparr>)"
  using assms by (auto simp: token_inv_def family_ok_def delete_rows_def distinct_map_filter)

lemma token_inv_frame [simp]:
  "token_inv (d\<lparr>db_users := x1\<rparr>) = token_inv d" "token_inv (d\<lparr>db_loginlogs := x2\<rparr>) = token_inv d"
  "token_inv (d\<lparr>db_queue := x3\<rparr>) = token_inv d" "token_inv (d\<lparr>db_actlogs := x4\<rparr>) = token_inv d"
  by (simp_all add: token_inv_def)

lemma keeps_token_updates [keeps_intros]:
  "keeps (\<lambda>w. token_inv (w_db w)) (refreshTokenRepo_RevokeByUserID u t)"
  "keeps (\<lambda>w. token_inv (w_db w)) (refreshTokenRepo_RevokeByFamilyID u t)"
  "keeps (\<lambda>w. token_inv (w_db w)) (refreshTokenRepo_Revoke u t)"
  "keeps (\<lambda>w. token_inv (w_db w)) (refreshTokenRepo_DeleteExpired t)"
  unfolding refreshTokenRepo_RevokeByUserID_def refreshTokenRepo_RevokeByFamilyID_def
    refreshTokenRepo_Revoke_def refreshTokenRepo_DeleteExpired_def update_tokens_def
  by (intro keeps_intros keeps_dbExec; force intro: token_inv_revocation token_inv_delete)+

lemma keeps_createLoginLog:
  assumes "\<And>d l. I d \<Longrightarrow> I (d\<lparr>db_loginlogs := l\<rparr>)"
  shows "keeps (\<lambda>w. I (w_db w)) (createLoginLog u a t)"
  unfolding createLoginLog_def loginLogRepo_Create_def
  by (intro keeps_intros keeps_dbExec) (auto simp: assms split: option.splits)

lemma keeps_touchUserActivity_tokens [keeps_intros]:
  "keeps (\<lambda>w. token_inv (w_db w)) (touchUserActivity u t)"
  unfolding touchUserActivity_def userRepo_Update_def
  by (intro keeps_dbExec) (auto split: if_splits)

text \<open>A transaction whose body keeps the invariant throughout keeps it.\<close>

lemma keeps_WithTx_body:
  assumes "keeps (\<lambda>w. I (w_db w)) m"
  shows "keeps (\<lambda>w. I (w_db w)) (WithTx m)"
  by (rule keeps_WithTx) (metis assms keepsD snd_conv)

lemma keeps_tokens_Refresh: "keeps (\<lambda>w. token_inv (w_db w)) (Refresh a tok)"
proof -
  have rotate: "keeps (\<lambda>w. token_inv (w_db w)) (WithTx (rotateRefreshToken a hash t))" for hash t
  proof (rule keeps_WithTx)
    fix w x w'
    assume inv: "token_inv (w_db w)" and run: "rotateRefreshToken a hash t w = (Inr x, w')"
    obtain access plain where x: "x = (access, plain)" by (cases x)
    from run [unfolded x] show "token_inv (w_db w')"
      by (cases rule: rotateRefreshToken_success) (auto dest!: first_row_Some intro: token_inv_rotated [OF inv])
  qed
  show ?thesis
    unfolding Refresh_def Let_def handleReusedRefreshToken_def revokeExpiredRefreshToken_def
      revokeRefreshTokenFamily_def
    by (intro keeps_intros keeps_WithTx_body rotate)
qed

lemma keeps_tokens_Logout: "keeps (\<lambda>w. token_inv (w_db w)) (Logout a u jti exp)"
  unfolding Logout_def logoutTx_def Revoke_def revokeRefreshTokensByUserID_def
  by (intro keeps_intros keeps_WithTx_body keeps_createLoginLog; simp)

lemma keeps_tokens_Cleanup: "keeps (\<lambda>w. token_inv (w_db w)) (CleanupExpiredRefreshTokens a)"
  unfolding CleanupExpiredRefreshTokens_def Let_def by (intro keeps_intros)

subsection \<open>A token that was used before\<close>

definition no_faults :: "world \<Rightarrow> bool" where
  "no_faults w \<longleftrightarrow> (\<forall>n. \<not> w_faults w n)"

text \<open>\<open>Redis\<close> of the session store is there, or not configured at all.\<close>

definition sessions_configured :: "AuthUseCase \<Rightarrow> bool" where
  "sessions_configured a \<longleftrightarrow> au_WSSessions a \<noteq> Some (Some NilStore)"

lemma SessionStore_DeleteUser_db:
  assumes "ws \<noteq> Some NilStore"
  shows "\<exists>w'. ignoreErr (SessionStore_DeleteUser ws u) w = (Inr (), w') \<and> w_db w' = w_db w"
proof -
  obtain r w' where run: "SessionStore_DeleteUser ws u w = (r, w')" by fastforce
  have "r \<noteq> Inl Panic"
    using run assms
    by (cases ws; cases "map_of (w_hub w) u"; cases "the ws")
      (auto simp: SessionStore_DeleteUser_def Hub_Disconnect_def DeleteUser_def andThen_def
        Let_def rdbCall_eval ret_def split: if_splits)
  moreover have "w_db w' = w_db w"
    using keepsD [OF keeps_sessions(4) [where I = "\<lambda>d. d = w_db w" and r = ws and u = u], of w] run
    by simp
  ultimately show ?thesis using run by (intro exI [of _ w']) (simp add: ignoreErr_success)
qed

lemma Refresh_reused:
  assumes tok: "TrimSpace tok \<noteq> ''''" "no_faults w" "sessions_configured a"
    and old: "first_row token_ID (\<lambda>x. token_TokenHash x = RefreshHash (au_Services a) (TrimSpace tok))
      (db_tokens (w_db w)) = Some old" "token_Status old = RefreshTokenRevoked"
  shows "fst (Refresh a tok w) = Inl ErrUnauthorized"
    "\<exists>t. w_db (snd (Refresh a tok w)) = (w_db w)\<lparr>db_tokens :=
       update_rows (\<lambda>x. token_FamilyID x = token_FamilyID old \<and> token_revocable x) (token_revoke t)
         (db_tokens (w_db w))\<rparr>"
proof -
  let ?t = "w_clock w (w_nclock w)"
  let ?d = "(w_db w)\<lparr>db_tokens :=
       update_rows (\<lambda>x. token_FamilyID x = token_FamilyID old \<and> token_revocable x) (token_revoke ?t)
         (db_tokens (w_db w))\<rparr>"
  have "\<exists>w'. handleReusedRefreshToken a old ?t (w\<lparr>w_nclock := Suc (w_nclock w), w_nio := Suc (w_nio w)\<rparr>)
      = (Inr (), w') \<and> w_db w' = ?d"
  proof -
    let ?w0 = "w\<lparr>w_nclock := Suc (w_nclock w), w_nio := Suc (w_nio w)\<rparr>"
    have "\<exists>w1. WithTx (revokeRefreshTokenFamily (token_FamilyID old) ?t) ?w0 = (Inr (), w1) \<and> w_db w1 = ?d"
      using tok(2) by (simp add: success_iff revokeRefreshTokenFamily_def
          refreshTokenRepo_RevokeByFamilyID_def no_faults_def)
    then obtain w1 where w1: "WithTx (revokeRefreshTokenFamily (token_FamilyID old) ?t) ?w0 = (Inr (), w1)"
      "w_db w1 = ?d" by blast
    show ?thesis
    proof (cases "au_WSSessions a")
      case None
      with w1 show ?thesis by (simp add: handleReusedRefreshToken_def andThen_Inr ret_def)
    next
      case (Some ws)
      with tok(3) have "ws \<noteq> Some NilStore" by (auto simp: sessions_configured_def)
      from SessionStore_DeleteUser_db [OF this, of "token_UserID old" w1] w1 Some show ?thesis
        by (auto simp: handleReusedRefreshToken_def andThen_Inr)
    qed
  qed
  then obtain w' where reused: "handleReusedRefreshToken a old ?t
      (w\<lparr>w_nclock := Suc (w_nclock w), w_nio := Suc (w_nio w)\<rparr>) = (Inr (), w')" "w_db w' = ?d" by blast
  have "Refresh a tok w = (Inl ErrUnauthorized, w')"
    using tok(1,2) old reused(1)
    by (simp add: Refresh_def Let_def andThen_def now_def find_defs dbQuery_eval no_faults_def throw_def)
  with reused(2) show "fst (Refresh a tok w) = Inl ErrUnauthorized"
    "\<exists>t. w_db (snd (Refresh a tok w)) = (w_db w)\<lparr>db_tokens :=
       update_rows (\<lambda>x. token_FamilyID x = token_FamilyID old \<and> token_revocable x) (token_revoke t)
         (db_tokens (w_db w))\<rparr>"
    by auto
qed

text \<open>A refresh that succeeded has used up the token of its argument, in a family of its own.\<close>

lemma Refresh_success:
  assumes run: "Refresh a tok w = (Inr tokens, w')" and inv: "token_inv (w_db w)"
  obtains old t new where "old \<in> set (db_tokens (w_db w))" "token_RevokedAt old = None"
    "token_TokenHash old = RefreshHash (au_Services a) (TrimSpace tok)" "TrimSpace tok \<noteq> ''''"
    "rotated a t old (st_RefreshToken tokens) (w_db w) (w_db w')"
proof -
  from run obtain access t w1 w2 where ne: "TrimSpace tok \<noteq> ''''"
    and rot: "rotateRefreshToken a (RefreshHash (au_Services a) (TrimSpace tok)) t w1
      = (Inr (access, st_RefreshToken tokens), w2)" "w_db w1 = w_db w" "w_db w' = w_db w2"
    by (auto simp: Refresh_def Let_def success_iff find_defs split: if_splits option.splits)
  from rot(1) obtain old where
      found: "first_row token_ID (\<lambda>x. token_TokenHash x = RefreshHash (au_Services a) (TrimSpace tok))
        (db_tokens (w_db w1)) = Some old"
    and step: "rotated a t old (st_RefreshToken tokens) (w_db w1) (w_db w2)"
    by (rule rotateRefreshToken_success)
  from first_row_Some [OF found] step ne show thesis
    by (intro that [of old t]) (auto simp: rot(2,3) rotated_def)
qed

lemma rotated_old_revoked:
  assumes inv: "token_inv d" and old: "old \<in> set (db_tokens d)" and rot: "rotated a t old plain d d'"
  obtains old' where "old' \<in> set (db_tokens d')" "same_token old old'"
    "token_Status old' = RefreshTokenRevoked"
proof -
  from rot obtain new where act: "token_RevokedAt old = None"
    and d': "db_tokens d' = update_rows (\<lambda>x. token_ID x = token_ID old \<and> token_revocable x)
                 (\<lambda>x. (token_revoke t x)\<lparr>token_ReplacedByTokenID := Some (token_ID new)\<rparr>)
                 (db_tokens d @ [new])"
    unfolding rotated_def by auto
  let ?old = "(token_revoke t old)\<lparr>token_ReplacedByTokenID := Some (token_ID new)\<rparr>"
  have "?old \<in> set (db_tokens d')"
    using old token_inv_revocable [OF inv old] act unfolding d' update_rows_def
    by (auto simp: image_iff intro!: bexI [of _ old])
  then show thesis by (rule that) (simp_all add: same_token_def token_revoke_def)
qed

end
