(* ===== verification/Progress.thy ===== *)
theory Progress
  imports Duel Tokens
begin

text \<open>
  Progress: when no call to a server fails, a move the rules allow is accepted. (The other theories say
  what holds when a transaction succeeds.)
\<close>

subsection \<open>The conditions\<close>

text \<open>
  The writes go through: no call fails, identifiers are fresh, and what is written fits its column. PostgreSQL
  refuses a text that is too long, so the rows it holds fit; the hashes of the secrets do only when
  the digests of the hasher are short enough.
\<close>

definition fresh_ids :: "world \<Rightarrow> bool" where
  "fresh_ids w \<longleftrightarrow> (\<forall>n \<ge> w_nids w. \<forall>r\<in>set (db_guesses (w_db w)). guess_ID r \<noteq> w_ids w n) \<and>
     (\<forall>n \<ge> w_nids w. \<forall>r\<in>set (db_histories (w_db w)). history_ID r \<noteq> w_ids w n)"

definition rows_fit :: "db \<Rightarrow> bool" where
  "rows_fit d \<longleftrightarrow> (\<forall>u\<in>set (db_users d). user_fits u) \<and> (\<forall>g\<in>set (db_games d). game_fits g)"

definition writable :: "world \<Rightarrow> bool" where
  "writable w \<longleftrightarrow> no_faults w \<and> (w_dialect w = Postgres \<longrightarrow> rows_fit (w_db w))"

definition hashes_fit :: "hasher \<Rightarrow> uuid \<Rightarrow> world \<Rightarrow> bool" where
  "hashes_fit h gid w \<longleftrightarrow> (w_dialect w = Postgres \<longrightarrow>
     (\<forall>ds slot hash. Hash h ds gid slot = Inr hash \<longrightarrow> varchar 255 hash))"

lemma writable_no_faults: "writable w \<Longrightarrow> \<not> w_faults w n"
  by (simp add: writable_def no_faults_def)

lemma writable_user: "writable w \<Longrightarrow> u \<in> set (db_users (w_db w)) \<Longrightarrow> w_dialect w = Postgres \<Longrightarrow> user_fits u"
  by (simp add: writable_def rows_fit_def)

lemma writable_game: "writable w \<Longrightarrow> g \<in> set (db_games (w_db w)) \<Longrightarrow> w_dialect w = Postgres \<Longrightarrow> game_fits g"
  by (simp add: writable_def rows_fit_def)

text \<open>Only the secrets of a game and the texts of an account are bounded.\<close>

lemma game_fits_same:
  "game_Player1Secret g' = game_Player1Secret g \<Longrightarrow> game_Player2Secret g' = game_Player2Secret g \<Longrightarrow>
     game_fits g' = game_fits g"
  by (simp add: game_fits_def)

lemma user_fits_wins [simp]: "user_fits (u\<lparr>user_WinCount := n, user_UpdatedAt := t\<rparr>) = user_fits u"
  by (simp add: user_fits_def)

lemma user_fits_name: "user_fits u \<Longrightarrow> varchar 50 (user_Username u)"
  by (simp add: user_fits_def)

lemma format_digits_fits: "length ds \<le> 4 \<Longrightarrow> varchar 4 (format_digits ds)"
  using char_count_le_length [of "format_digits ds"] by (simp add: format_digits_def)

lemma Verify_secret:
  assumes "secret_hashed h gid slot s" "s \<noteq> ''''"
  shows "\<exists>rs. Verify h s ds gid slot = Inr rs \<and> length rs = 4"
  using assms Verify_Hash by (fastforce simp: secret_hashed_def)

lemma find_by_key:
  "distinct (map pk t) \<Longrightarrow> r \<in> set t \<Longrightarrow> first_row pk (\<lambda>x. pk x = pk r) t = Some r"
  by (rule first_row_key)

lemma finishGameService_accepted:
  assumes run: "writable w" "u \<noteq> uuid_nil" and g: "game_Status g = GameStatusInProgress" "IsParticipant g u"
      "w_dialect w = Postgres \<Longrightarrow> game_fits g"
    and users: "distinct (map user_ID (db_users (w_db w)))" "x \<in> set (db_users (w_db w))" "user_ID x = u"
      "y \<in> set (db_users (w_db w))" "user_ID y = other_player g u"
    and history: "\<forall>h\<in>set (db_histories (w_db w)). history_ID h \<noteq> w_ids w (w_nids w) \<and> history_GameID h \<noteq> game_ID g"
  shows "\<exists>g'. fst (finishGameService g u t w) = Inr g'"
proof -
  have x: "first_row user_ID (\<lambda>z. user_ID z = u) (db_users (w_db w)) = Some x"
    and y: "first_row user_ID (\<lambda>z. user_ID z = other_player g u) (db_users (w_db w)) = Some y"
    using find_by_key [OF users(1,2)] find_by_key [OF users(1,4)] users(3,5) by simp_all
  have opp: "gameOpponentID g u = Inr (other_player g u)"
    using g(2) by (auto simp: gameOpponentID_def other_player_def IsParticipant_def)
  obtain g' where fin: "finishGame g u t = Inr g'" "game_ID g' = game_ID g" "game_fits g' = game_fits g"
    using g(1,2) by (auto simp: finishGame_Inr game_fits_def)
  have nf: "\<not> w_faults w n" for n using run(1) by (rule writable_no_faults)
  have fit: "w_dialect w = Postgres \<Longrightarrow> user_fits x \<and> game_fits g' \<and>
      varchar 50 (user_Username x) \<and> varchar 50 (user_Username y)"
    using users(2,4) fin(3) g(3) by (blast dest: writable_user [OF run(1)] intro: user_fits_name)
  show ?thesis
    using run(2) history fit
    by (simp add: finishGameService_def run_simps opp mapErr_def find_defs nf x y fin gameRepo_Update_def
        matchHistoryRepo_Create_def insert_row_def incrementUserWinCount_def require_def userRepo_Update_def
        history_fits_def cong: go_congs)
qed

lemma addGameGuess_accepted:
  assumes "CanGuess g u" "IsParticipant g u"
  shows "\<exists>row g'. addGameGuess g u ds rs auto t w = (Inr (row, g'), w\<lparr>w_nids := Suc (w_nids w)\<rparr>) \<and>
    guess_ID row = w_ids w (w_nids w) \<and> guess_GameID row = game_ID g \<and>
    guess_Turn row = game_CurrentTurn g \<and> guess_PlayerID row = u \<and> guess_GuessNumber row = format_digits ds \<and>
    same_game g g' \<and> game_Status g' = game_Status g \<and> game_fits g' = game_fits g"
  using assms by (auto simp: addGameGuess_def CanGuess_def run_simps gameOpponentID_def IsParticipant_def
      same_game_def game_fits_def Let_def)

text \<open>The guess of the current turn conflicts with no row, and a game in progress has no result.\<close>

lemma new_guess_no_conflict:
  assumes log: "game_log_ok h (game_guesses d g) g" and r: "r \<in> set (db_guesses d)" "guess_ID r \<noteq> guess_ID row"
    and row: "guess_GameID row = game_ID g" "guess_Turn row = game_CurrentTurn g"
  shows "\<not> guess_conflict r row"
proof -
  have "guess_Turn r \<noteq> game_CurrentTurn g" if "guess_GameID r = game_ID g"
  proof -
    have "r \<in> set (game_guesses d g)" using that r(1) by (simp add: game_guesses_def)
    then have "guess_Turn r \<in> set [1..game_CurrentTurn g - 1]" using log by (metis game_log_ok_def imageI set_map)
    then show ?thesis by auto
  qed
  with r(2) show ?thesis by (auto simp: guess_conflict_def row)
qed

lemma running_game_no_result:
  assumes inv: "duel_inv h d" and g: "g \<in> set (db_games d)" "game_Status g = GameStatusInProgress"
    and hist: "x \<in> set (db_histories d)"
  shows "history_GameID x \<noteq> game_ID g"
proof
  assume same: "history_GameID x = game_ID g"
  have "history_result x \<in> game_results (db_games d)" using inv hist by (auto simp: duel_inv_def histories_inv_def)
  then obtain g2 where "g2 \<in> set (db_games d)" "game_ID g2 = game_ID g" "game_WinnerID g2 \<noteq> None"
    using same by (auto simp: game_results_def game_result_def history_result_def split: option.splits)
  then have "game_WinnerID g \<noteq> None"
    using inv g(1) by (auto simp: duel_inv_def games_inv_def dest: distinct_key_eq)
  moreover have "game_ok g" using inv g(1) by (auto simp: duel_inv_def games_inv_def game_log_ok_def)
  ultimately show False using g(2) by (simp add: game_ok_running running_ok_def)
qed

text \<open>The game of an accepted guess can be finished.\<close>

lemma guessed_game_finishes:
  assumes inv: "duel_inv h d" and run: "writable w" "u \<noteq> uuid_nil"
    and w: "w_db w = d\<lparr>db_guesses := rows\<rparr>" "\<forall>x\<in>set (db_histories d). history_ID x \<noteq> w_ids w (w_nids w)"
    and g: "g \<in> set (db_games d)" "game_Status g = GameStatusInProgress" "IsParticipant g u"
    and g1: "same_game g g1" "game_Status g1 = GameStatusInProgress" "game_fits g1 = game_fits g"
  shows "\<exists>g'. fst (finishGameService g1 u t w) = Inr g'"
proof -
  have opp: "other_player g1 u = other_player g u" "IsParticipant g (other_player g u)" "IsParticipant g1 u"
    using g1(1) g(3) by (auto simp: other_player_def same_game_def IsParticipant_def)
  have "p \<in> user_ID ` set (db_users d)" if "IsParticipant g p" for p
    using inv g(1) that by (auto simp: duel_inv_def players_inv_def IsParticipant_def)
  from this [OF g(3)] this [OF opp(2)] obtain x y where
    "x \<in> set (db_users (w_db w))" "user_ID x = u" "y \<in> set (db_users (w_db w))" "user_ID y = other_player g1 u"
    by (auto simp: opp(1) w)
  moreover have "\<forall>x\<in>set (db_histories (w_db w)). history_ID x \<noteq> w_ids w (w_nids w) \<and> history_GameID x \<noteq> game_ID g1"
    using running_game_no_result [OF inv g(1,2)] g1(1) w by (auto simp: same_game_def)
  moreover have "distinct (map user_ID (db_users (w_db w)))" using inv by (simp add: w duel_inv_def players_inv_def)
  moreover have "w_dialect w = Postgres \<Longrightarrow> game_fits g1" using writable_game [OF run(1)] g(1) g1(3) by (simp add: w)
  ultimately show ?thesis using finishGameService_accepted [of w u g1] run g1(2) opp(3) by metis
qed

lemma submitGuessTx_accepted:
  assumes inv: "duel_inv (uc_Secrets c) (w_db w)" and run: "writable w" "fresh_ids w" "u \<noteq> uuid_nil"
    and g: "g \<in> set (db_games (w_db w))" "CanGuess g u" "IsParticipant g u" and ds: "length ds \<le> 4"
  shows "\<exists>result finished. fst (submitGuessTx c u (game_ID g) ds auto w) = Inr (result, finished)"
proof -
  let ?d = "w_db w" and ?h = "uc_Secrets c"
  from inv g(1) have log: "game_log_ok ?h (game_guesses ?d g) g"
    and found: "first_row game_ID (\<lambda>x. game_ID x = game_ID g) (db_games ?d) = Some g"
    by (auto simp: duel_inv_def games_inv_def first_row_key)
  from g(2) have status: "game_Status g = GameStatusInProgress" by (simp add: CanGuess_def)
  with log have "BothSecretsSet g" "secrets_ok ?h g" by (simp_all add: game_log_ok_def game_ok_running running_ok_def)
  then have secret: "fst (opponentSecret g u) \<noteq> ''''"
    "secret_hashed ?h (game_ID g) (snd (opponentSecret g u)) (fst (opponentSecret g u))"
    by (auto simp: opponentSecret_def BothSecretsSet_def secrets_ok_def)
  from Verify_secret [OF secret(2,1)] obtain rs where
    rs: "Verify ?h (fst (opponentSecret g u)) ds (game_ID g) (snd (opponentSecret g u)) = Inr rs" by blast
  let ?w1 = "w\<lparr>w_nio := Suc (w_nio w), w_nclock := Suc (w_nclock w)\<rparr>" and ?t = "w_clock w (w_nclock w)"
  obtain row g1 where guess: "addGameGuess g u ds (fill_results rs) auto ?t ?w1 =
      (Inr (row, g1), ?w1\<lparr>w_nids := Suc (w_nids ?w1)\<rparr>)"
    and row: "guess_ID row = w_ids w (w_nids w)" "guess_GameID row = game_ID g" "guess_Turn row = game_CurrentTurn g"
    and number: "guess_GuessNumber row = format_digits ds"
    and g1: "same_game g g1" "game_Status g1 = game_Status g" "game_fits g1 = game_fits g"
    using addGameGuess_accepted [OF g(2,3), of ds "fill_results rs" auto ?t ?w1] by auto
  have nf: "\<not> w_faults w n" for n using run(1) by (rule writable_no_faults)
  have "\<not> guess_conflict r row" if "r \<in> set (db_guesses ?d)" for r
    by (rule new_guess_no_conflict [OF log that _ row(2,3)]) (use run(2) that in \<open>simp add: fresh_ids_def row(1)\<close>)
  then have save: "guessRepo_Create row (?w1\<lparr>w_nids := Suc (w_nids w)\<rparr>) = (Inr (), ?w1\<lparr>w_nids := Suc (w_nids w),
      w_nio := Suc (Suc (w_nio w)), w_db := ?d\<lparr>db_guesses := db_guesses ?d @ [row]\<rparr>\<rparr>)" (is "_ = (_, ?w2)")
    by (simp add: guessRepo_Create_def insert_row_def run_simps nf guess_fits_def number format_digits_fits [OF ds])
  have "\<exists>g'. fst (finishGameService g1 u ?t ?w2) = Inr g'"
    by (rule guessed_game_finishes [OF inv _ run(3) _ _ g(1) status g(3) g1(1)])
      (use run(1,2) status g1(2,3) in \<open>simp_all add: writable_def no_faults_def fresh_ids_def rows_fit_def\<close>)
  then obtain g2 w3 where "finishGameService g1 u ?t ?w2 = (Inr g2, w3)" by (metis prod.collapse)
  moreover have fits: "(w_dialect w = Postgres \<and> \<not> game_fits g1) = False"
    using writable_game [OF run(1) g(1)] g1(3) by simp
  ultimately show ?thesis
    using found g(3) secret(1) rs guess save
    unfolding submitGuessTx_eq
    by (simp add: fits ex_bool_eq run_simps find_defs nf require_def gameRepo_Update_def split: prod.splits sum.splits cong: go_congs)
qed

subsection \<open>A secret is accepted\<close>

definition ownSecret :: "game \<Rightarrow> uuid \<Rightarrow> string" where
  "ownSecret g u = (if u = game_Player1ID g then game_Player1Secret g else game_Player2Secret g)"

lemma setSecretTx_accepted:
  assumes inv: "duel_inv (uc_Secrets c) (w_db w)" and run: "writable w"
    and g: "g \<in> set (db_games (w_db w))" "game_Status g = GameStatusWaitingSecret" "IsParticipant g u"
      "ownSecret g u = ''''"
    and fit: "hashes_fit (uc_Secrets c) (game_ID g) w"
  shows "\<exists>started. fst (setSecretTx c u (game_ID g) ds w) = Inr started"
proof -
  have found: "first_row game_ID (\<lambda>x. game_ID x = game_ID g) (db_games (w_db w)) = Some g"
    using inv g(1) by (auto simp: duel_inv_def games_inv_def first_row_key)
  have nf: "\<not> w_faults w n" for n using run by (rule writable_no_faults)
  obtain hash where hash: "Hash (uc_Secrets c) ds (game_ID g) (if u = game_Player2ID g then 2 else 1) = Inr hash"
    by (simp add: Hash_def)
  obtain g1 where g1: "setGameSecretHash g u hash = Inr g1" "game_Status g1 = GameStatusWaitingSecret"
    using g(2-4) by (auto simp: setGameSecretHash_def ownSecret_def IsParticipant_def split: if_splits)
  have "varchar 255 hash" if "w_dialect w = Postgres" using fit hash that unfolding hashes_fit_def by blast
  with g1(1) writable_game [OF run g(1)] have fits: "(w_dialect w = Postgres \<and> \<not> game_fits g1) = False"
    by (auto simp: game_fits_def elim!: setGameSecretHash_cases)
  have same: "game_fits (g1\<lparr>game_UpdatedAt := t\<rparr>) = game_fits g1" for t by (simp add: game_fits_def)
  have started: "startGame (g1\<lparr>game_UpdatedAt := t1\<rparr>) t2 = Inr x \<Longrightarrow> game_fits x = game_fits g1" for t1 t2 x
    by (auto simp: startGame_Inr game_fits_def)
  obtain g2 where "startGame (g1\<lparr>game_UpdatedAt := t1\<rparr>) t2 = Inr (g2 t1 t2)" if "BothSecretsSet g1" for t1 t2
  proof -
    have "\<exists>x. startGame (g1\<lparr>game_UpdatedAt := t1\<rparr>) t2 = Inr x" if "BothSecretsSet g1" for t1 t2
      using that g1(2) by (simp add: startGame_Inr)
    then show ?thesis using that by metis
  qed
  then show ?thesis
    using found g(2,3) hash g1(1) started
    by (simp add: same fits setSecretTx_def run_simps find_defs nf require_def gameRepo_Update_def secretAllowed_def
        startGameInTx_def Let_def ex_bool_eq cong: go_congs)
qed

end
