(* ===== verification/Matching.thy ===== *)
theory Matching
  imports GameInv
begin

text \<open>
  The matching use case, \<open>usecase/matching.go\<close>: the queue, the choice of two players and the new
  game. The theory ends with its invariants: a new game fits the invariant of the duels, and no
  more than one player waits.
\<close>

subsection \<open>The use case\<close>

record MatchingOutput =
  mo_Status :: string
  mo_GameID :: "uuid option"

definition findActiveGameForUser :: "uuid \<Rightarrow> game option go" where
  "findActiveGameForUser userID =
     andThen (gameRepo_ListByPlayerID userID) (\<lambda>games.
     ret (find (\<lambda>game. active_status (game_Status game)) games))"

definition userWaitingInMatchingQueue :: "uuid \<Rightarrow> bool go" where
  "userWaitingInMatchingQueue userID =
     andThen (matchingQueueRepo_FindByUserID userID) (\<lambda>found.
     case found of
       None \<Rightarrow> ret False
     | Some entry \<Rightarrow> ret (entry_Status entry = MatchingQueueWaiting))"

definition removeQueueEntries :: "uuid list \<Rightarrow> unit go" where
  "removeQueueEntries ids = matchingQueueRepo_DeleteByIDs ids"

definition matchingPlayerReady :: "uuid \<Rightarrow> bool go" where
  "matchingPlayerReady userID =
     andThen (userRepo_FindByID userID) (\<lambda>found.
     case found of
       None \<Rightarrow> ret False
     | Some u \<Rightarrow>
         if IsDeleted u \<or> IsMaster u then ret False
         else andThen (findActiveGameForUser userID) (\<lambda>active. ret (active = None)))"

definition new_game :: "uuid \<Rightarrow> uuid \<Rightarrow> uuid \<Rightarrow> time \<Rightarrow> game" where
  "new_game i p1 p2 t =
     \<lparr>game_ID = i, game_Status = GameStatusWaitingSecret, game_Player1ID = p1, game_Player2ID = p2,
      game_Player1Secret = '''', game_Player2Secret = '''', game_CurrentTurnPlayerID = None,
      game_CurrentTurn = 1, game_WinnerID = None, game_StartedAt = None, game_FinishedAt = None,
      game_CreatedAt = t, game_UpdatedAt = t\<rparr>"

definition matchPlayers :: "game option go" where
  "matchPlayers =
     andThen (matchingQueueRepo_ListByStatusForUpdate MatchingQueueWaiting 2) (\<lambda>entries.
     if length entries < 2 then ret None
     else let p1 = entries ! 0; p2 = entries ! 1 in
       if entry_UserID p1 = entry_UserID p2 then throw ErrBadRequest
       else andThen (matchingPlayerReady (entry_UserID p1)) (\<lambda>ok1.
       if \<not> ok1 then andThen (removeQueueEntries [entry_ID p1]) (\<lambda>_. ret None)
       else andThen (matchingPlayerReady (entry_UserID p2)) (\<lambda>ok2.
       if \<not> ok2 then andThen (removeQueueEntries [entry_ID p2]) (\<lambda>_. ret None)
       else andThen now (\<lambda>t.
       andThen newUUID (\<lambda>gameID.
       let game = new_game gameID (entry_UserID p1) (entry_UserID p2) t in
       andThen (gameRepo_Create game) (\<lambda>_.
       andThen (removeQueueEntries [entry_ID p1, entry_ID p2]) (\<lambda>_.
       ret (Some game))))))))"

text \<open>The transaction of \<open>Start\<close>: it joins the queue and matches.\<close>

definition startMatchingTx :: "uuid \<Rightarrow> time \<Rightarrow> game option go" where
  "startMatchingTx userID t =
     andThen newUUID (\<lambda>entryID.
     andThen (matchingQueueRepo_Insert \<lparr>entry_ID = entryID, entry_UserID = userID,
        entry_Status = MatchingQueueWaiting, entry_CreatedAt = t\<rparr>) (\<lambda>_.
     matchPlayers))"

definition StartMatching :: "bool \<Rightarrow> uuid \<Rightarrow> MatchingOutput go" where
  "StartMatching notifier userID =
     andThen (ensureGamePlayer userID) (\<lambda>_.
     andThen (findActiveGameForUser userID) (\<lambda>active.
     andThen (ensure (active = None) ErrUserInActiveGame) (\<lambda>_.
     andThen (userWaitingInMatchingQueue userID) (\<lambda>waiting.
     andThen (ensure (\<not> waiting) ErrAlreadyInMatching) (\<lambda>_.
     andThen now (\<lambda>t.
     andThen (WithTx (startMatchingTx userID t)) (\<lambda>matched.
     case matched of
       None \<Rightarrow> ret \<lparr>mo_Status = ''waiting'', mo_GameID = None\<rparr>
     | Some game \<Rightarrow>
         andThen (if notifier
           then andThen (ignoreErr (SendToUser (game_Player1ID game) ''MATCHED''
                  [(''gameId'', JUuid (game_ID game))])) (\<lambda>_.
                ignoreErr (SendToUser (game_Player2ID game) ''MATCHED''
                  [(''gameId'', JUuid (game_ID game))]))
           else ret ()) (\<lambda>_.
         ret \<lparr>mo_Status = ''matched'', mo_GameID = Some (game_ID game)\<rparr>))))))))"

definition CancelMatching :: "uuid \<Rightarrow> MatchingOutput go" where
  "CancelMatching userID =
     andThen (WithTx (matchingQueueRepo_DeleteByUserID userID)) (\<lambda>_.
     ret \<lparr>mo_Status = ''cancelled'', mo_GameID = None\<rparr>)"

definition MatchingStatus :: "uuid \<Rightarrow> MatchingOutput go" where
  "MatchingStatus userID =
     andThen (findActiveGameForUser userID) (\<lambda>active.
     case active of
       Some game \<Rightarrow> ret \<lparr>mo_Status = ''matched'', mo_GameID = Some (game_ID game)\<rparr>
     | None \<Rightarrow>
         andThen (userWaitingInMatchingQueue userID) (\<lambda>waiting.
         if waiting then ret \<lparr>mo_Status = ''waiting'', mo_GameID = None\<rparr>
         else ret \<lparr>mo_Status = ''idle'', mo_GameID = None\<rparr>))"

subsection \<open>What the parts do\<close>

lemma findActiveGame_success [success_iff]:
  "findActiveGameForUser u w = (Inr r, w') \<longleftrightarrow>
     \<not> w_faults w (w_nio w) \<and> w' = w\<lparr>w_nio := Suc (w_nio w)\<rparr> \<and>
     r = find (\<lambda>g. active_status (game_Status g))
       (filter (\<lambda>g. game_Player1ID g = u \<or> game_Player2ID g = u) (db_games (w_db w)))"
  by (auto simp: findActiveGameForUser_def gameRepo_ListByPlayerID_def success_iff)

lemma new_game_simps [simp]:
  "game_ID (new_game i p q t) = i" "game_Player1ID (new_game i p q t) = p"
  "game_Player2ID (new_game i p q t) = q" "game_WinnerID (new_game i p q t) = None"
  "game_CurrentTurn (new_game i p q t) = 1" "game_Status (new_game i p q t) = GameStatusWaitingSecret"
  "game_Player1Secret (new_game i p q t) = []" "game_Player2Secret (new_game i p q t) = []"
  by (simp_all add: new_game_def)

lemma new_game_inject [simp]:
  "new_game i p q t = new_game i' p' q' t' \<longleftrightarrow> i = i' \<and> p = p' \<and> q = q' \<and> t = t'"
  by (auto simp: new_game_def)

text \<open>A player is ready to be matched.\<close>

definition player_ready :: "db \<Rightarrow> uuid \<Rightarrow> bool" where
  "player_ready d u \<longleftrightarrow>
     (case first_row user_ID (\<lambda>x. user_ID x = u) (db_users d) of
        None \<Rightarrow> False | Some x \<Rightarrow> CanMatch x) \<and>
     (\<forall>g\<in>set (db_games d). active_status (game_Status g) \<longrightarrow> \<not> IsParticipant g u)"

lemma find_None_iff: "find P xs = None \<longleftrightarrow> (\<forall>x\<in>set xs. \<not> P x)"
  by (induction xs) auto

lemma matchingPlayerReady_success:
  "matchingPlayerReady u w = (Inr ok, w') \<Longrightarrow>
     ok = player_ready (w_db w) u \<and> w_db w' = w_db w \<and> w_ids w' = w_ids w \<and> w_nids w' = w_nids w \<and>
     w_dialect w' = w_dialect w"
  by (auto simp: matchingPlayerReady_def success_iff find_defs player_ready_def CanMatch_def
      IsParticipant_def find_None_iff split: option.splits if_splits)

lemma matchingQueueRepo_Insert_success [success_iff]:
  "matchingQueueRepo_Insert e w = (Inr x, w') \<longleftrightarrow>
     \<not> w_faults w (w_nio w) \<and> (\<forall>y\<in>set (db_queue (w_db w)). entry_ID y \<noteq> entry_ID e) \<and>
     w' = w\<lparr>w_nio := Suc (w_nio w), w_db := (w_db w)\<lparr>db_queue := db_queue (w_db w) @ [e]\<rparr>\<rparr>"
  by (auto simp: matchingQueueRepo_Insert_def dbExec_success insert_row_def split: if_splits)

lemma gameRepo_Create_success [success_iff]:
  "gameRepo_Create g w = (Inr x, w') \<longleftrightarrow>
     \<not> w_faults w (w_nio w) \<and> (\<forall>y\<in>set (db_games (w_db w)). game_ID y \<noteq> game_ID g) \<and>
     (w_dialect w = Postgres \<longrightarrow> game_fits g) \<and>
     w' = w\<lparr>w_nio := Suc (w_nio w), w_db := (w_db w)\<lparr>db_games := db_games (w_db w) @ [g]\<rparr>\<rparr>"
  by (auto simp: gameRepo_Create_def dbExec_success insert_row_def split: if_splits)

lemma removeQueueEntries_success [success_iff]:
  "ids \<noteq> [] \<Longrightarrow> removeQueueEntries ids w = (Inr x, w') \<longleftrightarrow>
     \<not> w_faults w (w_nio w) \<and>
     w' = w\<lparr>w_nio := Suc (w_nio w), w_db := (w_db w)\<lparr>db_queue :=
       delete_rows (\<lambda>e. entry_ID e \<in> set ids) (db_queue (w_db w))\<rparr>\<rparr>"
  by (auto simp: removeQueueEntries_def matchingQueueRepo_DeleteByIDs_def dbExec_success)

text \<open>The waiting entries, the oldest first.\<close>

definition waiting_entries :: "db \<Rightarrow> queue_entry list" where
  "waiting_entries d = sort_key entry_CreatedAt
     (filter (\<lambda>e. entry_Status e = MatchingQueueWaiting) (db_queue d))"

definition match_step :: "db \<Rightarrow> uuid \<Rightarrow> time \<Rightarrow> game option \<Rightarrow> db \<Rightarrow> bool" where
  "match_step d i t res d' \<longleftrightarrow> (case waiting_entries d of
       p1 # p2 # _ \<Rightarrow> entry_UserID p1 \<noteq> entry_UserID p2 \<and>
         (if \<not> player_ready d (entry_UserID p1)
          then res = None \<and> d' = d\<lparr>db_queue := delete_rows (\<lambda>e. entry_ID e = entry_ID p1) (db_queue d)\<rparr>
          else if \<not> player_ready d (entry_UserID p2)
          then res = None \<and> d' = d\<lparr>db_queue := delete_rows (\<lambda>e. entry_ID e = entry_ID p2) (db_queue d)\<rparr>
          else let g = new_game i (entry_UserID p1) (entry_UserID p2) t in
            (\<forall>g\<in>set (db_games d). game_ID g \<noteq> i) \<and> res = Some g \<and>
            d' = d\<lparr>db_games := db_games d @ [g],
                   db_queue := delete_rows (\<lambda>e. entry_ID e = entry_ID p1 \<or> entry_ID e = entry_ID p2)
                     (db_queue d)\<rparr>)
     | _ \<Rightarrow> res = None \<and> d' = d)"

lemma waiting_entries_success [success_iff]:
  "matchingQueueRepo_ListByStatusForUpdate MatchingQueueWaiting 2 w = (Inr es, w') \<longleftrightarrow>
     \<not> w_faults w (w_nio w) \<and> es = take 2 (waiting_entries (w_db w)) \<and> w' = w\<lparr>w_nio := Suc (w_nio w)\<rparr>"
  by (auto simp: matchingQueueRepo_ListByStatusForUpdate_def waiting_entries_def dbQuery_success)

lemma matchPlayers_success:
  assumes "matchPlayers w = (Inr res, w')"
  shows "\<exists>i t. match_step (w_db w) i t res (w_db w')"
proof (cases "waiting_entries (w_db w)")
  case Nil
  with assms show ?thesis by (auto simp: matchPlayers_def success_iff match_step_def)
next
  case (Cons p1 rest)
  show ?thesis
  proof (cases rest)
    case Nil
    with Cons assms show ?thesis by (auto simp: matchPlayers_def success_iff match_step_def)
  next
    case (Cons p2 more)
    with \<open>waiting_entries (w_db w) = p1 # rest\<close>
    have entries: "waiting_entries (w_db w) = p1 # p2 # more" by simp
    with assms show ?thesis
      unfolding match_step_def entries
      by (auto simp: matchPlayers_def success_iff Let_def entries
          split: if_splits dest!: matchingPlayerReady_success)
  qed
qed

subsection \<open>A match and the invariant of the duels\<close>

lemma match_step_cases:
  assumes "match_step d i t res d'"
  obtains "d' = d" "res = None" "length (waiting_entries d) < 2"
  | p where "p \<in> set (take 2 (waiting_entries d))" "\<not> player_ready d (entry_UserID p)" "res = None"
      "d' = d\<lparr>db_queue := delete_rows (\<lambda>e. entry_ID e = entry_ID p) (db_queue d)\<rparr>"
      "2 \<le> length (waiting_entries d)"
  | p1 p2 more where "waiting_entries d = p1 # p2 # more" "entry_UserID p1 \<noteq> entry_UserID p2"
      "player_ready d (entry_UserID p1)" "player_ready d (entry_UserID p2)"
      "\<forall>g\<in>set (db_games d). game_ID g \<noteq> i"
      "res = Some (new_game i (entry_UserID p1) (entry_UserID p2) t)"
      "d' = d\<lparr>db_games := db_games d @ [new_game i (entry_UserID p1) (entry_UserID p2) t],
              db_queue := delete_rows (\<lambda>e. entry_ID e = entry_ID p1 \<or> entry_ID e = entry_ID p2)
                (db_queue d)\<rparr>"
proof (cases "waiting_entries d")
  case Nil
  with assms that(1) show thesis by (simp add: match_step_def)
next
  case (Cons p1 rest)
  show thesis
  proof (cases rest)
    case Nil
    with Cons assms that(1) show thesis by (simp add: match_step_def)
  next
    case (Cons p2 more)
    with \<open>waiting_entries d = p1 # rest\<close> have entries: "waiting_entries d = p1 # p2 # more" by simp
    with assms that(2) [of p1] that(2) [of p2] that(3) [OF entries] show thesis
      by (auto simp: match_step_def Let_def split: if_splits)
  qed
qed

lemma player_ready_user: "player_ready d u \<Longrightarrow> u \<in> user_ID ` set (db_users d)"
  by (auto simp: player_ready_def split: option.splits dest!: first_row_Some)

lemma duels_inv_new_game:
  assumes inv: "duels_inv R h d" and ready: "player_ready d p" "player_ready d q" "p \<noteq> q"
    and fresh: "\<forall>g\<in>set (db_games d). game_ID g \<noteq> i"
  shows "duels_inv R h (d\<lparr>db_games := db_games d @ [new_game i p q t]\<rparr>)" (is "duels_inv R h ?d")
proof -
  let ?g = "new_game i p q t"
  from inv fresh have none: "\<forall>r\<in>set (db_guesses d). guess_GameID r \<noteq> i"
    by (fastforce simp: duels_inv_def games_inv_def)
  have ok: "game_log_ok h [] ?g"
    using ready(3)
    by (simp add: game_log_ok_def game_ok_waiting waiting_ok_def BothSecretsSet_def secrets_ok_def
        secret_hashed_def) (simp add: new_game_def)
  have "games_inv h ?d"
    using inv fresh none ok by (auto simp: duels_inv_def games_inv_def game_guesses_def filter_empty_conv
        cong: filter_cong)
  moreover have "players_inv ?d"
    using inv player_ready_user [OF ready(1)] player_ready_user [OF ready(2)]
    by (auto simp: duels_inv_def players_inv_def)
  moreover have "one_active_inv ?d"
  proof -
    have none: "\<not> IsParticipant g u" if "g \<in> set (db_games d)" "active_status (game_Status g)"
      "IsParticipant ?g u" for g u
      using that ready by (auto simp: player_ready_def IsParticipant_def)
    show ?thesis
      unfolding one_active_inv_def
    proof (intro ballI allI impI)
      fix a b u
      assume in_db: "a \<in> set (db_games ?d)" "b \<in> set (db_games ?d)"
        and ab: "active_status (game_Status a)" "active_status (game_Status b)"
          "IsParticipant a u" "IsParticipant b u"
      from in_db consider "a = ?g" "b = ?g" | "a = ?g" "b \<in> set (db_games d)"
        | "a \<in> set (db_games d)" "b = ?g" | "a \<in> set (db_games d)" "b \<in> set (db_games d)"
        by auto
      then show "game_ID a = game_ID b"
      proof cases
        case 4
        from inv have "one_active_inv d" by (simp add: duels_inv_def)
        with 4 ab show ?thesis unfolding one_active_inv_def by blast
      qed (use none [of b u] none [of a u] ab in blast)+
    qed
  qed
  moreover have "histories_inv ?d"
    using inv by (simp add: duels_inv_def histories_inv_def game_results_def game_result_def)
  moreover have "wins_upto R ?d" using inv by (simp add: duels_inv_def wins_upto_def)
  ultimately show ?thesis by (simp add: duels_inv_def)
qed

lemmas duel_inv_new_game = duels_inv_new_game [where R = "(=)", folded duel_inv_eq]

lemma duels_inv_match_step:
  assumes "match_step d i t res d'" "duels_inv R h d"
  shows "duels_inv R h d'"
  using assms(1)
proof (cases rule: match_step_cases)
  case (3 p1 p2 more)
  from duels_inv_new_game [OF assms(2) 3(3,4,2,5)] show ?thesis by (simp add: 3(7))
qed (simp_all add: assms(2))

lemma startMatchingTx_success:
  assumes "startMatchingTx u t w = (Inr res, w')"
  obtains e i t' where "entry_UserID e = u" "entry_Status e = MatchingQueueWaiting"
    "entry_ID e \<notin> entry_ID ` set (db_queue (w_db w))" "entry_CreatedAt e = t"
    "match_step ((w_db w)\<lparr>db_queue := db_queue (w_db w) @ [e]\<rparr>) i t' res (w_db w')"
proof -
  from assms obtain w1 where run: "matchPlayers w1 = (Inr res, w')" and
    w1: "w_db w1 = (w_db w)\<lparr>db_queue := db_queue (w_db w) @ [\<lparr>entry_ID = w_ids w (w_nids w),
      entry_UserID = u, entry_Status = MatchingQueueWaiting, entry_CreatedAt = t\<rparr>]\<rparr>"
    and fresh: "w_ids w (w_nids w) \<notin> entry_ID ` set (db_queue (w_db w))"
    unfolding startMatchingTx_def by (simp add: success_iff image_iff) force
  from matchPlayers_success [OF run] fresh show thesis
    by (elim exE, intro that) (auto simp: w1)
qed

lemma duels_inv_startMatchingTx:
  assumes "duels_inv R h (w_db w)" "startMatchingTx u t w = (Inr res, w')"
  shows "duels_inv R h (w_db w')"
  using assms(2)
  by (cases rule: startMatchingTx_success) (erule duels_inv_match_step; simp add: assms(1))

lemmas duel_inv_startMatchingTx = duels_inv_startMatchingTx [where R = "(=)", folded duel_inv_eq]

subsection \<open>The queue\<close>

text \<open>The queue holds at most one player, who waits.\<close>

definition queue_inv :: "db \<Rightarrow> bool" where
  "queue_inv d \<longleftrightarrow> length (db_queue d) \<le> 1 \<and>
     (\<forall>e\<in>set (db_queue d). entry_Status e = MatchingQueueWaiting)"

lemma waiting_entries_all:
  "\<forall>e\<in>set (db_queue d). entry_Status e = MatchingQueueWaiting \<Longrightarrow>
   waiting_entries d = sort_key entry_CreatedAt (db_queue d)"
  by (simp add: waiting_entries_def)

lemma queue_inv_startMatchingTx:
  assumes inv: "queue_inv (w_db w)" and run: "startMatchingTx u t w = (Inr res, w')"
  shows "queue_inv (w_db w')"
  using run
proof (cases rule: startMatchingTx_success)
  case (1 e i t')
  let ?d = "(w_db w)\<lparr>db_queue := db_queue (w_db w) @ [e]\<rparr>"
  have waiting: "\<forall>e\<in>set (db_queue ?d). entry_Status e = MatchingQueueWaiting"
    using inv 1(2) by (auto simp: queue_inv_def)
  then have entries: "mset (waiting_entries ?d) = mset (db_queue ?d)"
    "set (waiting_entries ?d) = set (db_queue ?d)"
    "length (waiting_entries ?d) = length (db_queue ?d)"
    by (simp_all add: waiting_entries_all)
  have short: "length (db_queue ?d) \<le> 2" using inv by (simp add: queue_inv_def)
  from 1(5) show ?thesis
  proof (cases rule: match_step_cases)
    case 1
    with entries(3) waiting show ?thesis by (simp add: queue_inv_def)
  next
    case (2 p)
    then have "p \<in> set (db_queue ?d)" using entries(2) by (auto dest: in_set_takeD)
    then have "length (delete_rows (\<lambda>e. entry_ID e = entry_ID p) (db_queue ?d)) < length (db_queue ?d)"
      unfolding delete_rows_def by (intro length_filter_less) auto
    with 2(4) short waiting show ?thesis by (auto simp: queue_inv_def)
  next
    case (3 p1 p2 more)
    then have "set (db_queue ?d) = {p1, p2}"
      using entries short by (cases more) auto
    then have "delete_rows (\<lambda>e. entry_ID e = entry_ID p1 \<or> entry_ID e = entry_ID p2) (db_queue ?d) = []"
      unfolding delete_rows_def filter_empty_conv by (simp only:) blast
    with 3(7) show ?thesis by (simp add: queue_inv_def)
  qed
qed

text \<open>The contract of the matching use case, in the same form.\<close>

locale matching_transactions =
  fixes I :: "db \<Rightarrow> bool"
  assumes match_closed: "I (w_db w) \<Longrightarrow> startMatchingTx u t w = (Inr res, w') \<Longrightarrow> I (w_db w')"
    and leave_closed: "I d \<Longrightarrow> I (d\<lparr>db_queue := delete_rows (\<lambda>e. entry_UserID e = u) (db_queue d)\<rparr>)"
begin

lemma keeps_StartMatching: "keeps (\<lambda>w. I (w_db w)) (StartMatching notifier u)"
  unfolding StartMatching_def findActiveGameForUser_def userWaitingInMatchingQueue_def
  by (intro keeps_intros keeps_WithTx; (rule match_closed)?; assumption)

lemma keeps_CancelMatching: "keeps (\<lambda>w. I (w_db w)) (CancelMatching u)"
  unfolding CancelMatching_def
  by (intro keeps_intros keeps_WithTx)
    (auto simp: matchingQueueRepo_DeleteByUserID_def dbExec_success leave_closed)

lemma keeps_MatchingStatus: "keeps (\<lambda>w. I (w_db w)) (MatchingStatus u)"
  unfolding MatchingStatus_def findActiveGameForUser_def userWaitingInMatchingQueue_def
  by (intro keeps_intros)

end

interpretation match_duels: matching_transactions "duel_inv h" for h
  by unfold_locales (auto elim: duel_inv_startMatchingTx)

interpretation match_queue: matching_transactions queue_inv
proof unfold_locales
  show "queue_inv (w_db w')" if "queue_inv (w_db w)" "startMatchingTx u t w = (Inr res, w')" for w u t res w'
    using that by (rule queue_inv_startMatchingTx)
  show "queue_inv (d\<lparr>db_queue := delete_rows (\<lambda>e. entry_UserID e = u) (db_queue d)\<rparr>)"
    if "queue_inv d" for d u
    using that by (auto simp: queue_inv_def intro: order_trans [OF delete_rows_length])
qed

end
