(* ===== verification/Samples.thy ===== *)
theory Samples
  imports Crypto RedisStore Repos
begin

text \<open>
  Concrete data: libraries simple enough to be evaluated, two accounts and a world in which every
  call succeeds. The witnesses of the properties run the program on it.
\<close>

definition sample_hasher :: hasher where
  "sample_hasher = \<lparr>h_hmac = (\<lambda>k m. [last m]), h_pepper = ''pepper-pepper-pepper-pepper-pepper-pepper'', h_ustr = (\<lambda>u. ''g'')\<rparr>"

definition sample_uuid_text :: "uuid \<Rightarrow> string" where
  "sample_uuid_text u = decimal_nat (unat u)"

definition sample_services :: services where
  "sample_services =
     \<lparr>sv_sha256 = (\<lambda>s. take 2 s), sv_bcryptGenerate = (\<lambda>p n. Inr (p @ ''!'')),
      sv_bcryptCompare = (\<lambda>h p. h = p @ ''!''), sv_jwtSign = (\<lambda>k cl. Inr (cl_Subject cl)),
      sv_jwtParse = (\<lambda>k t s. if s = '''' then JwtInvalid
        else JwtParsed \<lparr>cl_Role = ''user'', cl_Subject = s, cl_ID = ''1'', cl_IssuedAt = Some 0,
                       cl_ExpiresAt = Some (t + second)\<rparr> True),
      sv_jwtSecret = ''secret'', sv_expiryMinutes = 60, sv_ustr = (\<lambda>u. ''u''),
      sv_uparse = (\<lambda>s. Some 1)\<rparr>"

definition sample_user :: "uuid \<Rightarrow> string \<Rightarrow> user" where
  "sample_user i name =
     \<lparr>user_ID = i, user_Username = name, user_Email = name @ ''@example.org'',
      user_PasswordHash = ''password!'', user_Role = RoleUser, user_WinCount = 0,
      user_DeletedAt = None, user_DeletedBy = None, user_LastActivityAt = 0,
      user_CreatedAt = 0, user_UpdatedAt = 0\<rparr>"

definition sample_db :: db where
  "sample_db =
     \<lparr>db_users = [sample_user 1 ''alice'', sample_user 2 ''bob''], db_games = [], db_guesses = [],
      db_histories = [], db_queue = [], db_rankings = [], db_tokens = [], db_actlogs = [],
      db_loginlogs = [], db_wslogs = []\<rparr>"

definition sample_world :: world where
  "sample_world =
     \<lparr>w_db = sample_db, w_redis = [], w_hub = [], w_frames = [], w_closed = {},
      w_clock = (\<lambda>n. int n * second), w_nclock = 0, w_ids = (\<lambda>n. of_nat (100 + n)), w_nids = 0,
      w_rand = (\<lambda>_. Some 0), w_nrand = 0, w_faults = (\<lambda>_. False), w_nio = 0,
      w_dialect = SQLite, w_publicLimiter = newRateLimiter,
      w_userLimiter = newRateLimiter, w_backup = sample_db\<rparr>"

end
