(* ===== verification/Scenario.thy ===== *)
theory Scenario
  imports Progress Matching Samples
begin

text \<open>
  Concrete games for the witnesses: a game that waits for its secrets and one in progress, between
  the accounts of \<open>Samples\<close>, with the hasher of \<open>Samples\<close>.
\<close>

definition sample_uc :: GameUseCase where
  "sample_uc = \<lparr>uc_Secrets = sample_hasher, uc_Locks = None, uc_Turns = None, uc_Random = True,
     uc_Notifier = False, uc_TurnDuration = 30 * second, uc_SecretSetup = 60 * second,
     uc_GameLockTTL = 2 * second\<rparr>"

definition sample_secret :: "int \<Rightarrow> int list \<Rightarrow> string" where
  "sample_secret slot ds =
     join CHR '':'' (map (\<lambda>i. digest sample_hasher 50 slot (int i) (ds ! i)) [0, 1, 2, 3])"

definition sample_waiting :: game where
  "sample_waiting = new_game 50 1 2 0"

text \<open>Player 1 has to find 5678, player 2 has to find 1234, and it is the first turn.\<close>

definition sample_running :: game where
  "sample_running = sample_waiting\<lparr>game_Status := GameStatusInProgress,
     game_Player1Secret := sample_secret 1 [1, 2, 3, 4], game_Player2Secret := sample_secret 2 [5, 6, 7, 8],
     game_CurrentTurnPlayerID := Some 1, game_StartedAt := Some 1\<rparr>"

definition waiting_world :: world where
  "waiting_world = sample_world\<lparr>w_db := sample_db\<lparr>db_games := [sample_waiting]\<rparr>\<rparr>"

definition running_world :: world where
  "running_world = sample_world\<lparr>w_db := sample_db\<lparr>db_games := [sample_running]\<rparr>\<rparr>"

lemmas sample_world_simps = sample_world_def sample_db_def sample_user_def
lemmas scenario_simps = waiting_world_def running_world_def sample_waiting_def sample_running_def
  new_game_def sample_uc_def sample_world_simps

lemma sample_Hash: "Hash sample_hasher ds 50 slot = Inr (sample_secret slot ds)"
  by (simp add: Hash_def sample_secret_def)

lemma sample_secret_not_empty [simp]: "sample_secret slot ds \<noteq> ''''"
  using Hash_not_empty [OF sample_Hash] .

lemma sample_uc_Secrets [simp]: "uc_Secrets sample_uc = sample_hasher"
  by (simp add: sample_uc_def)

subsection \<open>The invariants hold there\<close>

lemma duel_inv_sample_db: "duel_inv h sample_db"
  by (simp add: inv_defs sample_db_def sample_user_def game_results_def won_by_def)

lemma sample_digits: "four_distinct_digits [1, 2, 3, 4]" "four_distinct_digits [5, 6, 7, 8]"
  by (simp_all add: four_distinct_digits_def)

lemma duel_inv_waiting: "duel_inv h (w_db waiting_world)"
proof -
  have "player_ready sample_db 1" "player_ready sample_db 2"
    by (simp_all add: player_ready_def sample_db_def sample_user_def first_row_def CanMatch_def
        IsDeleted_def IsMaster_def)
  then have "duel_inv h (sample_db\<lparr>db_games := db_games sample_db @ [new_game 50 1 2 0]\<rparr>)"
    by (intro duel_inv_new_game duel_inv_sample_db) (simp_all add: sample_db_def)
  then show ?thesis by (simp add: waiting_world_def sample_waiting_def sample_db_def sample_world_def)
qed

lemma duel_inv_running: "duel_inv sample_hasher (w_db running_world)"
proof -
  let ?d = "sample_db\<lparr>db_games := [sample_waiting]\<rparr>"
  have inv: "duel_inv sample_hasher ?d"
    using duel_inv_waiting [of sample_hasher] by (simp add: waiting_world_def sample_world_def)
  have "game_ok sample_running"
    by (simp add: sample_running_def sample_waiting_def new_game_def game_ok_running running_ok_def
        BothSecretsSet_def turn_player_def)
  then have "game_log_ok sample_hasher (game_guesses ?d sample_waiting @ []) sample_running"
    using sample_digits sample_Hash
    by (auto simp: game_log_ok_def secrets_ok_def secret_hashed_def sample_running_def
        sample_waiting_def new_game_def game_guesses_def sample_db_def)
  then have "duel_inv sample_hasher (?d\<lparr>db_games := save_row game_ID sample_running (db_games ?d),
      db_guesses := db_guesses ?d @ []\<rparr>)"
    by (intro duel_inv_save [OF inv, of sample_waiting sample_running "[]"])
      (simp_all add: same_game_def sample_running_def sample_waiting_def new_game_def)
  then show ?thesis
    by (simp add: running_world_def sample_world_def save_row_def sample_running_def
        sample_waiting_def new_game_def sample_db_def)
qed

subsection \<open>The digests of the sample hasher\<close>

text \<open>
  The code of the sample hasher is the last byte of the message, which is the digit: digits are told
  apart.
\<close>

lemma decimal_digit: "0 \<le> d \<Longrightarrow> d \<le> 9 \<Longrightarrow> decimal d = [char_of (nat d + 48)]"
  by (simp add: decimal_def decimal_nat.simps)

lemma hex_encode_single: "hex_encode [c] = [hex_digit (of_char c div 16), hex_digit (of_char c mod 16)]"
  by (simp add: hex_encode_def)

lemma sample_digest:
  assumes "0 \<le> d" "d \<le> 9"
  shows "digest sample_hasher gid slot i d = [CHR ''3'', char_of (nat d + 48)]"
proof -
  define n where "n = nat d"
  have n: "n < 10" using assms by (simp add: n_def)
  then have "(n + 48) div 16 = 3" "(n + 48) mod 16 = n" by presburger+
  moreover have "char_of (3 + 48 :: nat) = CHR ''3''" by code_simp
  ultimately show ?thesis
    using assms n by (simp add: digest_def Let_def sample_hasher_def decimal_digit hex_encode_single
        hex_digit_def of_char_of flip: n_def)
qed

lemma sample_digests_differ: "digests_differ sample_hasher gid slot"
proof -
  have "a = b" if "a \<in> {0..9}" "b \<in> {0..9}"
    "digest sample_hasher gid slot i a = digest sample_hasher gid slot i b" for i a b
  proof -
    from that have "char_of (nat a + 48) = (char_of (nat b + 48) :: char)"
      by (simp add: sample_digest)
    then have "(of_char (char_of (nat a + 48) :: char) :: nat) = of_char (char_of (nat b + 48) :: char)"
      by simp
    moreover have "nat a + 48 < 256" "nat b + 48 < 256" using that by auto
    ultimately have "nat a + 48 = nat b + 48" by (simp add: of_char_of)
    with that show "a = b" by (simp add: eq_nat_nat_iff)
  qed
  then show ?thesis unfolding digests_differ_def by blast
qed

subsection \<open>Progress there\<close>

lemma sample_writable: "writable sample_world" "writable waiting_world" "writable running_world"
  by (simp_all add: writable_def no_faults_def scenario_simps)

text \<open>The same worlds on PostgreSQL, where the hashes of the sample hasher fit.\<close>

abbreviation on_postgres :: "world \<Rightarrow> world" where
  "on_postgres w \<equiv> w\<lparr>w_dialect := Postgres\<rparr>"

lemma sample_secret_size: "char_count (sample_secret slot ds) = 11"
  using char_count_Hash [OF _ sample_Hash, of 1] by (simp add: sample_hasher_def)

lemma sample_hashes_fit: "hashes_fit sample_hasher gid w"
  using char_count_Hash [of sample_hasher 1] by (simp add: hashes_fit_def) (simp add: sample_hasher_def)

lemma sample_postgres:
  "writable (on_postgres waiting_world)" "writable (on_postgres running_world)" "fresh_ids (on_postgres running_world)"
  "fresh_ids (on_postgres waiting_world)"
  by (simp_all add: writable_def no_faults_def rows_fit_def user_fits_def game_fits_def fresh_ids_def scenario_simps
      sample_secret_size) (simp_all add: char_count_def)

lemma sample_fresh: "fresh_ids running_world"
  by (simp add: fresh_ids_def scenario_simps)

lemma running_facts:
  "sample_running \<in> set (db_games (w_db running_world))" "CanGuess sample_running 1"
  "IsParticipant sample_running 1" "game_ID sample_running = 50"
  by (simp_all add: scenario_simps CanGuess_def IsCurrentTurn_def IsParticipant_def)

lemma waiting_facts:
  "sample_waiting \<in> set (db_games (w_db waiting_world))" "game_ID sample_waiting = 50"
  "game_Status sample_waiting = GameStatusWaitingSecret" "IsParticipant sample_waiting 1"
  "ownSecret sample_waiting 1 = []"
  by (simp_all add: scenario_simps ownSecret_def IsParticipant_def)

lemma running_stored: "\<exists>a. stored_duel sample_hasher (w_db running_world) 50 a"
  using stored_game_is_duel [OF duel_inv_running running_facts(1)] sample_digests_differ
  by (simp add: running_facts(4))

lemma waiting_stored: "\<exists>a. stored_duel sample_hasher (w_db waiting_world) 50 a"
  using stored_game_is_duel [OF duel_inv_waiting waiting_facts(1)] sample_digests_differ
  by (simp add: waiting_facts(2))

subsection \<open>Sessions there\<close>

definition sample_auth :: AuthUseCase where
  "sample_auth = \<lparr>au_Services = sample_services, au_JWTRevoker = None, au_WSSessions = None,
     au_RefreshDays = 7, au_CleanupGrace = 0\<rparr>"

definition sample_token :: "uuid \<Rightarrow> string \<Rightarrow> refresh_token" where
  "sample_token i hash = NewRefreshToken i 1 hash 70 (100 * second) 0"

text \<open>The first token of a family was used up, the second one replaced it.\<close>

definition sample_tokens :: "refresh_token list" where
  "sample_tokens = [token_revoke second (sample_token 60 ''61''), sample_token 61 ''62'']"

definition token_world :: world where
  "token_world = sample_world\<lparr>w_db := sample_db\<lparr>db_tokens := sample_tokens\<rparr>\<rparr>"

lemma token_world_inv: "token_inv (w_db token_world)"
  by (simp add: token_world_def token_inv_def sample_tokens_def sample_token_def token_revoke_def
      NewRefreshToken_def status_ok_def family_ok_def sample_world_def)

lemma TrimSpace_a: "TrimSpace ''a'' = ''a''"
proof -
  have "trim_left ws ''a'' = ''a''" if "\<forall>q\<in>set ws. q \<noteq> ''a'' \<and> \<not> (q \<noteq> [] \<and> take (length q) ''a'' = q)" for ws
    using that by (subst trim_left.simps) (auto simp: find_Some_iff split: option.split)
  moreover have "\<forall>q\<in>set white_space. q \<noteq> ''a'' \<and> \<not> (q \<noteq> [] \<and> take (length q) ''a'' = q)"
    "\<forall>q\<in>set (map rev white_space). q \<noteq> ''a'' \<and> \<not> (q \<noteq> [] \<and> take (length q) ''a'' = q)"
    by code_simp+
  ultimately show ?thesis by (simp add: TrimSpace_def)
qed

lemma token_world_facts:
  "no_faults token_world" "sessions_configured sample_auth"
  "token_Status (token_revoke second (sample_token 60 ''61'')) = RefreshTokenRevoked"
  by (simp_all add: no_faults_def token_world_def sample_world_def sessions_configured_def
      sample_auth_def token_revoke_def)

lemma sample_hash_a: "RefreshHash (au_Services sample_auth) (TrimSpace ''a'') = ''61''"
  unfolding TrimSpace_a RefreshHash_def sample_auth_def sample_services_def by simp code_simp

lemma token_world_first:
  "first_row token_ID (\<lambda>x. token_TokenHash x = ''61'') (db_tokens (w_db token_world)) =
     Some (token_revoke second (sample_token 60 ''61''))"
  by (simp add: first_row_def token_world_def sample_tokens_def sample_token_def token_revoke_def
      NewRefreshToken_def sample_world_def)

end
