(* ===== verification/Accounts.thy ===== *)
theory Accounts
  imports Tokens
begin

text \<open>
  The rows of the users under the operations of \<open>Auth\<close>: accounts stay apart (no two share a name or
  an address), and what the duels rely on, that accounts stay and win counts are kept, holds.
\<close>

subsection \<open>Touching and creating an account\<close>

text \<open>The row is saved as it is stored, but for the times of its last activity and update.\<close>

definition touched :: "user \<Rightarrow> time \<Rightarrow> user" where
  "touched u t = u\<lparr>user_LastActivityAt := t, user_UpdatedAt := t\<rparr>"

definition accounts_inv :: "db \<Rightarrow> bool" where
  "accounts_inv d \<longleftrightarrow> distinct (map user_ID (db_users d)) \<and>
     distinct (map user_Username (db_users d)) \<and> distinct (map user_Email (db_users d))"

lemma touched_simps [simp]:
  "user_ID (touched u t) = user_ID u" "user_Username (touched u t) = user_Username u"
  "user_Email (touched u t) = user_Email u" "user_WinCount (touched u t) = user_WinCount u"
  "user_DeletedAt (touched u t) = user_DeletedAt u" "user_Role (touched u t) = user_Role u"
  by (simp_all add: touched_def)

lemma issueSession_success:
  "issueSession a u w = (Inr s, w') \<Longrightarrow>
     \<exists>fam i t. w_db w' = (w_db w)\<lparr>db_tokens := db_tokens (w_db w) @
       [NewRefreshToken i (user_ID u) (RefreshHash (au_Services a) (st_RefreshToken s)) fam (tokenExpiry a t) t]\<rparr> \<and>
       fam = w_ids w (Suc (w_nids w)) \<and>
       (\<forall>y\<in>set (db_tokens (w_db w)). \<not> token_conflict y (NewRefreshToken i (user_ID u)
          (RefreshHash (au_Services a) (st_RefreshToken s)) fam (tokenExpiry a t) t))"
  by (clarsimp simp: issueSession_def Let_def success_iff) blast

text \<open>What it takes for a property of the database to survive the writes to accounts and sessions.\<close>

locale account_contract =
  fixes I :: "db \<Rightarrow> bool"
  assumes touch_closed: "I d \<Longrightarrow> u \<in> set (db_users d) \<Longrightarrow>
      I (d\<lparr>db_users := save_row user_ID (touched u t) (db_users d)\<rparr>)"
    and create_closed: "I d \<Longrightarrow> \<forall>x\<in>set (db_users d). \<not> user_conflict x (new_user i n e p r t) \<Longrightarrow>
      I (d\<lparr>db_users := db_users d @ [new_user i n e p r t]\<rparr>)"
    and tokens_closed: "I d \<Longrightarrow> I (d\<lparr>db_tokens := ts\<rparr>)"
    and logins_closed: "I d \<Longrightarrow> I (d\<lparr>db_loginlogs := ls\<rparr>)"
begin

lemma keeps_Create:
  "keeps (\<lambda>w. I (w_db w)) (userRepo_Create (new_user i n e p r t))"
  unfolding userRepo_Create_def
  by (intro keeps_dbExec) (auto simp: insert_row_def intro: create_closed split: if_splits)

lemma keeps_Register: "keeps (\<lambda>w. I (w_db w)) (Register a n e p)"
  unfolding Register_def Let_def mapped_def emailOrUsernameExists_def
  by (intro keeps_intros keeps_WithTx_body keeps_Create)

lemma keeps_SeedMaster: "keeps (\<lambda>w. I (w_db w)) (SeedMaster a e p)"
  unfolding SeedMaster_def Let_def mapped_def emailOrUsernameExists_def
  by (intro keeps_intros keeps_WithTx_body keeps_Create)

lemma keeps_tokens [keeps_intros]:
  "keeps (\<lambda>w. I (w_db w)) (update_tokens P f)"
  "keeps (\<lambda>w. I (w_db w)) (refreshTokenRepo_DeleteExpired t)"
  "keeps (\<lambda>w. I (w_db w)) (refreshTokenRepo_Create tok)"
  "keeps (\<lambda>w. I (w_db w)) (createLoginLog u act t)"
  unfolding update_tokens_def refreshTokenRepo_DeleteExpired_def refreshTokenRepo_Create_def
  by (intro keeps_dbExec keeps_createLoginLog logins_closed; force intro: tokens_closed)+

lemma logoutTx_closed:
  assumes "I (w_db w)" "logoutTx i t w = (Inr x, w')"
  shows "I (w_db w')"
proof -
  let ?d = "w_db w"
  from assms(2) obtain ts ls where "w_db w' = ?d\<lparr>db_tokens := ts, db_loginlogs := ls\<rparr> \<or>
     (\<exists>u. u \<in> set (db_users ?d) \<and> w_db w' = ?d\<lparr>db_tokens := ts, db_loginlogs := ls,
       db_users := save_row user_ID (touched u t) (db_users ?d)\<rparr>)"
    by (auto simp: logoutTx_def revokeRefreshTokensByUserID_def refreshTokenRepo_RevokeByUserID_def
        createLoginLog_def touchUserActivity_def touched_def success_iff find_defs
        split: option.splits dest!: first_row_Some)
  then show ?thesis
    using touch_closed [of "?d\<lparr>db_tokens := ts, db_loginlogs := ls\<rparr>"]
      logins_closed [OF tokens_closed [OF assms(1)]] by auto
qed

lemma keeps_Logout: "keeps (\<lambda>w. I (w_db w)) (Logout a u jti exp)"
  unfolding Logout_def Revoke_def
  by (intro keeps_intros keeps_WithTx) (rule logoutTx_closed)

lemma rotated_closed:
  assumes "I d" "rotated a t old plain d d'"
  shows "I d'"
proof -
  from assms(2) obtain u ts where
    u: "first_row user_ID (\<lambda>x. user_ID x = token_UserID old) (db_users d) = Some u"
    and d': "d' = d\<lparr>db_tokens := ts, db_users := save_row user_ID (touched u t) (db_users d)\<rparr>"
    unfolding rotated_def touched_def by blast
  from first_row_Some [OF u] touch_closed [OF tokens_closed [OF assms(1)], of u ts t] show ?thesis
    by (simp add: d')
qed

lemma keeps_rotateRefreshToken: "keeps (\<lambda>w. I (w_db w)) (WithTx (rotateRefreshToken a hash t))"
proof (rule keeps_WithTx)
  fix w x w'
  assume inv: "I (w_db w)" and run: "rotateRefreshToken a hash t w = (Inr x, w')"
  obtain access plain where x: "x = (access, plain)" by (cases x)
  from run [unfolded x] show "I (w_db w')"
    by (cases rule: rotateRefreshToken_success) (rule rotated_closed [OF inv])
qed

lemma keeps_revocations:
  "keeps (\<lambda>w. I (w_db w)) (WithTx (revokeRefreshTokenFamily f t))"
  "keeps (\<lambda>w. I (w_db w)) (revokeExpiredRefreshToken i t)"
  unfolding revokeExpiredRefreshToken_def revokeRefreshTokenFamily_def refreshTokenRepo_RevokeByFamilyID_def
    refreshTokenRepo_Revoke_def
  by (intro keeps_intros keeps_WithTx_body)+

lemma keeps_Refresh: "keeps (\<lambda>w. I (w_db w)) (Refresh a tok)"
  unfolding Refresh_def Let_def handleReusedRefreshToken_def
  by (intro keeps_intros keeps_revocations keeps_rotateRefreshToken)

lemma keeps_Cleanup: "keeps (\<lambda>w. I (w_db w)) (CleanupExpiredRefreshTokens a)"
  unfolding CleanupExpiredRefreshTokens_def Let_def by (intro keeps_intros)

text \<open>The row that \<open>Login\<close> saves is the one it read before the transaction.\<close>

lemma loginTx_saves:
  assumes I: "\<And>ls. I ((w_db w)\<lparr>db_loginlogs := ls, db_users := save_row user_ID (touched u t) (db_users (w_db w))\<rparr>)"
    and "loginTx a u t w = (Inr x, w')"
  shows "I (w_db w')"
proof -
  from assms(2) obtain w1 w2 y where
      "createLoginLog (user_ID u) LoginActionLogin t w = (Inr (), w1)"
      "touchUserActivity u t w1 = (Inr (), w2)"
      "issueSession a (touched u t) w2 = (Inr y, w')"
    by (auto simp: loginTx_def touched_def andThen_success)
  note runs = this
  from runs(1) obtain l where w1: "w_db w1 = (w_db w)\<lparr>db_loginlogs := db_loginlogs (w_db w) @ [l]\<rparr>"
    by (auto simp: createLoginLog_def success_iff)
  from runs(2) have w2: "w_db w2 = (w_db w1)\<lparr>db_users := save_row user_ID (touched u t) (db_users (w_db w1))\<rparr>"
    by (auto simp: touchUserActivity_def touched_def success_iff)
  from issueSession_success [OF runs(3)] obtain ts where w': "w_db w' = (w_db w2)\<lparr>db_tokens := ts\<rparr>"
    by blast
  have "I (w_db w2)" using I by (simp add: w1 w2)
  then show ?thesis unfolding w' by (rule tokens_closed)
qed

lemma loginTx_closed:
  assumes "I (w_db w)" "u \<in> set (db_users (w_db w))" "loginTx a u t w = (Inr x, w')"
  shows "I (w_db w')"
  using assms(3) by (rule loginTx_saves [rotated]) (use touch_closed [OF logins_closed [OF assms(1)]] assms(2) in simp)

lemma login_after_find:
  assumes "I (w_db w)" "u \<in> set (db_users (w_db w))"
  shows "I (w_db (snd (andThen now (\<lambda>t. andThen (WithTx (loginTx a u t)) (\<lambda>x. ret (f x))) w)))"
proof -
  let ?t = "w_clock w (w_nclock w)" and ?w = "w\<lparr>w_nclock := Suc (w_nclock w)\<rparr>"
  have "I (w_db (snd (WithTx (loginTx a u ?t) ?w)))"
  proof (rule WithTx_closed)
    show "I (w_db w1)" if "loginTx a u ?t (?w\<lparr>w_nio := Suc (w_nio ?w)\<rparr>) = (Inr x, w1)" for x w1
      using assms by (intro loginTx_closed [OF _ _ that]) simp_all
  qed (use assms in simp)
  then show ?thesis by (simp add: andThen_Inr [OF now_eval] snd_andThen_ret)
qed

lemma findUserByEmailActive_success:
  "findUserByEmailActive e w = (Inr x, w') \<Longrightarrow> w_db w' = w_db w \<and>
     (\<forall>u. x = Some u \<longrightarrow> u \<in> set (db_users (w_db w)) \<and> user_Email u = e \<and> \<not> IsDeleted u)"
  by (auto simp: findUserByEmailActive_def success_iff find_defs split: option.splits if_splits
      dest: first_row_Some)

lemma keeps_Login: "keeps (\<lambda>w. I (w_db w)) (Login a e p)"
proof -
  have find: "keeps (\<lambda>w. I (w_db w)) (findUserByEmailActive e)"
    unfolding findUserByEmailActive_def by (intro keeps_intros)
  show ?thesis
    unfolding Login_def mapped_def
  proof (rule keeps_andThen, rule keeps_intros, rule keeps_intros, rule keeps_andThen,
      rule keeps_intros, rule keeps_intros, rule keeps_andThen_post [OF find])
    fix w x w'
    assume I: "I (w_db w)" and run: "findUserByEmailActive e w = (Inr x, w')"
    note found = findUserByEmailActive_success [OF run]
    show "I (w_db (snd ((case x of None \<Rightarrow> throw ErrUnauthorized | Some u \<Rightarrow>
         if \<not> PasswordVerify (au_Services a) (user_PasswordHash u) p then throw ErrUnauthorized
         else andThen now (\<lambda>t. andThen (WithTx (loginTx a u t)) (\<lambda>tokens.
         ret \<lparr>lr_AccessToken = st_AccessToken tokens, lr_RefreshToken = st_RefreshToken tokens,
              lr_ID = user_ID u, lr_Username = user_Username u,
              lr_Role = Role_string (user_Role u)\<rparr>))) w')))"
    proof (cases x)
      case None
      with I found show ?thesis by (simp add: throw_def)
    next
      case (Some u)
      with found have "u \<in> set (db_users (w_db w'))" "I (w_db w')" using I by simp_all
      then show ?thesis by (simp add: Some throw_def login_after_find)
    qed
  qed
qed

end

subsection \<open>The invariants\<close>

lemma map_save_row_same:
  assumes "distinct (map pk t)" "r \<in> set t" "pk r' = pk r" "f r' = f r"
  shows "map f (save_row pk r' t) = map f t"
proof -
  have "pk r' \<in> pk ` set t" using assms(2,3) by (auto simp: image_iff)
  moreover have "x = r" if "x \<in> set t" "pk x = pk r'" for x
    using that assms(1-3) by (auto dest: distinct_key_eq)
  ultimately show ?thesis using assms(4) by (auto simp: save_row_def)
qed

lemma duel_parts_users [simp]:
  "games_inv h (d\<lparr>db_users := us\<rparr>) = games_inv h d"
  "one_active_inv (d\<lparr>db_users := us\<rparr>) = one_active_inv d"
  "histories_inv (d\<lparr>db_users := us\<rparr>) = histories_inv d"
  by (simp add: games_inv_def game_guesses_def, rule one_active_inv_cong, simp,
      simp add: histories_inv_def)

lemma users_saved:
  assumes "distinct (map user_ID us)" "u \<in> set us" "user_ID u' = user_ID u"
  shows "set (save_row user_ID u' us) = insert u' (set us - {u})"
    "map user_ID (save_row user_ID u' us) = map user_ID us"
  using set_save_row_present [OF assms] assms(2,3)
  by (auto intro!: keys_save_row_present simp: image_iff intro: bexI [of _ u])

text \<open>A row is saved over another one of the same account, whatever its columns were read from.\<close>

lemma duels_inv_save_user:
  assumes inv: "duels_inv R h d" and u: "u \<in> set (db_users d)" "user_ID u' = user_ID u"
    and wins: "R (user_WinCount u') (int (won_by (user_ID u) (db_histories d)))"
  shows "duels_inv R h (d\<lparr>db_users := save_row user_ID u' (db_users d)\<rparr>)" (is "duels_inv R h ?d")
proof -
  from inv have dist: "distinct (map user_ID (db_users d))" by (simp add: duels_inv_def players_inv_def)
  note saved = users_saved [OF dist u]
  have "user_ID ` set (db_users ?d) = user_ID ` set (db_users d)"
    using arg_cong [OF saved(2), of set] by simp
  then have "players_inv ?d"
    using inv dist saved(2) by (simp add: duels_inv_def players_inv_def)
  moreover have "wins_upto R ?d"
    using inv u(2) wins saved(1) unfolding duels_inv_def wins_upto_def by auto
  ultimately show ?thesis using inv by (simp add: duels_inv_def)
qed

lemma duel_inv_save_user:
  assumes inv: "duel_inv h d" and u: "u \<in> set (db_users d)"
    and same: "user_ID u' = user_ID u" "user_WinCount u' = user_WinCount u"
  shows "duel_inv h (d\<lparr>db_users := save_row user_ID u' (db_users d)\<rparr>)"
  using duels_inv_save_user [of "(=)" h d u u'] assms
  by (simp add: duel_inv_eq [symmetric] duel_inv_def wins_inv_def)

lemma duels_inv_create_user:
  assumes inv: "duels_inv R h d" and u: "user_ID u \<notin> user_ID ` set (db_users d)" "R (user_WinCount u) 0"
  shows "duels_inv R h (d\<lparr>db_users := db_users d @ [u]\<rparr>)"
proof -
  have "won_by (user_ID u) (db_histories d) = 0"
  proof -
    have "history_WinnerID hh \<in> user_ID ` set (db_users d)" if "hh \<in> set (db_histories d)" for hh
    proof -
      from inv that have "history_result hh \<in> game_results (db_games d)"
        by (auto simp: duels_inv_def histories_inv_def)
      then obtain g where g: "g \<in> set (db_games d)" "game_WinnerID g = Some (history_WinnerID hh)"
        by (auto simp: game_results_def game_result_def history_result_def split: option.splits)
      with inv have "game_ok g" by (auto simp: duels_inv_def games_inv_def game_log_ok_def)
      with g(2) have "history_WinnerID hh = game_Player1ID g \<or> history_WinnerID hh = game_Player2ID g"
        by (auto simp: game_ok_def waiting_ok_def running_ok_def finished_ok_def turn_player_def
            split: option.splits if_splits)
      with inv g(1) show ?thesis by (auto simp: duels_inv_def players_inv_def)
    qed
    with u(1) have "\<forall>x\<in>set (db_histories d). history_WinnerID x \<noteq> user_ID u" by metis
    then show ?thesis by (simp add: won_by_def filter_empty_conv)
  qed
  with u have "wins_upto R (d\<lparr>db_users := db_users d @ [u]\<rparr>)"
    using inv by (auto simp: duels_inv_def wins_upto_def)
  moreover have "players_inv (d\<lparr>db_users := db_users d @ [u]\<rparr>)"
    using inv u(1) by (auto simp: duels_inv_def players_inv_def)
  ultimately show ?thesis using inv by (simp add: duels_inv_def)
qed

lemmas duel_inv_create_user = duels_inv_create_user [where R = "(=)", folded duel_inv_eq]

lemma duel_inv_logs [simp]:
  "duel_inv h (d\<lparr>db_tokens := ts\<rparr>) = duel_inv h d" "duel_inv h (d\<lparr>db_loginlogs := ls\<rparr>) = duel_inv h d"
  by (rule duel_inv_frame)+

lemma accounts_inv_save:
  assumes inv: "accounts_inv d" and u: "u \<in> set (db_users d)"
    and same: "user_ID u' = user_ID u" "user_Username u' = user_Username u" "user_Email u' = user_Email u"
  shows "accounts_inv (d\<lparr>db_users := save_row user_ID u' (db_users d)\<rparr>)"
proof -
  from inv have dist: "distinct (map user_ID (db_users d))" by (simp add: accounts_inv_def)
  show ?thesis
    using inv same by (simp add: accounts_inv_def map_save_row_same [OF dist u same(1)])
qed

interpretation account_duels: account_contract "duel_inv h" for h
proof unfold_locales
  show "duel_inv h (d\<lparr>db_users := save_row user_ID (touched u t) (db_users d)\<rparr>)"
    if "duel_inv h d" "u \<in> set (db_users d)" for d u t
    by (rule duel_inv_save_user [OF that]) simp_all
  show "duel_inv h (d\<lparr>db_users := db_users d @ [new_user i n e p r t]\<rparr>)"
    if "duel_inv h d" "\<forall>x\<in>set (db_users d). \<not> user_conflict x (new_user i n e p r t)" for d i n e p r t
    using that by (intro duel_inv_create_user) (auto simp: user_conflict_def new_user_def)
qed simp_all

interpretation account_names: account_contract accounts_inv
proof unfold_locales
  show "accounts_inv (d\<lparr>db_users := save_row user_ID (touched u t) (db_users d)\<rparr>)"
    if "accounts_inv d" "u \<in> set (db_users d)" for d u t
    by (rule accounts_inv_save [OF that]) simp_all
  show "accounts_inv (d\<lparr>db_users := db_users d @ [new_user i n e p r t]\<rparr>)"
    if "accounts_inv d" "\<forall>x\<in>set (db_users d). \<not> user_conflict x (new_user i n e p r t)" for d i n e p r t
    using that by (auto simp: accounts_inv_def user_conflict_def new_user_def)
qed (simp_all add: accounts_inv_def)

end
