(* ===== verification/Messages.thy ===== *)
theory Messages
  imports Model
begin

text \<open>
  The texts of the errors (\<open>model/errors.go\<close>, \<open>usecase/errors.go\<close>, \<open>repository/db\_helpers.go\<close>): the
  messages are Japanese, so they are written as their UTF-8 bytes. The text of an error of a driver
  (\<open>ErrIO\<close>) is the driver's, and a panic has none here.
\<close>

definition utf8 :: "nat list \<Rightarrow> string" where
  "utf8 bytes = map char_of bytes"

fun error_text :: "go_error \<Rightarrow> string" where
  "error_text ErrBadUsername =
    utf8 [227, 131, 166, 227, 131, 188, 227, 130, 182, 227, 131, 188, 229, 144, 141, 227, 129,
    175, 51, 227, 128, 156, 53, 48, 230, 150, 135, 229, 173, 151, 227, 129, 174, 229,
    141, 138, 232, 167, 146, 232, 139, 177, 229, 173, 151, 227, 131, 187, 230, 149,
    176, 229, 173, 151, 227, 129, 168, 227, 130, 162, 227, 131, 179, 227, 131, 128,
    227, 131, 188, 227, 130, 185, 227, 130, 179, 227, 130, 162, 227, 129, 174, 227,
    129, 191, 228, 189, 191, 231, 148, 168, 227, 129, 167, 227, 129, 141, 227, 129,
    190, 227, 129, 153]"
| "error_text ErrBadEmail =
    utf8 [227, 131, 161, 227, 131, 188, 227, 131, 171, 227, 130, 162, 227, 131, 137, 227, 131,
    172, 227, 130, 185, 227, 129, 175, 49, 227, 128, 156, 50, 53, 53, 230, 150, 135,
    229, 173, 151, 227, 129, 167, 229, 133, 165, 229, 138, 155, 227, 129, 151, 227,
    129, 166, 227, 129, 143, 227, 129, 160, 227, 129, 149, 227, 129, 132]"
| "error_text ErrWeakPassword =
    utf8 [227, 131, 145, 227, 130, 185, 227, 131, 175, 227, 131, 188, 227, 131, 137, 227, 129,
    175, 56, 230, 150, 135, 229, 173, 151, 228, 187, 165, 228, 184, 138, 229, 191,
    133, 232, 166, 129, 227, 129, 167, 227, 129, 153]"
| "error_text ErrBadLoginEmail =
    utf8 [230, 156, 137, 229, 138, 185, 227, 129, 170, 227, 131, 161, 227, 131, 188, 227, 131,
    171, 227, 130, 162, 227, 131, 137, 227, 131, 172, 227, 130, 185, 227, 130, 146,
    229, 133, 165, 229, 138, 155, 227, 129, 151, 227, 129, 166, 227, 129, 143, 227,
    129, 160, 227, 129, 149, 227, 129, 132]"
| "error_text ErrBadRole =
    utf8 [231, 132, 161, 229, 138, 185, 227, 129, 170, 227, 131, 173, 227, 131, 188, 227, 131,
    171, 227, 129, 167, 227, 129, 153]"
| "error_text ErrBadGameStatus =
    utf8 [231, 132, 161, 229, 138, 185, 227, 129, 170, 227, 130, 178, 227, 131, 188, 227, 131,
    160, 231, 138, 182, 230, 133, 139, 227, 129, 167, 227, 129, 153]"
| "error_text ErrBadDigit =
    utf8 [230, 149, 176, 229, 173, 151, 227, 129, 174, 227, 129, 191, 229, 133, 165, 229, 138,
    155, 227, 129, 167, 227, 129, 141, 227, 129, 190, 227, 129, 153]"
| "error_text ErrBadDigitLength =
    utf8 [52, 230, 161, 129, 227, 129, 174, 230, 149, 176, 229, 173, 151, 227, 130, 146, 229,
    133, 165, 229, 138, 155, 227, 129, 151, 227, 129, 166, 227, 129, 143, 227, 129,
    160, 227, 129, 149, 227, 129, 132]"
| "error_text ErrDuplicateDigit =
    utf8 [233, 135, 141, 232, 164, 135, 227, 129, 151, 227, 129, 170, 227, 129, 132, 52, 230,
    161, 129, 227, 130, 146, 229, 133, 165, 229, 138, 155, 227, 129, 151, 227, 129,
    166, 227, 129, 143, 227, 129, 160, 227, 129, 149, 227, 129, 132]"
| "error_text ErrBadMatchingStatus =
    utf8 [231, 132, 161, 229, 138, 185, 227, 129, 170, 227, 131, 158, 227, 131, 131, 227, 131,
    129, 227, 131, 179, 227, 130, 176, 227, 130, 173, 227, 131, 165, 227, 131, 188,
    231, 138, 182, 230, 133, 139, 227, 129, 167, 227, 129, 153]"
| "error_text ErrBadLoginAction =
    utf8 [231, 132, 161, 229, 138, 185, 227, 129, 170, 227, 131, 173, 227, 130, 176, 227, 130,
    164, 227, 131, 179, 230, 147, 141, 228, 189, 156, 227, 129, 167, 227, 129, 153]"
| "error_text ErrBadRefreshToken =
    utf8 [231, 132, 161, 229, 138, 185, 227, 129, 170, 227, 131, 170, 227, 131, 149, 227, 131,
    172, 227, 131, 131, 227, 130, 183, 227, 131, 165, 227, 131, 136, 227, 131, 188,
    227, 130, 175, 227, 131, 179, 231, 138, 182, 230, 133, 139, 227, 129, 167, 227,
    129, 153]"
| "error_text ErrUnauthorized =
    utf8 [232, 170, 141, 232, 168, 188, 227, 129, 171, 229, 164, 177, 230, 149, 151, 227, 129,
    151, 227, 129, 190, 227, 129, 151, 227, 129, 159]"
| "error_text ErrForbidden =
    utf8 [227, 130, 162, 227, 130, 175, 227, 130, 187, 227, 130, 185, 227, 129, 140, 231, 166,
    129, 230, 173, 162, 227, 129, 149, 227, 130, 140, 227, 129, 166, 227, 129, 132,
    227, 129, 190, 227, 129, 153]"
| "error_text ErrNotFound =
    utf8 [232, 166, 139, 227, 129, 164, 227, 129, 139, 227, 130, 138, 227, 129, 190, 227, 129,
    155, 227, 130, 147]"
| "error_text ErrNotYourTurn =
    utf8 [227, 129, 130, 227, 129, 170, 227, 129, 159, 227, 129, 174, 227, 130, 191, 227, 131,
    188, 227, 131, 179, 227, 129, 167, 227, 129, 175, 227, 129, 130, 227, 130, 138,
    227, 129, 190, 227, 129, 155, 227, 130, 147]"
| "error_text ErrGameNotStarted =
    utf8 [227, 130, 178, 227, 131, 188, 227, 131, 160, 227, 129, 140, 233, 150, 139, 229, 167,
    139, 227, 129, 149, 227, 130, 140, 227, 129, 166, 227, 129, 132, 227, 129, 190,
    227, 129, 155, 227, 130, 147]"
| "error_text ErrGameAlreadyFinished =
    utf8 [227, 130, 178, 227, 131, 188, 227, 131, 160, 227, 129, 175, 230, 151, 162, 227, 129,
    171, 231, 181, 130, 228, 186, 134, 227, 129, 151, 227, 129, 166, 227, 129, 132,
    227, 129, 190, 227, 129, 153]"
| "error_text ErrGameAlreadyStarted =
    utf8 [227, 130, 178, 227, 131, 188, 227, 131, 160, 227, 129, 175, 230, 151, 162, 227, 129,
    171, 233, 150, 139, 229, 167, 139, 227, 129, 149, 227, 130, 140, 227, 129, 166,
    227, 129, 132, 227, 129, 190, 227, 129, 153]"
| "error_text ErrDuplicateUser =
    utf8 [227, 131, 166, 227, 131, 188, 227, 130, 182, 227, 131, 188, 229, 144, 141, 227, 129,
    190, 227, 129, 159, 227, 129, 175, 227, 131, 161, 227, 131, 188, 227, 131, 171,
    227, 130, 162, 227, 131, 137, 227, 131, 172, 227, 130, 185, 227, 129, 140, 230,
    151, 162, 227, 129, 171, 228, 189, 191, 231, 148, 168, 227, 129, 149, 227, 130,
    140, 227, 129, 166, 227, 129, 132, 227, 129, 190, 227, 129, 153]"
| "error_text ErrUserInActiveGame =
    utf8 [230, 151, 162, 227, 129, 171, 233, 128, 178, 232, 161, 140, 228, 184, 173, 227, 129,
    174, 227, 130, 178, 227, 131, 188, 227, 131, 160, 227, 129, 140, 227, 129, 130,
    227, 130, 138, 227, 129, 190, 227, 129, 153]"
| "error_text ErrAlreadyInMatching =
    utf8 [230, 151, 162, 227, 129, 171, 227, 131, 158, 227, 131, 131, 227, 131, 129, 227, 131,
    179, 227, 130, 176, 229, 190, 133, 230, 169, 159, 228, 184, 173, 227, 129, 167,
    227, 129, 153]"
| "error_text ErrUserAlreadyDeleted =
    utf8 [227, 131, 166, 227, 131, 188, 227, 130, 182, 227, 131, 188, 227, 129, 175, 230, 151,
    162, 227, 129, 171, 229, 137, 138, 233, 153, 164, 227, 129, 149, 227, 130, 140,
    227, 129, 166, 227, 129, 132, 227, 129, 190, 227, 129, 153]"
| "error_text ErrCannotDeleteSelf =
    utf8 [232, 135, 170, 229, 136, 134, 232, 135, 170, 232, 186, 171, 227, 129, 175, 229, 137,
    138, 233, 153, 164, 227, 129, 167, 227, 129, 141, 227, 129, 190, 227, 129, 155,
    227, 130, 147]"
| "error_text ErrCannotDeleteMaster =
    utf8 [231, 174, 161, 231, 144, 134, 232, 128, 133, 227, 131, 166, 227, 131, 188, 227, 130,
    182, 227, 131, 188, 227, 129, 175, 229, 137, 138, 233, 153, 164, 227, 129, 167,
    227, 129, 141, 227, 129, 190, 227, 129, 155, 227, 130, 147]"
| "error_text ErrRateLimitExceeded =
    utf8 [230, 147, 141, 228, 189, 156, 227, 129, 140, 229, 164, 154, 227, 129, 153, 227, 129,
    142, 227, 129, 190, 227, 129, 153, 227, 128, 130, 227, 129, 151, 227, 129, 176,
    227, 130, 137, 227, 129, 143, 229, 190, 133, 227, 129, 163, 227, 129, 166, 227,
    129, 143, 227, 129, 160, 227, 129, 149, 227, 129, 132, 227, 128, 130]"
| "error_text ErrTokenExpired =
    utf8 [227, 130, 162, 227, 130, 175, 227, 130, 187, 227, 130, 185, 227, 131, 136, 227, 131,
    188, 227, 130, 175, 227, 131, 179, 227, 129, 174, 230, 156, 137, 229, 138, 185,
    230, 156, 159, 233, 153, 144, 227, 129, 140, 229, 136, 135, 227, 130, 140, 227,
    129, 166, 227, 129, 132, 227, 129, 190, 227, 129, 153]"
| "error_text ErrInternal =
    utf8 [227, 130, 181, 227, 131, 188, 227, 131, 144, 227, 131, 188, 229, 134, 133, 233, 131,
    168, 227, 130, 168, 227, 131, 169, 227, 131, 188, 227, 129, 140, 231, 153, 186,
    231, 148, 159, 227, 129, 151, 227, 129, 190, 227, 129, 151, 227, 129, 159]"
| "error_text ErrBadRequest =
    utf8 [227, 131, 170, 227, 130, 175, 227, 130, 168, 227, 130, 185, 227, 131, 136, 227, 129,
    140, 228, 184, 141, 230, 173, 163, 227, 129, 167, 227, 129, 153]"
| "error_text RepoErrNotFound =
    utf8 [232, 166, 139, 227, 129, 164, 227, 129, 139, 227, 130, 138, 227, 129, 190, 227, 129,
    155, 227, 130, 147]"
| "error_text (ErrText s) = s"

text \<open>The message the WebSocket handler sends before the authentication (\<open>websocket/handler.go\<close>).\<close>

definition auth_required_text :: string where
  "auth_required_text = utf8 [232, 170, 141, 232, 168, 188, 227, 129, 140, 229, 191, 133, 232, 166, 129, 227, 129,
    167, 227, 129, 153]"

text \<open>How the histories name an action (\<open>controller/presenter.go\<close>).\<close>

fun loginActionLabel :: "LoginAction \<Rightarrow> string" where
  "loginActionLabel LoginActionLogin = utf8 [227, 131, 173, 227, 130, 176, 227, 130, 164, 227, 131, 179]"
| "loginActionLabel LoginActionLogout = utf8 [227, 131, 173, 227, 130, 176, 227, 130, 162, 227, 130, 166, 227, 131, 136]"
| "loginActionLabel LoginActionAutoLogout = utf8 [232, 135, 170, 229, 139, 149, 227, 131, 173, 227, 130, 176, 227, 130, 162, 227, 130,
    166, 227, 131, 136]"
| "loginActionLabel (OtherLoginAction s) = s"

end
