(* ===== verification/AutoLogout.thy ===== *)
theory AutoLogout
  imports Accounts Messages
begin

text \<open>
  The automatic logout of inactive users: \<open>usecase/auto\_logout.go\<close> and \<open>worker/auto\_logout.go\<close>.
\<close>

subsection \<open>The use case\<close>

text \<open>
  \<open>ForceDisconnect\<close> is \<open>nil\<close> or the function \<open>main.go\<close> gives, which disconnects through a session
  store; \<open>Now\<close> is \<open>nil\<close> or, once the worker has set it, a function that returns one time.
\<close>

record AutoLogoutUseCase =
  al_ForceLogout :: "store option"
  al_ForceDisconnect :: "store option option"
  al_SessionTimeout :: duration
  al_Now :: "time option"

definition AutoLogout_now :: "AutoLogoutUseCase \<Rightarrow> time go" where
  "AutoLogout_now a = (case al_Now a of None \<Rightarrow> now | Some t \<Rightarrow> ret t)"

definition forceDisconnect :: "store option \<Rightarrow> uuid \<Rightarrow> unit go" where
  "forceDisconnect redis userID =
     DisconnectWithError redis userID ''unauthorized'' (error_text ErrUnauthorized)"

definition logoutUserTx :: "uuid \<Rightarrow> time \<Rightarrow> unit go" where
  "logoutUserTx userID t =
     andThen (revokeRefreshTokensByUserID userID t) (\<lambda>_.
     andThen (createLoginLog userID LoginActionAutoLogout t) (\<lambda>_.
     andThen (userRepo_FindByID userID) (\<lambda>found.
     case found of
       None \<Rightarrow> ret ()
     | Some u \<Rightarrow> if \<not> IsDeleted u
         then userRepo_Update (u\<lparr>user_LastActivityAt := t, user_UpdatedAt := t\<rparr>)
         else ret ())))"

definition logoutUser :: "AutoLogoutUseCase \<Rightarrow> uuid \<Rightarrow> time \<Rightarrow> unit go" where
  "logoutUser a userID t =
     andThen (case al_ForceLogout a of None \<Rightarrow> ret () | Some s \<Rightarrow> SetForceLogoutBefore s userID t) (\<lambda>_.
     andThen (case al_ForceDisconnect a of
         None \<Rightarrow> ret () | Some redis \<Rightarrow> ignoreErr (forceDisconnect redis userID)) (\<lambda>_.
     WithTx (logoutUserTx userID t)))"

definition AutoLogout_Run :: "AutoLogoutUseCase \<Rightarrow> unit go" where
  "AutoLogout_Run a =
     (if al_SessionTimeout a \<le> 0 then ret ()
      else andThen (AutoLogout_now a) (\<lambda>t.
      let before = t - al_SessionTimeout a in
      andThen (userRepo_ListInactiveSince before) (\<lambda>users.
      forEach users (\<lambda>u. logoutUser a (user_ID u) t))))"

text \<open>
  A tick of the worker sets \<open>Now\<close> when it is \<open>nil\<close>, and the use case keeps it: the second component
  is the use case afterwards.
\<close>

definition AutoLogoutWorker_tick :: "AutoLogoutUseCase \<Rightarrow> time \<Rightarrow> AutoLogoutUseCase go" where
  "AutoLogoutWorker_tick a t =
     (let a = (if al_Now a = None then a\<lparr>al_Now := Some t\<rparr> else a) in
      andThen (ignoreErr (AutoLogout_Run a)) (\<lambda>_. ret a))"

text \<open>The loop of \<open>Run\<close>: one tick for every time the ticker delivers.\<close>

fun AutoLogoutWorker_ticks :: "AutoLogoutUseCase \<Rightarrow> time list \<Rightarrow> AutoLogoutUseCase go" where
  "AutoLogoutWorker_ticks a [] = ret a"
| "AutoLogoutWorker_ticks a (t # ts) =
     andThen (AutoLogoutWorker_tick a t) (\<lambda>a. AutoLogoutWorker_ticks a ts)"

subsection \<open>The time stands still\<close>

lemma AutoLogoutWorker_tick_Now:
  "AutoLogoutWorker_tick a t w = (Inr a', w') \<Longrightarrow>
     a' = a\<lparr>al_Now := Some (case al_Now a of None \<Rightarrow> t | Some t0 \<Rightarrow> t0)\<rparr>"
  by (auto simp: AutoLogoutWorker_tick_def Let_def success_iff split: if_splits option.splits)

lemma AutoLogoutWorker_ticks_Now:
  "AutoLogoutWorker_ticks (a\<lparr>al_Now := Some t0\<rparr>) ts w = (Inr a', w') \<Longrightarrow> a' = a\<lparr>al_Now := Some t0\<rparr>"
proof (induction ts arbitrary: w)
  case (Cons t ts)
  then obtain a1 w1 where tick: "AutoLogoutWorker_tick (a\<lparr>al_Now := Some t0\<rparr>) t w = (Inr a1, w1)"
    and rest: "AutoLogoutWorker_ticks a1 ts w1 = (Inr a', w')"
    by (auto simp: andThen_success)
  from AutoLogoutWorker_tick_Now [OF tick] have "a1 = a\<lparr>al_Now := Some t0\<rparr>" by simp
  with rest show ?case using Cons.IH by simp
qed (simp add: ret_success)

subsection \<open>Invariants\<close>

lemma keeps_forcedLogout [keeps_intros]:
  "keeps (\<lambda>w. I (w_db w)) (SetForceLogoutBefore s u t)"
  "keeps (\<lambda>w. I (w_db w)) (GetForceLogoutBefore s u)"
  "keeps (\<lambda>w. I (w_db w)) (AutoLogout_now a)"
  "keeps (\<lambda>w. I (w_db w)) (forceDisconnect r u)"
proof -
  show "keeps (\<lambda>w. I (w_db w)) (SetForceLogoutBefore s u t)"
    unfolding SetForceLogoutBefore_def by (rule keeps_rdbCall)
  show "keeps (\<lambda>w. I (w_db w)) (GetForceLogoutBefore s u)"
    unfolding GetForceLogoutBefore_def
    by (rule keeps_andThen, rule keeps_rdbCall) (auto intro: keeps_ret keeps_throw split: option.split rval.split)
  show "keeps (\<lambda>w. I (w_db w)) (AutoLogout_now a)"
    unfolding AutoLogout_now_def by (intro keeps_intros)
  show "keeps (\<lambda>w. I (w_db w)) (forceDisconnect r u)"
    unfolding forceDisconnect_def by (intro keeps_intros)
qed

context account_contract
begin

lemma logoutUserTx_closed:
  assumes "I (w_db w)" "logoutUserTx i t w = (Inr x, w')"
  shows "I (w_db w')"
proof -
  let ?d = "w_db w"
  from assms(2) obtain ts ls where "w_db w' = ?d\<lparr>db_tokens := ts, db_loginlogs := ls\<rparr> \<or>
     (\<exists>u. u \<in> set (db_users ?d) \<and> w_db w' = ?d\<lparr>db_tokens := ts, db_loginlogs := ls,
       db_users := save_row user_ID (touched u t) (db_users ?d)\<rparr>)"
    by (auto simp: logoutUserTx_def revokeRefreshTokensByUserID_def refreshTokenRepo_RevokeByUserID_def
        createLoginLog_def touched_def success_iff find_defs
        split: option.splits if_splits dest!: first_row_Some)
  then show ?thesis
    using touch_closed [of "?d\<lparr>db_tokens := ts, db_loginlogs := ls\<rparr>"]
      logins_closed [OF tokens_closed [OF assms(1)]] by auto
qed

lemma keeps_AutoLogout_Run: "keeps (\<lambda>w. I (w_db w)) (AutoLogout_Run a)"
  unfolding AutoLogout_Run_def logoutUser_def Let_def
  by (intro keeps_intros keeps_WithTx) (rule logoutUserTx_closed)

lemma keeps_AutoLogoutWorker_ticks: "keeps (\<lambda>w. I (w_db w)) (AutoLogoutWorker_ticks a ts)"
  by (induction a ts rule: AutoLogoutWorker_ticks.induct)
    (auto simp: AutoLogoutWorker_tick_def Let_def intro!: keeps_intros keeps_AutoLogout_Run)

end

subsection \<open>An inactive user is logged out\<close>

lemma logoutUserTx_success:
  assumes "logoutUserTx i t w = (Inr x, w')"
  shows "db_tokens (w_db w') = update_rows (\<lambda>r. token_UserID r = i \<and> token_revocable r)
      (token_revoke t) (db_tokens (w_db w))"
    "\<exists>n. db_loginlogs (w_db w') = db_loginlogs (w_db w) @ [\<lparr>loginlog_ID = n, loginlog_UserID = i,
       loginlog_Action = LoginActionAutoLogout, loginlog_CreatedAt = t, loginlog_UpdatedAt = t\<rparr>]"
  using assms
  by (auto simp: logoutUserTx_def revokeRefreshTokensByUserID_def refreshTokenRepo_RevokeByUserID_def
      createLoginLog_def success_iff find_defs split: option.splits if_splits)

text \<open>No usable session of the user is left.\<close>

lemma logoutUserTx_sessions:
  assumes "logoutUserTx i t w = (Inr x, w')" "r \<in> set (db_tokens (w_db w'))" "token_UserID r = i"
  shows "\<not> token_revocable r"
proof -
  from assms(2) obtain r0 where r0: "r0 \<in> set (db_tokens (w_db w))"
    and r: "r = (if token_UserID r0 = i \<and> token_revocable r0 then token_revoke t r0 else r0)"
    by (auto simp: logoutUserTx_success(1) [OF assms(1)] update_rows_def)
  then show ?thesis
    using assms(3) by (auto simp: token_revocable_def token_revoke_def split: if_splits)
qed

end
