(* ===== verification/WebSocket.thy ===== *)
theory WebSocket
  imports AutoLogout Matching
begin

text \<open>
  The WebSocket side of the program: the authentication use case \<open>usecase/ws\_auth.go\<close>, the error
  codes \<open>websocket/errors.go\<close> and the handler \<open>websocket/handler.go\<close>, whose loop is split into its
  steps: what one message does, what the end of the connection does, and the timer that closes a
  connection which has not authenticated.
\<close>

subsection \<open>The authentication use case\<close>

record WSAuthUseCase =
  wa_Services :: services
  wa_Revoker :: "store option"
  wa_ForceLogout :: "store option"
  wa_Notifier :: bool

definition checkRevoked :: "store option \<Rightarrow> string \<Rightarrow> unit go" where
  "checkRevoked revoker jti = (case revoker of
     None \<Rightarrow> ret ()
   | Some s \<Rightarrow> andThen (IsRevoked_jti s jti) (\<lambda>revoked. ensure (\<not> revoked) ErrUnauthorized))"

definition checkForcedLogout :: "store option \<Rightarrow> uuid \<Rightarrow> time \<Rightarrow> unit go" where
  "checkForcedLogout forceLogout userID issuedAt = (case forceLogout of
     None \<Rightarrow> ret ()
   | Some s \<Rightarrow>
       if issuedAt = zero_time then ret ()
       else andThen (GetForceLogoutBefore s userID) (\<lambda>before.
         ensure (\<not> (before \<noteq> zero_time \<and> issuedAt < before)) ErrUnauthorized))"

definition Authenticate :: "WSAuthUseCase \<Rightarrow> string \<Rightarrow> uuid go" where
  "Authenticate a token =
     (if token = '''' then throw ErrUnauthorized
      else andThen (Parse (wa_Services a) token) (\<lambda>parsed.
      andThen (checkRevoked (wa_Revoker a) (at_JTI parsed)) (\<lambda>_.
      andThen (checkForcedLogout (wa_ForceLogout a) (at_UserID parsed) (at_IssuedAt parsed)) (\<lambda>_.
      andThen (userRepo_FindByID (at_UserID parsed)) (\<lambda>found. case found of
        None \<Rightarrow> throw ErrUnauthorized
      | Some u \<Rightarrow> if IsDeleted u then throw ErrUnauthorized else ret (at_UserID parsed))))))"

definition notifyOpponent :: "WSAuthUseCase \<Rightarrow> uuid \<Rightarrow> bool \<Rightarrow> unit go" where
  "notifyOpponent a userID connected =
     andThen (attempt (findActiveGameForUser userID)) (\<lambda>res. case res of
       Inr (Some active) \<Rightarrow>
         if \<not> wa_Notifier a then ret ()
         else (case gameOpponentID active userID of
           Inl _ \<Rightarrow> ret ()
         | Inr opponentID \<Rightarrow> ignoreErr (SendToUser opponentID ''OPPONENT_STATUS''
             [(''gameId'', JUuid (game_ID active)), (''playerId'', JUuid userID),
              (''connected'', JBool connected)]))
     | _ \<Rightarrow> ret ())"

definition NotifyOpponentConnected :: "WSAuthUseCase \<Rightarrow> uuid \<Rightarrow> unit go" where
  "NotifyOpponentConnected a userID = notifyOpponent a userID True"

definition NotifyOpponentDisconnected :: "WSAuthUseCase \<Rightarrow> uuid \<Rightarrow> unit go" where
  "NotifyOpponentDisconnected a userID = notifyOpponent a userID False"

definition RecordConnection :: "uuid \<Rightarrow> string \<Rightarrow> uuid go" where
  "RecordConnection userID connectionID =
     andThen now (\<lambda>t.
     andThen newUUID (\<lambda>logID.
     andThen (wsConnectionLogRepo_Create \<lparr>wslog_ID = logID, wslog_UserID = userID,
       wslog_ConnectionID = connectionID, wslog_ConnectedAt = t, wslog_DisconnectedAt = None\<rparr>) (\<lambda>_.
     ret logID)))"

text \<open>The row is read and saved without a transaction; its errors are dropped.\<close>

definition TouchActivity :: "uuid \<Rightarrow> unit go" where
  "TouchActivity userID = ignoreErr (
     andThen (userRepo_FindByID userID) (\<lambda>found. case found of
       None \<Rightarrow> ret ()
     | Some u \<Rightarrow>
         if IsDeleted u then ret ()
         else andThen now (\<lambda>t. userRepo_Update (u\<lparr>user_LastActivityAt := t, user_UpdatedAt := t\<rparr>))))"

definition CloseConnectionLog :: "uuid \<Rightarrow> unit go" where
  "CloseConnectionLog logID =
     (if logID = uuid_nil then ret ()
      else andThen now (\<lambda>t. ignoreErr (wsConnectionLogRepo_UpdateDisconnected logID t)))"

subsection \<open>Error codes\<close>

definition ws_conflicts :: "go_error list" where
  "ws_conflicts = [ErrDuplicateUser, ErrUserInActiveGame, ErrAlreadyInMatching, ErrGameNotStarted,
     ErrGameAlreadyFinished, ErrNotYourTurn, ErrGameAlreadyStarted]"

definition ws_validations :: "go_error list" where
  "ws_validations = [ErrBadRequest, ErrBadUsername, ErrBadEmail, ErrBadLoginEmail, ErrWeakPassword,
     ErrBadDigit, ErrBadDigitLength, ErrDuplicateDigit]"

definition wsErrorCode :: "go_error \<Rightarrow> string \<times> string" where
  "wsErrorCode e =
     (if e = ErrUnauthorized then (''unauthorized'', error_text e)
      else if e = ErrTokenExpired then (''token_expired'', error_text e)
      else if e = ErrForbidden then (''forbidden'', error_text e)
      else if e = ErrNotFound then (''not_found'', error_text e)
      else if e \<in> set ws_conflicts then (''conflict'', error_text e)
      else if e = ErrRateLimitExceeded then (''rate_limit_exceeded'', error_text e)
      else if e \<in> set ws_validations then (''validation_error'', error_text e)
      else (''internal_error'', error_text ErrInternal))"

subsection \<open>The handler\<close>

record Handler =
  hd_WSAuth :: WSAuthUseCase
  hd_Game :: GameUseCase
  hd_Allowed :: "string list"
  hd_Redis :: "store option"
  hd_JWTMin :: int

record clientMsg =
  msg_Type :: string
  msg_GameID :: string
  msg_SecretNumber :: string
  msg_GuessNumber :: string

text \<open>The variables of one connection; \<open>wc_authCh\<close> says that \<open>authCh\<close> holds its token.\<close>

record wsConn =
  wc_conn :: nat
  wc_connID :: string
  wc_userID :: uuid
  wc_wsLogID :: uuid
  wc_authCh :: bool

definition CheckOrigin :: "string list \<Rightarrow> string \<Rightarrow> bool" where
  "CheckOrigin allowed origin \<longleftrightarrow> allowed = [] \<or> origin = '''' \<or> origin \<in> set allowed"

text \<open>
  \<open>strings.ToUpper\<close>, as far as it reaches ASCII: besides the small letters, the dotless i (U+0131)
  and the long s (U+017F) become ASCII letters; no other character does.
\<close>

fun ToUpper :: "string \<Rightarrow> string" where
  "ToUpper (a # b # s) =
     (if a = CHR 0xC4 \<and> b = CHR 0xB1 then CHR ''I'' # ToUpper s
      else if a = CHR 0xC5 \<and> b = CHR 0xBF then CHR ''S'' # ToUpper s
      else (if CHR ''a'' \<le> a \<and> a \<le> CHR ''z'' then char_of (of_char a - 32 :: nat) else a) # ToUpper (b # s))"
| "ToUpper [a] = [if CHR ''a'' \<le> a \<and> a \<le> CHR ''z'' then char_of (of_char a - 32 :: nat) else a]"
| "ToUpper [] = []"

definition writeJSON :: "nat \<Rightarrow> json_value \<Rightarrow> unit go" where
  "writeJSON k v = WriteMessage k v"

definition writeError :: "nat \<Rightarrow> string \<Rightarrow> string \<Rightarrow> unit go" where
  "writeError k code message = ignoreErr (writeJSON k
     (JObj [(''type'', JStr ''ERROR''), (''data'', JObj [(''code'', JStr code), (''message'', JStr message)])]))"

definition writeUseCaseError :: "nat \<Rightarrow> go_error \<Rightarrow> unit go" where
  "writeUseCaseError k e = (case wsErrorCode e of (code, msg) \<Rightarrow> writeError k code msg)"

definition sendUseCaseError :: "uuid \<Rightarrow> go_error \<Rightarrow> unit go" where
  "sendUseCaseError userID e = (case wsErrorCode e of (code, msg) \<Rightarrow> SendError userID code msg)"

text \<open>
  A message before the connection has a user: only \<open>AUTH\<close> is answered, with the token of the
  cookie. The user is set before the connection is recorded.
\<close>

definition handleAuth :: "Handler \<Rightarrow> string \<Rightarrow> string \<Rightarrow> wsConn \<Rightarrow> wsConn go" where
  "handleAuth h token msgType c =
     (if msgType \<noteq> ''AUTH''
      then andThen (writeError (wc_conn c) ''unauthorized'' auth_required_text) (\<lambda>_. ret c)
      else andThen (attempt (Authenticate (hd_WSAuth h) token)) (\<lambda>out. case out of
        Inl e \<Rightarrow> andThen (writeUseCaseError (wc_conn c) e) (\<lambda>_. ret c)
      | Inr userID \<Rightarrow>
          andThen (attempt (RecordConnection userID (wc_connID c))) (\<lambda>rec. case rec of
            Inl e \<Rightarrow> andThen (writeUseCaseError (wc_conn c) e) (\<lambda>_.
              ret (c\<lparr>wc_userID := userID, wc_wsLogID := uuid_nil\<rparr>))
          | Inr wsLogID \<Rightarrow>
              andThen (Hub_Register userID (wc_connID c) (Some (wc_conn c))) (\<lambda>_.
              andThen (case hd_Redis h of
                  None \<Rightarrow> ret ()
                | Some s \<Rightarrow> ignoreErr (SetUser s userID (wc_connID c)
                    (hd_JWTMin h * (60 * second)))) (\<lambda>_.
              andThen (ignoreErr (writeJSON (wc_conn c) (JObj [(''type'', JStr ''AUTH_OK''),
                (''data'', JObj [(''userId'', JUuid userID)])]))) (\<lambda>_.
              andThen (NotifyOpponentConnected (hd_WSAuth h) userID) (\<lambda>_.
              ret (c\<lparr>wc_userID := userID, wc_wsLogID := wsLogID, wc_authCh := True\<rparr>))))))))"

text \<open>The events that name a game: its identifier is parsed first.\<close>

definition gameEvent :: "Handler \<Rightarrow> uuid \<Rightarrow> string \<Rightarrow> (uuid \<Rightarrow> unit go) \<Rightarrow> unit go" where
  "gameEvent h userID gameID event =
     andThen (TouchActivity userID) (\<lambda>_.
     case sv_uparse (wa_Services (hd_WSAuth h)) gameID of
       None \<Rightarrow> SendError userID ''validation_error'' ''invalid gameId''
     | Some g \<Rightarrow> andThen (attempt (event g)) (\<lambda>res. case res of
         Inl e \<Rightarrow> sendUseCaseError userID e
       | Inr _ \<Rightarrow> ret ()))"

definition handleEvent :: "Handler \<Rightarrow> string \<Rightarrow> clientMsg \<Rightarrow> wsConn \<Rightarrow> unit go" where
  "handleEvent h msgType msg c =
     (let userID = wc_userID c in
      if msgType = ''PING'' then
        andThen (TouchActivity userID) (\<lambda>_.
        ignoreErr (writeJSON (wc_conn c) (JObj [(''type'', JStr ''PONG'')])))
      else if msgType = ''SET_SECRET'' then
        gameEvent h userID (msg_GameID msg) (\<lambda>g. SetSecretNumber (hd_Game h) userID g (msg_SecretNumber msg))
      else if msgType = ''GUESS'' then
        gameEvent h userID (msg_GameID msg) (\<lambda>g. SubmitGuess (hd_Game h) userID g (msg_GuessNumber msg) False)
      else if msgType = ''SYNC_REQUEST'' then
        gameEvent h userID (msg_GameID msg) (\<lambda>g.
          andThen (SyncGameState (hd_Game h) userID g) (\<lambda>_. ret ()))
      else SendError userID ''validation_error'' ''unknown event type'')"

text \<open>One message: \<open>None\<close> when it is not the JSON of a message, which is skipped.\<close>

definition handleMessage :: "Handler \<Rightarrow> string \<Rightarrow> clientMsg option \<Rightarrow> wsConn \<Rightarrow> wsConn go" where
  "handleMessage h cookie raw c = (case raw of
     None \<Rightarrow> ret c
   | Some msg \<Rightarrow>
       let msgType = ToUpper (TrimSpace (msg_Type msg)) in
       if wc_userID c = uuid_nil then handleAuth h cookie msgType c
       else andThen (handleEvent h msgType msg c) (\<lambda>_. ret c))"

definition onDisconnect :: "Handler \<Rightarrow> uuid \<Rightarrow> uuid \<Rightarrow> unit go" where
  "onDisconnect h userID wsLogID =
     andThen (Hub_Disconnect userID) (\<lambda>_.
     andThen (case hd_Redis h of
         None \<Rightarrow> ret () | Some s \<Rightarrow> ignoreErr (DeleteUser s userID)) (\<lambda>_.
     andThen (CloseConnectionLog wsLogID) (\<lambda>_.
     NotifyOpponentDisconnected (hd_WSAuth h) userID)))"

text \<open>Reading failed: the loop ends and the deferred \<open>Close\<close> runs.\<close>

definition handleEnd :: "Handler \<Rightarrow> wsConn \<Rightarrow> unit go" where
  "handleEnd h c =
     andThen (if wc_userID c \<noteq> uuid_nil then onDisconnect h (wc_userID c) (wc_wsLogID c) else ret ()) (\<lambda>_ w.
     (Inr (), conn_Close (wc_conn c) w))"

text \<open>Five seconds after the start: a connection that has not authenticated is closed.\<close>

definition authTimer :: "wsConn \<Rightarrow> unit go" where
  "authTimer c = (\<lambda>w. (Inr (), if wc_authCh c then w else conn_Close (wc_conn c) w))"

subsection \<open>Invariants\<close>

lemma keeps_wsChecks [keeps_intros]:
  "keeps (\<lambda>w. I (w_db w)) (checkRevoked r jti)" "keeps (\<lambda>w. I (w_db w)) (checkForcedLogout f u t)"
  unfolding checkRevoked_def checkForcedLogout_def IsRevoked_jti_def by (intro keeps_intros)+

lemma keeps_Parse [keeps_intros]: "keeps (\<lambda>w. I (w_db w)) (Parse sv tok)"
  unfolding Parse_def by (intro keeps_intros)

lemma keeps_Authenticate [keeps_intros]: "keeps (\<lambda>w. I (w_db w)) (Authenticate a tok)"
  unfolding Authenticate_def by (intro keeps_intros)

lemma keeps_notifyOpponent [keeps_intros]:
  "keeps (\<lambda>w. I (w_db w)) (notifyOpponent a u b)"
  "keeps (\<lambda>w. I (w_db w)) (NotifyOpponentConnected a u)"
  "keeps (\<lambda>w. I (w_db w)) (NotifyOpponentDisconnected a u)"
  unfolding NotifyOpponentConnected_def NotifyOpponentDisconnected_def notifyOpponent_def
    findActiveGameForUser_def
  by (intro keeps_intros keeps_case_sum)+

lemma keeps_writes [keeps_intros]:
  "keeps (\<lambda>w. I (w_db w)) (writeJSON k v)" "keeps (\<lambda>w. I (w_db w)) (writeError k co m)"
  "keeps (\<lambda>w. I (w_db w)) (writeUseCaseError k e)" "keeps (\<lambda>w. I (w_db w)) (sendUseCaseError u e)"
  unfolding writeUseCaseError_def sendUseCaseError_def writeError_def writeJSON_def
  by (intro keeps_intros)+

lemma keeps_connection [keeps_intros]:
  "keeps (\<lambda>w. I (w_db w)) (authTimer c)" "keeps (\<lambda>w. I (w_db w)) (\<lambda>w. (Inr (), conn_Close k w))"
  by (simp_all add: keeps_def authTimer_def conn_Close_def)

context account_contract
begin

lemma keeps_TouchActivity: "keeps (\<lambda>w. I (w_db w)) (TouchActivity u)"
  unfolding TouchActivity_def
proof (rule keeps_ignoreErr, rule keeps_andThen_post)
  show "keeps (\<lambda>w. I (w_db w)) (userRepo_FindByID u)" by (intro keeps_intros)
  fix w found w'
  assume I: "I (w_db w)" and run: "userRepo_FindByID u w = (Inr found, w')"
  from run have db: "w_db w' = w_db w" and row: "\<forall>x. found = Some x \<longrightarrow> x \<in> set (db_users (w_db w))"
    by (auto simp: success_iff find_defs dest: first_row_Some)
  show "I (w_db (snd ((case found of None \<Rightarrow> ret () | Some x \<Rightarrow> if IsDeleted x then ret ()
      else andThen now (\<lambda>t. userRepo_Update (x\<lparr>user_LastActivityAt := t, user_UpdatedAt := t\<rparr>))) w')))"
  proof (cases found)
    case (Some x)
    with row I have "I ((w_db w)\<lparr>db_users := save_row user_ID (touched x t) (db_users (w_db w))\<rparr>)" for t
      by (intro touch_closed) auto
    then show ?thesis
      using I by (simp add: Some db andThen_run now_eval bindr_simps ret_def userRepo_Update_def
          dbExec_eval touched_def)
  qed (simp add: db I ret_def)
qed

end

text \<open>What a message preserves, in terms of what the duels and the accounts preserve.\<close>

locale ws_contract = duel_transactions c I + account_contract I
  for c :: GameUseCase and I :: "db \<Rightarrow> bool" +
  assumes wslogs_closed: "I d \<Longrightarrow> I (d\<lparr>db_wslogs := ls\<rparr>)"
begin

lemma keeps_wslogs [keeps_intros]:
  "keeps (\<lambda>w. I (w_db w)) (RecordConnection u k)" "keeps (\<lambda>w. I (w_db w)) (CloseConnectionLog i)"
  unfolding RecordConnection_def CloseConnectionLog_def wsConnectionLogRepo_Create_def
    wsConnectionLogRepo_UpdateDisconnected_def
  by (intro keeps_intros keeps_dbExec; auto intro: wslogs_closed)+

lemma keeps_handleMessage:
  assumes "hd_Game h = c"
  shows "keeps (\<lambda>w. I (w_db w)) (handleMessage h cookie raw conn)"
proof -
  have "keeps (\<lambda>w. I (w_db w)) (handleEvent h ty msg conn)" for ty msg
    unfolding handleEvent_def gameEvent_def Let_def assms
    by (intro keeps_intros keeps_case_sum keeps_TouchActivity keeps_SetSecretNumber keeps_SubmitGuess
        keeps_SyncGameState)
  then show ?thesis
    unfolding handleMessage_def handleAuth_def Let_def
    by (intro keeps_intros keeps_case_sum)
qed

lemma keeps_handleEnd: "keeps (\<lambda>w. I (w_db w)) (handleEnd h conn)"
  unfolding handleEnd_def onDisconnect_def by (intro keeps_intros)

end

interpretation ws_duels: ws_contract c "duel_inv (uc_Secrets c)" for c
  by unfold_locales simp

end
