(* ===== verification/Strconv.thy ===== *)
theory Strconv
  imports Crypto
begin

text \<open>
  What the program uses of \<open>strconv\<close> and \<open>strings\<close> to read numbers and settings.
\<close>

subsection \<open>Integers\<close>

text \<open>\<open>strconv.Atoi\<close>: a sign or none, decimal digits, and a value that fits in 64 bits.\<close>

definition ascii_digit :: "char \<Rightarrow> bool" where
  "ascii_digit c \<longleftrightarrow> CHR ''0'' \<le> c \<and> c \<le> CHR ''9''"

definition digits_value :: "string \<Rightarrow> int" where
  "digits_value ds = foldl (\<lambda>n c. 10 * n + (int (of_char c) - 48)) 0 ds"

definition Atoi :: "string \<Rightarrow> int option" where
  "Atoi s =
     (let neg = (s \<noteq> [] \<and> hd s = CHR ''-'');
          ds = (if s \<noteq> [] \<and> (hd s = CHR ''-'' \<or> hd s = CHR ''+'') then tl s else s) in
      if ds = [] \<or> \<not> list_all ascii_digit ds then None
      else let v = (if neg then - digits_value ds else digits_value ds) in
        if - (2 ^ 63) \<le> v \<and> v < 2 ^ 63 then Some v else None)"

lemma digits_value_snoc: "digits_value (ds @ [c]) = 10 * digits_value ds + (int (of_char c) - 48)"
  by (simp add: digits_value_def)

lemma decimal_nat_digits: "list_all ascii_digit (decimal_nat n) \<and> decimal_nat n \<noteq> [] \<and> digits_value (decimal_nat n) = int n"
proof (induction n rule: decimal_nat.induct)
  case (1 n)
  have digit: "ascii_digit (char_of (m + 48)) \<and> int (of_char (char_of (m + 48))) - 48 = int m"
    if "m < 10" for m :: nat
    using that by (auto simp: ascii_digit_def less_eq_char_def of_char_of)
  show ?case
  proof (cases "n < 10")
    case True
    then show ?thesis using digit [of n] by (simp add: decimal_nat.simps digits_value_def)
  next
    case False
    with 1 have IH: "list_all ascii_digit (decimal_nat (n div 10))" "digits_value (decimal_nat (n div 10)) = int (n div 10)"
      by simp_all
    have "10 * int (n div 10) + int (n mod 10) = int n" by presburger
    with False IH digit [of "n mod 10"] show ?thesis
      by (simp add: decimal_nat.simps [of n] digits_value_snoc)
  qed
qed

lemma Atoi_decimal:
  assumes "- (2 ^ 63) \<le> i" "i < 2 ^ 63"
  shows "Atoi (decimal i) = Some i"
proof (cases "i < 0")
  case True
  with decimal_nat_digits [of "nat (- i)"] assms show ?thesis
    by (simp add: Atoi_def decimal_def Let_def)
next
  case False
  note ds = decimal_nat_digits [of "nat i"]
  then obtain c cs where s: "decimal_nat (nat i) = c # cs" and "ascii_digit c"
    by (cases "decimal_nat (nat i)") auto
  then have "c \<noteq> CHR ''-''" "c \<noteq> CHR ''+''" by (auto simp: ascii_digit_def less_eq_char_def)
  with False ds assms show ?thesis
    by (simp add: Atoi_def decimal_def Let_def s)
qed

subsection \<open>Booleans and letters\<close>

text \<open>\<open>strconv.ParseBool\<close>.\<close>

definition ParseBool :: "string \<Rightarrow> bool option" where
  "ParseBool s =
     (if s \<in> set [''1'', ''t'', ''T'', ''TRUE'', ''true'', ''True''] then Some True
      else if s \<in> set [''0'', ''f'', ''F'', ''FALSE'', ''false'', ''False''] then Some False
      else None)"

text \<open>
  \<open>strings.ToLower\<close>, as far as it reaches ASCII: besides the capital letters, the capital I with a
  dot (U+0130) and the Kelvin sign (U+212A) become ASCII letters; no other character does.
\<close>

fun ToLower :: "string \<Rightarrow> string" where
  "ToLower [] = []"
| "ToLower (a # s) =
     (if a = CHR 0xC4 \<and> take 1 s = [CHR 0xB0] then CHR ''i'' # ToLower (drop 1 s)
      else if a = CHR 0xE2 \<and> take 2 s = [CHR 0x84, CHR 0xAA] then CHR ''k'' # ToLower (drop 2 s)
      else (if CHR ''A'' \<le> a \<and> a \<le> CHR ''Z'' then char_of (of_char a + 32 :: nat) else a) # ToLower s)"

end
