(* ===== verification/Http.thy ===== *)
theory Http
  imports WebSocket Strconv
begin

text \<open>
  Requests and responses: \<open>dto/response.go\<close>, \<open>dto/paging.go\<close> and the middlewares of
  \<open>backend/middleware\<close>. The web framework parses the request, so a request is what the handlers read
  of it: the method, the pattern of its route, parameters, cookies, and the fields that \<open>Bind\<close>
  decodes from the body (\<open>None\<close> when it fails). A handler takes the context and returns it, since
  the authentication middleware leaves its result there, with the response it wrote.
\<close>

subsection \<open>Requests and responses\<close>

record request =
  rq_Method :: string
  rq_Path :: string
  rq_RealIP :: string
  rq_Params :: "(string \<times> string) list"
  rq_Query :: "(string \<times> string) list"
  rq_Cookies :: "(string \<times> string) list"
  rq_Body :: "(string \<times> string) list option"

definition QueryParam :: "request \<Rightarrow> string \<Rightarrow> string" where
  "QueryParam rq name = (case map_of (rq_Query rq) name of None \<Rightarrow> '''' | Some v \<Rightarrow> v)"

definition Param :: "request \<Rightarrow> string \<Rightarrow> string" where
  "Param rq name = (case map_of (rq_Params rq) name of None \<Rightarrow> '''' | Some v \<Rightarrow> v)"

record AuthInfo =
  an_UserID :: uuid
  an_Role :: Role
  an_JTI :: string
  an_ExpiresAt :: time

record httpContext =
  cx_Request :: request
  cx_Auth :: "AuthInfo option"

datatype body = JsonBody json_value | NoBody | Blob string string

record cookie =
  ck_Name :: string
  ck_Value :: string
  ck_Path :: string
  ck_HttpOnly :: bool
  ck_Secure :: bool
  ck_MaxAge :: int

record response =
  rs_Status :: int
  rs_Body :: body
  rs_Cookies :: "cookie list"
  rs_Headers :: "(string \<times> string) list"

type_synonym handler = "httpContext \<Rightarrow> (httpContext \<times> response) go"

definition SetAuth :: "httpContext \<Rightarrow> AuthInfo \<Rightarrow> httpContext" where
  "SetAuth c info = c\<lparr>cx_Auth := Some info\<rparr>"

definition AuthFrom :: "httpContext \<Rightarrow> AuthInfo option" where
  "AuthFrom c = cx_Auth c"

subsection \<open>Responses (dto/response.go)\<close>

definition respond :: "int \<Rightarrow> body \<Rightarrow> response" where
  "respond status b = \<lparr>rs_Status = status, rs_Body = b, rs_Cookies = [], rs_Headers = []\<rparr>"

definition WriteData :: "int \<Rightarrow> json_value \<Rightarrow> response" where
  "WriteData status data = respond status (JsonBody (JObj [(''data'', data)]))"

definition conflictCode :: "go_error \<Rightarrow> string" where
  "conflictCode e =
     (if e = ErrDuplicateUser then ''duplicate_user''
      else if e = ErrUserInActiveGame then ''user_in_active_game''
      else if e = ErrAlreadyInMatching then ''already_in_matching''
      else if e = ErrGameNotStarted then ''game_not_started''
      else if e = ErrGameAlreadyFinished then ''game_already_finished''
      else if e = ErrNotYourTurn then ''not_your_turn''
      else if e = ErrGameAlreadyStarted then ''game_already_started''
      else if e = ErrUserAlreadyDeleted then ''user_already_deleted''
      else if e = ErrCannotDeleteSelf then ''cannot_delete_self''
      else if e = ErrCannotDeleteMaster then ''cannot_delete_master''
      else ''conflict'')"

definition mapHTTPError :: "go_error \<Rightarrow> int \<times> string \<times> string" where
  "mapHTTPError e =
     (if e = ErrUnauthorized then (401, ''unauthorized'', error_text e)
      else if e = ErrTokenExpired then (404, ''token_expired'', error_text e)
      else if e = ErrForbidden then (403, ''forbidden'', error_text e)
      else if e = ErrNotFound then (404, ''not_found'', error_text e)
      else if e \<in> {ErrDuplicateUser, ErrUserInActiveGame, ErrAlreadyInMatching, ErrGameNotStarted,
          ErrGameAlreadyFinished, ErrNotYourTurn, ErrGameAlreadyStarted, ErrUserAlreadyDeleted}
        then (409, conflictCode e, error_text e)
      else if e \<in> {ErrCannotDeleteSelf, ErrCannotDeleteMaster} then (403, conflictCode e, error_text e)
      else if e = ErrRateLimitExceeded then (429, ''rate_limit_exceeded'', error_text e)
      else if e \<in> {ErrBadRequest, ErrBadUsername, ErrBadEmail, ErrBadLoginEmail, ErrWeakPassword,
          ErrBadDigit, ErrBadDigitLength, ErrDuplicateDigit}
        then (400, ''validation_error'', error_text e)
      else (500, ''internal_error'', error_text ErrInternal))"

definition WriteError :: "go_error \<Rightarrow> response" where
  "WriteError e = (case mapHTTPError e of (status, code, msg) \<Rightarrow>
     respond status (JsonBody (JObj [(''error'', JObj [(''code'', JStr code), (''message'', JStr msg)])])))"

subsection \<open>Pages (dto/paging.go)\<close>

definition maxLimit :: int where
  "maxLimit = 100"

definition ParsePageLimit :: "request \<Rightarrow> int \<times> int" where
  "ParsePageLimit rq =
     (let page = (case Atoi (QueryParam rq ''page'') of Some v \<Rightarrow> if 0 < v then v else 1 | None \<Rightarrow> 1);
          limit = (case Atoi (QueryParam rq ''limit'') of Some v \<Rightarrow> if 0 < v then v else 20 | None \<Rightarrow> 20)
      in (page, if maxLimit < limit then maxLimit else limit))"

definition WritePaged :: "int \<Rightarrow> json_value \<Rightarrow> int \<Rightarrow> int \<Rightarrow> int \<Rightarrow> response" where
  "WritePaged status items page limit n =
     WriteData status (JObj [(''items'', items), (''page'', JInt page), (''limit'', JInt limit),
       (''total'', JInt n)])"

subsection \<open>Middlewares\<close>

definition reply :: "httpContext \<Rightarrow> response \<Rightarrow> (httpContext \<times> response) go" where
  "reply c r = ret (c, r)"

text \<open>What every handler does with the result of its use case.\<close>

definition answer :: "httpContext \<Rightarrow> 'a go \<Rightarrow> ('a \<Rightarrow> response) \<Rightarrow> (httpContext \<times> response) go" where
  "answer c m f = andThen (attempt m) (\<lambda>res. case res of
     Inl e \<Rightarrow> reply c (WriteError e)
   | Inr x \<Rightarrow> reply c (f x))"

record AuthConfig =
  ac_JWT :: services
  ac_Revoker :: "store option"
  ac_ForceLogout :: "store option"
  ac_Users :: bool

definition checkToken :: "AuthConfig \<Rightarrow> string \<Rightarrow> AuthInfo go" where
  "checkToken cfg cookie =
     andThen (Parse (ac_JWT cfg) cookie) (\<lambda>token.
     andThen (checkRevoked (ac_Revoker cfg) (at_JTI token)) (\<lambda>_.
     andThen (checkForcedLogout (ac_ForceLogout cfg) (at_UserID token) (at_IssuedAt token)) (\<lambda>_.
     andThen (if ac_Users cfg
       then andThen (userRepo_FindByID (at_UserID token)) (\<lambda>found. case found of
         None \<Rightarrow> throw ErrUnauthorized
       | Some u \<Rightarrow> if IsDeleted u then throw ErrUnauthorized else ret ())
       else ret ()) (\<lambda>_.
     ret \<lparr>an_UserID = at_UserID token, an_Role = at_Role token, an_JTI = at_JTI token,
          an_ExpiresAt = at_ExpiresAt token\<rparr>))))"

definition AuthMiddleware :: "AuthConfig \<Rightarrow> handler \<Rightarrow> handler" where
  "AuthMiddleware cfg nxt c = (case map_of (rq_Cookies (cx_Request c)) ''access_token'' of
     None \<Rightarrow> reply c (WriteError ErrUnauthorized)
   | Some value \<Rightarrow>
       if value = '''' then reply c (WriteError ErrUnauthorized)
       else andThen (attempt (checkToken cfg value)) (\<lambda>res. case res of
         Inl e \<Rightarrow> reply c (WriteError e)
       | Inr info \<Rightarrow> nxt (SetAuth c info)))"

definition AdminMiddleware :: "handler \<Rightarrow> handler" where
  "AdminMiddleware nxt c = (case AuthFrom c of
     None \<Rightarrow> reply c (WriteError ErrUnauthorized)
   | Some auth \<Rightarrow> if an_Role auth \<noteq> RoleMaster then reply c (WriteError ErrForbidden) else nxt c)"

text \<open>The limiters read the clock.\<close>

definition askPublic :: "string \<Rightarrow> int \<Rightarrow> duration \<Rightarrow> bool go" where
  "askPublic key limit window = andThen now (\<lambda>t w.
     case allow key limit window t (w_publicLimiter w) of (ok, l) \<Rightarrow> (Inr ok, w\<lparr>w_publicLimiter := l\<rparr>))"

definition askUser :: "string \<Rightarrow> int \<Rightarrow> duration \<Rightarrow> bool go" where
  "askUser key limit window = andThen now (\<lambda>t w.
     case allow key limit window t (w_userLimiter w) of (ok, l) \<Rightarrow> (Inr ok, w\<lparr>w_userLimiter := l\<rparr>))"

definition RateLimitPublic :: "handler \<Rightarrow> handler" where
  "RateLimitPublic nxt c =
     (case publicRateLimitForPath (rq_Path (cx_Request c)) of (limit, window, apply) \<Rightarrow>
       if \<not> apply then nxt c
       else andThen (askPublic (rq_RealIP (cx_Request c) @ '':'' @ rq_Path (cx_Request c)) limit window) (\<lambda>ok.
         if \<not> ok then reply c (WriteError ErrRateLimitExceeded) else nxt c))"

definition UserRateLimit :: "(uuid \<Rightarrow> string) \<Rightarrow> handler \<Rightarrow> handler" where
  "UserRateLimit ustr nxt c = (case AuthFrom c of
     None \<Rightarrow> nxt c
   | Some auth \<Rightarrow> andThen (askUser (ustr (an_UserID auth)) 120 (60 * second)) (\<lambda>ok.
       if \<not> ok then reply c (WriteError ErrRateLimitExceeded) else nxt c))"

definition ActivityUpdate :: "bool \<Rightarrow> handler \<Rightarrow> handler" where
  "ActivityUpdate users nxt c =
     andThen (nxt c) (\<lambda>(c, r). case AuthFrom c of
       None \<Rightarrow> ret (c, r)
     | Some auth \<Rightarrow>
         if \<not> users then ret (c, r)
         else andThen now (\<lambda>t.
           andThen (ignoreErr (userRepo_TouchLastActivity (an_UserID auth) t)) (\<lambda>_. ret (c, r))))"

definition RecoverMiddleware :: "handler \<Rightarrow> handler" where
  "RecoverMiddleware nxt c = (\<lambda>w. case nxt c w of
     (Inl e, w') \<Rightarrow> if e = Panic then (Inr (c, WriteError ErrInternal), w') else (Inl e, w')
   | (Inr x, w') \<Rightarrow> (Inr x, w'))"

definition shouldSkipRequestLog :: "request \<Rightarrow> bool" where
  "shouldSkipRequestLog rq \<longleftrightarrow> rq_Method rq = ''OPTIONS'' \<or> rq_Path rq = ''/health'' \<or>
     take 15 (rq_Path rq) = ''/api/admin/logs''"

text \<open>
  The entry is written by a goroutine after the response; here it is written when the handler is done.
\<close>

definition RequestLog :: "bool \<Rightarrow> handler \<Rightarrow> handler" where
  "RequestLog users nxt c =
     andThen now (\<lambda>start.
     andThen (nxt c) (\<lambda>(c, r).
     if shouldSkipRequestLog (cx_Request c) \<or> \<not> users then ret (c, r)
     else
       let status = (if rs_Status r = 0 then 200 else rs_Status r);
           userID = map_option an_UserID (AuthFrom c) in
       andThen now (\<lambda>since.
       let detail = [(''method'', JStr (rq_Method (cx_Request c))), (''path'', JStr (rq_Path (cx_Request c))),
             (''status'', JInt status), (''durationMs'', JInt (whole_seconds ((since - start) * 1000))),
             (''ip'', JStr (rq_RealIP (cx_Request c)))] in
       andThen now (\<lambda>t.
       andThen newUUID (\<lambda>i.
       andThen (ignoreErr (activityLogRepo_Create \<lparr>actlog_ID = i, actlog_UserID = userID,
         actlog_LogType = ''http_request'', actlog_Detail = detail, actlog_CreatedAt = t,
         actlog_UpdatedAt = t\<rparr>)) (\<lambda>_. ret (c, r)))))))"

end
