(* ===== verification/Csv.thy ===== *)
theory Csv
  imports Auth
begin

text \<open>
  The text of the activity log that administrators download (\<open>usecase/admin.go\<close>): the cells are made
  harmless for spreadsheets by \<open>sanitizeCSVCell\<close> and written by the writer of \<open>encoding/csv\<close>. A reader
  of the format, with the rules of RFC 4180, reads back what was written.
\<close>

subsection \<open>Times\<close>

text \<open>
  \<open>t.UTC().Format(time.RFC3339)\<close>: the civil date of a day is counted from 1 March of the year 0, in
  eras of 400 years (146097 days).
\<close>

definition civil :: "int \<Rightarrow> int \<times> int \<times> int" where
  "civil days =
     (let z = days + 719468; era = z div 146097; doe = z mod 146097;
          yoe = (doe - doe div 1460 + doe div 36524 - doe div 146096) div 365;
          doy = doe - (365 * yoe + yoe div 4 - yoe div 100);
          mp = (5 * doy + 2) div 153;
          m = (if mp < 10 then mp + 3 else mp - 9)
      in (yoe + era * 400 + (if m \<le> 2 then 1 else 0), m, doy - (153 * mp + 2) div 5 + 1))"

definition padded :: "nat \<Rightarrow> int \<Rightarrow> string" where
  "padded w i = (if i < 0 then ''-'' else '''') @
     (let s = decimal_nat (nat \<bar>i\<bar>) in replicate (w - length s) CHR ''0'' @ s)"

definition rfc3339 :: "time \<Rightarrow> string" where
  "rfc3339 t =
     (let secs = t div second; rem = secs mod 86400 in
      case civil (secs div 86400) of (y, m, d) \<Rightarrow>
        padded 4 y @ ''-'' @ padded 2 m @ ''-'' @ padded 2 d @ ''T'' @
        padded 2 (rem div 3600) @ '':'' @ padded 2 (rem div 60 mod 60) @ '':'' @ padded 2 (rem mod 60) @ ''Z'')"

lemma rfc3339_known:
  "rfc3339 zero_time = ''0001-01-01T00:00:00Z''" "rfc3339 0 = ''1970-01-01T00:00:00Z''"
  "rfc3339 (951782399 * second) = ''2000-02-28T23:59:59Z''"
  "rfc3339 (951782400 * second) = ''2000-02-29T00:00:00Z''"
  by code_simp+

subsection \<open>Cells\<close>

definition formula_start :: "char \<Rightarrow> bool" where
  "formula_start c \<longleftrightarrow> c \<in> {CHR ''='', CHR ''+'', CHR ''-'', CHR ''@'', CHR 0x09, CHR 0x0D}"

fun sanitizeCSVCell :: "string \<Rightarrow> string" where
  "sanitizeCSVCell [] = []"
| "sanitizeCSVCell (c # cs) = (if formula_start c then CHR 0x27 # c # cs else c # cs)"

text \<open>
  What is promised of a cell, whatever the code does: it does not begin like a formula (with an equals, plus,
  minus or at sign, a tab or a carriage return), and it is the text itself, or the text after an apostrophe
  when the text does begin so.
\<close>

definition harmless :: "string \<Rightarrow> bool" where
  "harmless s \<longleftrightarrow> (\<forall>c\<in>set (take 1 s). c \<noteq> CHR ''='' \<and> c \<noteq> CHR ''+'' \<and> c \<noteq> CHR ''-'' \<and> c \<noteq> CHR ''@'' \<and>
     c \<noteq> CHR 0x09 \<and> c \<noteq> CHR 0x0D)"

definition cell_for :: "string \<Rightarrow> string \<Rightarrow> bool" where
  "cell_for s cell \<longleftrightarrow> harmless cell \<and> cell = (if harmless s then s else CHR 0x27 # s)"

lemma cell_for_sanitizeCSVCell: "cell_for s (sanitizeCSVCell s)"
  by (cases s) (auto simp: cell_for_def harmless_def formula_start_def)

lemma sanitizeCSVCell_idem: "sanitizeCSVCell (sanitizeCSVCell s) = sanitizeCSVCell s"
  by (cases s) (auto simp: formula_start_def)

subsection \<open>The writer\<close>

text \<open>
  \<open>fieldNeedsQuotes\<close> and \<open>Write\<close> of \<open>encoding/csv\<close> with the comma as separator and lines ended by a
  line feed; a quoted field doubles its quotes.
\<close>

definition csv_special :: "char \<Rightarrow> bool" where
  "csv_special c \<longleftrightarrow> c \<in> {CHR 0x0A, CHR 0x0D, CHR 0x22, CHR '',''}"

definition fieldNeedsQuotes :: "string \<Rightarrow> bool" where
  "fieldNeedsQuotes s \<longleftrightarrow> s \<noteq> [] \<and> (s = [CHR 0x5C, CHR ''.''] \<or> list_ex csv_special s \<or>
     list_ex (\<lambda>q. take (length q) s = q) white_space)"

definition csv_escape :: "string \<Rightarrow> string" where
  "csv_escape s = concat (map (\<lambda>c. if c = CHR 0x22 then [CHR 0x22, CHR 0x22] else [c]) s)"

definition csv_field :: "string \<Rightarrow> string" where
  "csv_field s = (if fieldNeedsQuotes s then CHR 0x22 # csv_escape s @ [CHR 0x22] else s)"

definition csv_record :: "string list \<Rightarrow> string" where
  "csv_record fs = join CHR '','' (map csv_field fs) @ [CHR 0x0A]"

definition csv_file :: "string list list \<Rightarrow> string" where
  "csv_file rows = concat (map csv_record rows)"

subsection \<open>A reader of the format\<close>

datatype csv_mode = Bare | Quoted | Closing

fun csv_read :: "csv_mode \<Rightarrow> string \<Rightarrow> string list \<Rightarrow> string \<Rightarrow> string list list" where
  "csv_read m cur fs [] = (if m = Bare \<and> cur = [] \<and> fs = [] then [] else [fs @ [cur]])"
| "csv_read Quoted cur fs (c # s) =
     (if c = CHR 0x22 then csv_read Closing cur fs s else csv_read Quoted (cur @ [c]) fs s)"
| "csv_read m cur fs (c # s) =
     (if c = CHR '','' then csv_read Bare [] (fs @ [cur]) s
      else if c = CHR 0x0A then (fs @ [cur]) # csv_read Bare [] [] s
      else if c = CHR 0x22 \<and> m = Closing then csv_read Quoted (cur @ [c]) fs s
      else if c = CHR 0x22 \<and> cur = [] then csv_read Quoted [] fs s
      else csv_read m (cur @ [c]) fs s)"

definition csv_rows :: "string \<Rightarrow> string list list" where
  "csv_rows s = csv_read Bare [] [] s"

lemma csv_read_bare:
  "\<not> list_ex csv_special f \<Longrightarrow> csv_read Bare cur fs (f @ s) = csv_read Bare (cur @ f) fs s"
  by (induction f arbitrary: cur) (auto simp: csv_special_def)

lemma csv_read_quoted:
  "csv_read Quoted cur fs (csv_escape f @ CHR 0x22 # s) = csv_read Closing (cur @ f) fs s"
  by (induction f arbitrary: cur) (auto simp: csv_escape_def)

lemma csv_read_field:
  "csv_read Bare [] fs (csv_field f @ CHR '','' # s) = csv_read Bare [] (fs @ [f]) s"
  "csv_read Bare [] fs (csv_field f @ CHR 0x0A # s) = (fs @ [f]) # csv_read Bare [] [] s"
proof -
  have bare: "\<not> fieldNeedsQuotes f \<Longrightarrow> \<not> list_ex csv_special f"
    by (cases f) (auto simp: fieldNeedsQuotes_def)
  show "csv_read Bare [] fs (csv_field f @ CHR '','' # s) = csv_read Bare [] (fs @ [f]) s"
    "csv_read Bare [] fs (csv_field f @ CHR 0x0A # s) = (fs @ [f]) # csv_read Bare [] [] s"
    using csv_read_bare [OF bare, of "[]" fs "CHR '','' # s"] csv_read_bare [OF bare, of "[]" fs "CHR 0x0A # s"]
    by (simp_all add: csv_field_def csv_read_quoted)
qed

lemma csv_read_record:
  "rs \<noteq> [] \<Longrightarrow> csv_read Bare [] fs (csv_record rs @ s) = (fs @ rs) # csv_read Bare [] [] s"
proof (induction rs arbitrary: fs rule: induct_list012)
  case (2 x)
  then show ?case by (simp add: csv_record_def csv_read_field)
next
  case (3 x y zs)
  have "csv_record (x # y # zs) = csv_field x @ CHR '','' # csv_record (y # zs)"
    by (simp add: csv_record_def)
  with "3.IH"(2) show ?case by (simp add: csv_read_field)
qed simp

lemma csv_rows_file: "\<forall>r\<in>set rows. r \<noteq> [] \<Longrightarrow> csv_rows (csv_file rows) = rows"
  unfolding csv_rows_def
  by (induction rows) (simp_all add: csv_file_def csv_read_record)

end
