(* ===== verification/Ranking.thy ===== *)
theory Ranking
  imports Repos RedisStore
begin

text \<open>
  The ranking: \<open>usecase/ranking.go\<close>, the locks of \<open>usecase/admin\_lock.go\<close>, and the worker
  \<open>worker/ranking\_rebuild.go\<close>. The order of the table is a linear order on the pairs of a win count
  and a user name, so that the library's sorting applies.
\<close>

subsection \<open>The order\<close>

record rankingRebuildRow =
  rr_UserID :: uuid
  rr_Username :: string
  rr_WinCount :: int

text \<open>
  The function given to \<open>sort.Slice\<close>: more wins first, and the name decides between equal win counts
  (Go compares strings byte by byte).
\<close>

definition rank_less :: "rankingRebuildRow \<Rightarrow> rankingRebuildRow \<Rightarrow> bool" where
  "rank_less x y =
     (if rr_WinCount x \<noteq> rr_WinCount y then rr_WinCount y < rr_WinCount x
      else rr_Username x < rr_Username y)"

datatype rank_key = RankKey (key_wins: int) (key_name: string)

instantiation rank_key :: linorder
begin

definition less_eq_rank_key :: "rank_key \<Rightarrow> rank_key \<Rightarrow> bool" where
  "less_eq_rank_key a b \<longleftrightarrow>
     key_wins b < key_wins a \<or> (key_wins a = key_wins b \<and> key_name a \<le> key_name b)"

definition less_rank_key :: "rank_key \<Rightarrow> rank_key \<Rightarrow> bool" where
  "less_rank_key a b \<longleftrightarrow>
     key_wins b < key_wins a \<or> (key_wins a = key_wins b \<and> key_name a < key_name b)"

instance
proof
  fix x y z :: rank_key
  show "(x < y) = (x \<le> y \<and> \<not> y \<le> x)"
    by (auto simp: less_eq_rank_key_def less_rank_key_def)
  show "x \<le> x" by (simp add: less_eq_rank_key_def)
  show "x \<le> y \<Longrightarrow> y \<le> z \<Longrightarrow> x \<le> z"
    by (auto simp: less_eq_rank_key_def)
  show "x \<le> y \<Longrightarrow> y \<le> x \<Longrightarrow> x = y"
    by (cases x; cases y) (auto simp: less_eq_rank_key_def)
  show "x \<le> y \<or> y \<le> x"
    by (auto simp: less_eq_rank_key_def)
qed

end

definition rank_key_of :: "rankingRebuildRow \<Rightarrow> rank_key" where
  "rank_key_of x = RankKey (rr_WinCount x) (rr_Username x)"

lemma rank_less_key: "rank_less x y \<longleftrightarrow> rank_key_of x < rank_key_of y"
  by (auto simp: rank_less_def rank_key_of_def less_rank_key_def)

subsection \<open>The use case\<close>

record RankingUseCase =
  rk_Locks :: "store option"
  rk_LockTTL :: duration

record RankingItem =
  ri_Rank :: int
  ri_Username :: string
  ri_WinCount :: int

definition GetRanking :: "RankingItem list go" where
  "GetRanking =
     andThen rankingRepo_ListAll (\<lambda>rows.
     let rows = (if 3 < length rows then take 3 rows else rows) in
     ret (map (\<lambda>row. \<lparr>ri_Rank = ranking_Rank row, ri_Username = ranking_Username row,
                     ri_WinCount = ranking_WinCount row\<rparr>) rows))"

fun rebuild_rows :: "user list \<Rightarrow> rankingRebuildRow list" where
  "rebuild_rows [] = []"
| "rebuild_rows (u # us) =
     (if IsDeleted u \<or> IsMaster u then rebuild_rows us
      else \<lparr>rr_UserID = user_ID u, rr_Username = user_Username u, rr_WinCount = user_WinCount u\<rparr>
           # rebuild_rows us)"

text \<open>\<open>sort.Slice\<close> sorts by \<open>rank_less\<close>; rows it does not tell apart may come in either order.\<close>

definition listUsersForRankingRebuild :: "rankingRebuildRow list go" where
  "listUsersForRankingRebuild =
     andThen userRepo_ListAll (\<lambda>users. ret (sort_key rank_key_of (rebuild_rows users)))"

fun ranking_rows :: "time \<Rightarrow> nat \<Rightarrow> rankingRebuildRow list \<Rightarrow> ranking list" where
  "ranking_rows t i [] = []"
| "ranking_rows t i (row # rows) =
     \<lparr>ranking_UserID = rr_UserID row, ranking_Rank = int i + 1, ranking_Username = rr_Username row,
      ranking_WinCount = rr_WinCount row, ranking_UpdatedAt = t\<rparr> # ranking_rows t (Suc i) rows"

definition Rebuild :: "unit go" where
  "Rebuild =
     andThen listUsersForRankingRebuild (\<lambda>rows.
     andThen now (\<lambda>t.
     WithTx (rankingRepo_ReplaceAll (ranking_rows t 0 rows))))"

definition rankingRebuildWorkerActorID :: uuid where
  "rankingRebuildWorkerActorID = uuid_nil"

definition lock_ttl :: "duration \<Rightarrow> duration" where
  "lock_ttl ttl = (if ttl \<le> 0 then 5 * second else ttl)"

definition acquireRankingRebuildLock :: "store option \<Rightarrow> uuid \<Rightarrow> duration \<Rightarrow> bool go" where
  "acquireRankingRebuildLock locks actorID ttl = (case locks of
     None \<Rightarrow> ret True
   | Some s \<Rightarrow> AcquireLock s (RankingRebuildLockKey actorID) (lock_ttl ttl))"

definition RunScheduledRebuild :: "RankingUseCase \<Rightarrow> unit go" where
  "RunScheduledRebuild r =
     andThen (acquireRankingRebuildLock (rk_Locks r) rankingRebuildWorkerActorID (rk_LockTTL r)) (\<lambda>ok.
     if \<not> ok then ret () else Rebuild)"

definition RankingRebuildWorker_job :: "RankingUseCase \<Rightarrow> unit go" where
  "RankingRebuildWorker_job r = ignoreErr (RunScheduledRebuild r)"

subsection \<open>What is rebuilt\<close>

lemma rebuild_rows_map: "rebuild_rows us = map (\<lambda>u. \<lparr>rr_UserID = user_ID u,
    rr_Username = user_Username u, rr_WinCount = user_WinCount u\<rparr>) (filter CanMatch us)"
  by (induction us) (auto simp: CanMatch_def)

lemma ranking_rows_nth:
  "length (ranking_rows t i rows) = length rows"
  "n < length rows \<Longrightarrow> ranking_rows t i rows ! n =
     \<lparr>ranking_UserID = rr_UserID (rows ! n), ranking_Rank = int (i + n) + 1,
      ranking_Username = rr_Username (rows ! n), ranking_WinCount = rr_WinCount (rows ! n),
      ranking_UpdatedAt = t\<rparr>"
proof (induction rows arbitrary: i n)
  case (Cons row rows)
  { case 1 show ?case using Cons.IH by simp }
  { case 2 then show ?case using Cons.IH(2) [of "n - 1" "Suc i"] by (cases n) auto }
qed simp_all

lemma ranking_rows_IDs: "map ranking_UserID (ranking_rows t i rows) = map rr_UserID rows"
  by (induction rows arbitrary: i) simp_all

lemma ranking_rows_sorted: "sorted (map ranking_Rank (ranking_rows t i rows))"
  by (auto simp: sorted_iff_nth_mono ranking_rows_nth)

lemma ranking_rows_Rank: "map ranking_Rank (ranking_rows t i rows) = map (\<lambda>n. int n + 1) [i..<i + length rows]"
  by (rule nth_equalityI) (simp_all add: ranking_rows_nth)

text \<open>Whatever sorting by \<open>rank_less\<close> returns, it is this list, when the names are different.\<close>

lemma sort_slice_unique:
  assumes "mset ys = mset xs" "sorted_wrt (\<lambda>x y. \<not> rank_less y x) ys"
    and "inj_on rr_Username (set xs)"
  shows "ys = sort_key rank_key_of xs"
proof -
  have "sorted (map rank_key_of ys)"
    using assms(2) by (simp add: rank_less_key sorted_wrt_map not_less)
  moreover have "inj_on rank_key_of (set xs)"
    using assms(3) by (simp add: inj_on_def rank_key_of_def)
  ultimately show ?thesis
    using assms(1) by (metis sort_key_inj_key_eq)
qed

lemma Rebuild_success:
  assumes "Rebuild w = (Inr (), w')"
  shows "w_db w' = (w_db w)\<lparr>db_rankings := ranking_rows (w_clock w (w_nclock w)) 0
    (sort_key rank_key_of (rebuild_rows (db_users (w_db w))))\<rparr>"
  using assms
  by (simp add: Rebuild_def listUsersForRankingRebuild_def userRepo_ListAll_def
      rankingRepo_ReplaceAll_def success_iff split: if_splits)

text \<open>The rows are the accounts that can play, with their names and wins, in the order of the ranking.\<close>

lemma ranking_rows_map:
  "map (\<lambda>r. f (ranking_UserID r) (ranking_Username r) (ranking_WinCount r)) (ranking_rows t i rs) =
     map (\<lambda>r. f (rr_UserID r) (rr_Username r) (rr_WinCount r)) rs"
  by (rule nth_equalityI) (simp_all add: ranking_rows_nth)

lemma Rebuild_accounts:
  assumes "Rebuild w = (Inr (), w')"
  shows "mset (map (\<lambda>r. (ranking_UserID r, ranking_Username r, ranking_WinCount r)) (db_rankings (w_db w'))) =
    mset (map (\<lambda>u. (user_ID u, user_Username u, user_WinCount u)) (filter CanMatch (db_users (w_db w))))"
proof -
  let ?rs = "sort_key rank_key_of (rebuild_rows (db_users (w_db w)))"
  have "map (\<lambda>r. (ranking_UserID r, ranking_Username r, ranking_WinCount r)) (db_rankings (w_db w')) =
      map (\<lambda>r. (rr_UserID r, rr_Username r, rr_WinCount r)) ?rs"
    by (simp add: Rebuild_success [OF assms] ranking_rows_map [of "\<lambda>i n c. (i, n, c)"])
  then have "mset (map (\<lambda>r. (ranking_UserID r, ranking_Username r, ranking_WinCount r)) (db_rankings (w_db w'))) =
      image_mset (\<lambda>r. (rr_UserID r, rr_Username r, rr_WinCount r)) (mset (rebuild_rows (db_users (w_db w))))"
    by (simp only: mset_map mset_sort)
  then show ?thesis by (simp add: rebuild_rows_map multiset.map_comp comp_def)
qed

lemma Rebuild_succeeds:
  assumes "\<And>n. \<not> w_faults w n" "distinct (map user_ID (db_users (w_db w)))"
    and fits: "w_dialect w = Postgres \<longrightarrow> (\<forall>u\<in>set (db_users (w_db w)). varchar 50 (user_Username u))"
  shows "\<exists>w'. Rebuild w = (Inr (), w')"
proof -
  let ?rs = "sort_key rank_key_of (rebuild_rows (db_users (w_db w)))"
  have "distinct (map rr_UserID (rebuild_rows (db_users (w_db w))))"
    using distinct_map_filter [OF assms(2), of CanMatch] by (simp add: rebuild_rows_map comp_def)
  then have ids: "distinct (map rr_UserID ?rs)" by (simp add: distinct_map)
  have names: "w_dialect w = Postgres \<longrightarrow> (\<forall>r\<in>set (ranking_rows t i ?rs). varchar 50 (ranking_Username r))" for t i
  proof -
    have "ranking_Username ` set (ranking_rows t i ?rs) = rr_Username ` set ?rs"
      using arg_cong [OF ranking_rows_map [of "\<lambda>i n c. n" t i ?rs], of set] by simp
    also have "\<dots> \<subseteq> user_Username ` set (db_users (w_db w))" by (auto simp: rebuild_rows_map)
    finally show ?thesis using fits by fastforce
  qed
  show ?thesis
    using names ids
    by (auto simp: Rebuild_def listUsersForRankingRebuild_def userRepo_ListAll_def rankingRepo_ReplaceAll_def run_simps
        assms(1) ranking_rows_IDs cong: go_congs)
qed

lemma Rebuild_order:
  assumes "Rebuild w = (Inr (), w')"
  shows "map ranking_Rank (db_rankings (w_db w')) = map (\<lambda>n. int n + 1) [0..<length (db_rankings (w_db w'))]"
    "sorted_wrt (\<lambda>r s. ranking_WinCount s < ranking_WinCount r \<or>
       ranking_WinCount r = ranking_WinCount s \<and> ranking_Username r \<le> ranking_Username s) (db_rankings (w_db w'))"
proof -
  let ?rs = "sort_key rank_key_of (rebuild_rows (db_users (w_db w)))"
  show "map ranking_Rank (db_rankings (w_db w')) = map (\<lambda>n. int n + 1) [0..<length (db_rankings (w_db w'))]"
    by (simp add: Rebuild_success [OF assms] ranking_rows_Rank ranking_rows_nth(1))
  have "sorted (map rank_key_of ?rs)" by simp
  also have "map rank_key_of ?rs =
      map (\<lambda>r. RankKey (ranking_WinCount r) (ranking_Username r)) (db_rankings (w_db w'))"
    by (simp add: Rebuild_success [OF assms] rank_key_of_def [abs_def] ranking_rows_map [of "\<lambda>i n c. RankKey c n"])
  finally show "sorted_wrt (\<lambda>r s. ranking_WinCount s < ranking_WinCount r \<or>
       ranking_WinCount r = ranking_WinCount s \<and> ranking_Username r \<le> ranking_Username s) (db_rankings (w_db w'))"
    by (simp add: sorted_wrt_map less_eq_rank_key_def)
qed

end
