(* ===== verification/Admin.thy ===== *)
theory Admin
  imports Csv AutoLogout Matching Ranking
begin

text \<open>
  The administrator's use case, \<open>usecase/admin.go\<close> and \<open>usecase/admin\_lock.go\<close>: accounts, activity logs
  and their download, the rebuild of the ranking and the state of the backup. The match of a search
  (\<open>ilike\<close>) and the text of a stored detail (\<open>jtext\<close>) are the server's, the text of an identifier
  (\<open>ustr\<close>) the library's.
\<close>

subsection \<open>The use case\<close>

record AdminUseCase =
  ad_Ranking :: bool
  ad_WSSessions :: "store option option"
  ad_ForceLogout :: "store option"
  ad_BackupStatus :: "store option"
  ad_Locks :: "store option"
  ad_AdminLockTTL :: duration

record AdminUserItem =
  ai_ID :: uuid
  ai_Username :: string
  ai_Email :: string
  ai_Role :: Role
  ai_WinCount :: int
  ai_DeletedAt :: "time option"
  ai_CreatedAt :: time

definition acquireLock :: "AdminUseCase \<Rightarrow> rkey \<Rightarrow> unit go" where
  "acquireLock a key = (case ad_Locks a of
     None \<Rightarrow> ret ()
   | Some locks \<Rightarrow>
       andThen (AcquireLock locks key (lock_ttl (ad_AdminLockTTL a))) (\<lambda>ok.
       if \<not> ok then throw ErrRateLimitExceeded else ret ()))"

definition mapAdminUsers :: "user list \<Rightarrow> AdminUserItem list" where
  "mapAdminUsers users = map (\<lambda>u.
     \<lparr>ai_ID = user_ID u, ai_Username = user_Username u, ai_Email = user_Email u, ai_Role = user_Role u,
      ai_WinCount = user_WinCount u, ai_DeletedAt = user_DeletedAt u, ai_CreatedAt = user_CreatedAt u\<rparr>) users"

definition ListUsers :: "int \<Rightarrow> int \<Rightarrow> (AdminUserItem list \<times> int) go" where
  "ListUsers page limit =
     andThen (userRepo_List page limit) (\<lambda>(users, total). ret (mapAdminUsers users, total))"

definition SearchUsers :: "(string \<Rightarrow> string \<Rightarrow> bool) \<Rightarrow> string \<Rightarrow> AdminUserItem list go" where
  "SearchUsers ilike query =
     (if query = '''' then throw ErrBadRequest
      else andThen (userRepo_Search ilike query 1 100) (\<lambda>(users, _). ret (mapAdminUsers users)))"

text \<open>The row that the deletion saves: the one read before the transaction, with the marks of the deletion.\<close>

definition deleted_user :: "user \<Rightarrow> uuid \<Rightarrow> time \<Rightarrow> user" where
  "deleted_user target adminID t =
     target\<lparr>user_DeletedAt := Some t, user_DeletedBy := Some adminID, user_UpdatedAt := t\<rparr>"

definition deleteUserTx :: "uuid \<Rightarrow> uuid \<Rightarrow> user \<Rightarrow> time \<Rightarrow> unit go" where
  "deleteUserTx adminID targetID target t =
     andThen (revokeRefreshTokensByUserID targetID t) (\<lambda>_.
     andThen (matchingQueueRepo_DeleteByUserID targetID) (\<lambda>_.
     userRepo_Update (deleted_user target adminID t)))"

definition endSessions :: "AdminUseCase \<Rightarrow> uuid \<Rightarrow> time \<Rightarrow> unit go" where
  "endSessions a targetID t =
     andThen (case ad_ForceLogout a of None \<Rightarrow> ret () | Some s \<Rightarrow> SetForceLogoutBefore s targetID t) (\<lambda>_.
     case ad_WSSessions a of None \<Rightarrow> ret () | Some ws \<Rightarrow> ignoreErr (SessionStore_DeleteUser ws targetID))"

text \<open>The checks before anything is changed: the account to delete.\<close>

definition deletionTarget :: "AdminUseCase \<Rightarrow> uuid \<Rightarrow> uuid \<Rightarrow> user go" where
  "deletionTarget a adminID targetID =
     andThen (acquireLock a (UserDeleteLockKey adminID)) (\<lambda>_.
     if adminID = targetID then throw ErrCannotDeleteSelf
     else andThen (userRepo_FindByID targetID) (\<lambda>found. case found of
       None \<Rightarrow> throw ErrNotFound
     | Some target \<Rightarrow>
         if IsDeleted target then throw ErrUserAlreadyDeleted
         else if IsMaster target then throw ErrCannotDeleteMaster
         else andThen (findActiveGameForUser targetID) (\<lambda>active.
         if active \<noteq> None then throw ErrUserInActiveGame else ret target)))"

definition AdminDeleteUser :: "AdminUseCase \<Rightarrow> uuid \<Rightarrow> uuid \<Rightarrow> unit go" where
  "AdminDeleteUser a adminID targetID =
     andThen (deletionTarget a adminID targetID) (\<lambda>target.
     andThen now (\<lambda>t.
     andThen (endSessions a targetID t) (\<lambda>_.
     andThen (WithTx (deleteUserTx adminID targetID target t)) (\<lambda>_.
     recordAdminDeleteUserLog adminID targetID t))))"

record ActivityLogItem =
  li_ID :: uuid
  li_UserID :: "uuid option"
  li_LogType :: string
  li_Detail :: json_object
  li_CreatedAt :: time

definition SearchActivityLogs ::
  "string \<Rightarrow> uuid option \<Rightarrow> time option \<Rightarrow> time option \<Rightarrow> int \<Rightarrow> int \<Rightarrow> (ActivityLogItem list \<times> int) go"
  where
  "SearchActivityLogs logType userID from to page limit =
     andThen (activityLogRepo_Search logType userID from to page limit) (\<lambda>(rows, total).
     ret (map (\<lambda>l. \<lparr>li_ID = actlog_ID l, li_UserID = actlog_UserID l, li_LogType = actlog_LogType l,
                   li_Detail = actlog_Detail l, li_CreatedAt = actlog_CreatedAt l\<rparr>) rows, total))"

definition ListActivityLogTypes :: "string list go" where
  "ListActivityLogTypes = activityLogRepo_ListDistinctLogTypes"

definition csv_header :: "string list" where
  "csv_header = [''id'', ''user_id'', ''log_type'', ''detail'', ''created_at'']"

definition csv_row :: "(uuid \<Rightarrow> string) \<Rightarrow> (json_object \<Rightarrow> string) \<Rightarrow> activity_log \<Rightarrow> string list" where
  "csv_row ustr jtext l =
     [sanitizeCSVCell (ustr (actlog_ID l)),
      sanitizeCSVCell (case actlog_UserID l of None \<Rightarrow> '''' | Some u \<Rightarrow> ustr u),
      sanitizeCSVCell (actlog_LogType l), sanitizeCSVCell (jtext (actlog_Detail l)),
      sanitizeCSVCell (rfc3339 (actlog_CreatedAt l))]"

text \<open>Writing to a \<open>bytes.Buffer\<close> does not fail, so neither does \<open>flushCSVWriter\<close>.\<close>

definition DownloadActivityLogsCSV ::
  "(uuid \<Rightarrow> string) \<Rightarrow> (json_object \<Rightarrow> string) \<Rightarrow> AdminUseCase \<Rightarrow> uuid \<Rightarrow> string \<Rightarrow> uuid option \<Rightarrow>
     time option \<Rightarrow> time option \<Rightarrow> string go" where
  "DownloadActivityLogsCSV ustr jtext a adminID logType userID from to =
     andThen (acquireLock a (LogDownloadLockKey adminID)) (\<lambda>_.
     andThen (activityLogRepo_Search logType userID from to 1 10000) (\<lambda>(rows, _).
     ret (csv_file (csv_header # map (csv_row ustr jtext) rows))))"

definition AdminRebuildRanking :: "AdminUseCase \<Rightarrow> uuid \<Rightarrow> unit go" where
  "AdminRebuildRanking a adminID =
     andThen (acquireLock a (RankingRebuildLockKey adminID)) (\<lambda>_.
     if \<not> ad_Ranking a then throw ErrBadRequest
     else andThen Rebuild (\<lambda>_.
     andThen now (\<lambda>t. recordAdminRebuildRankingLog adminID t)))"

definition AdminGetBackupStatus :: "AdminUseCase \<Rightarrow> BackupStatus go" where
  "AdminGetBackupStatus a = (case ad_BackupStatus a of
     None \<Rightarrow> ret \<lparr>bs_Status = ''ok'', bs_LastSyncedAt = None\<rparr>
   | Some s \<Rightarrow> andThen (GetBackupStatus s) (\<lambda>st.
       ret \<lparr>bs_Status = bs_Status st, bs_LastSyncedAt = bs_LastSyncedAt st\<rparr>))"

subsection \<open>What a deletion leaves\<close>

text \<open>The account can be deleted: it is there, not deleted, not a master's, and in no active game.\<close>

definition deletable :: "db \<Rightarrow> uuid \<Rightarrow> user \<Rightarrow> bool" where
  "deletable d i u \<longleftrightarrow> first_row user_ID (\<lambda>x. user_ID x = i) (db_users d) = Some u \<and> CanMatch u \<and>
     (\<forall>g\<in>set (db_games d). active_status (game_Status g) \<longrightarrow> \<not> IsParticipant g i)"

definition deleted_db :: "uuid \<Rightarrow> uuid \<Rightarrow> user \<Rightarrow> time \<Rightarrow> db \<Rightarrow> db" where
  "deleted_db adminID i u t d = d\<lparr>
     db_tokens := update_rows (\<lambda>r. token_UserID r = i \<and> token_revocable r) (token_revoke t) (db_tokens d),
     db_queue := delete_rows (\<lambda>e. entry_UserID e = i) (db_queue d),
     db_users := save_row user_ID (deleted_user u adminID t) (db_users d)\<rparr>"

lemma deleteUserTx_success:
  "deleteUserTx a i u t w = (Inr x, w') \<Longrightarrow> w_db w' = deleted_db a i u t (w_db w)"
  by (auto simp: deleteUserTx_def deleted_db_def revokeRefreshTokensByUserID_def
      refreshTokenRepo_RevokeByUserID_def matchingQueueRepo_DeleteByUserID_def success_iff dbExec_success)

lemma findActiveGameForUser_success:
  "findActiveGameForUser i w = (Inr r, w') \<Longrightarrow> w_db w' = w_db w \<and>
     (r = None \<longleftrightarrow> (\<forall>g\<in>set (db_games (w_db w)). active_status (game_Status g) \<longrightarrow> \<not> IsParticipant g i))"
  by (auto simp: findActiveGameForUser_def gameRepo_ListByPlayerID_def success_iff find_None_iff
      IsParticipant_def)

text \<open>A call that preserves every property of the database does not change it.\<close>

lemma silent:
  assumes "\<And>I. keeps (\<lambda>w. I (w_db w)) m" and "m w = (r, w')"
  shows "w_db w' = w_db w"
  using keepsD [OF assms(1) [of "\<lambda>d. d = w_db w"], of w] assms(2) by simp

lemma WithTx_db:
  assumes "WithTx fn w = (Inr x, w')"
  obtains v v' where "w_db v = w_db w" "fn v = (Inr x, v')" "w_db w' = w_db v'"
  using assms that [of "w\<lparr>w_nio := Suc (w_nio w)\<rparr>"] by (auto simp: WithTx_success)

lemma keeps_acquireLock [keeps_intros]: "keeps (\<lambda>w. I (w_db w)) (acquireLock a k)"
  unfolding acquireLock_def by (intro keeps_intros)

lemma keeps_endSessions [keeps_intros]: "keeps (\<lambda>w. I (w_db w)) (endSessions a i t)"
  unfolding endSessions_def by (intro keeps_intros)

lemma recordActivityLog_success:
  "recordActivityLog u ty d t w = (Inr x, w') \<Longrightarrow>
     \<exists>i. w_db w' = (w_db w)\<lparr>db_actlogs := db_actlogs (w_db w) @
       [\<lparr>actlog_ID = i, actlog_UserID = u, actlog_LogType = ty, actlog_Detail = d,
         actlog_CreatedAt = t, actlog_UpdatedAt = t\<rparr>]\<rparr>"
  by (auto simp: recordActivityLog_def activityLogRepo_Create_def success_iff dbExec_success insert_row_def
      split: if_splits)

lemma deletionTarget_success:
  assumes "deletionTarget a adm i w = (Inr u, w')"
  shows "adm \<noteq> i \<and> deletable (w_db w) i u \<and> w_db w' = w_db w"
proof -
  from assms obtain w1 w2 where lock: "acquireLock a (UserDeleteLockKey adm) w = (Inr (), w1)"
    and self: "adm \<noteq> i"
    and found: "userRepo_FindByID i w1 = (Inr (Some u), w2)" "\<not> IsDeleted u" "\<not> IsMaster u"
    and free: "findActiveGameForUser i w2 = (Inr None, w')"
    unfolding deletionTarget_def
    by (auto simp: andThen_success throw_success ret_success split: option.splits if_splits)
  from found(1) have "w_db w2 = w_db w1"
    and "first_row user_ID (\<lambda>x. user_ID x = i) (db_users (w_db w1)) = Some u"
    by (auto simp: success_iff find_defs)
  with silent [OF keeps_acquireLock lock] findActiveGameForUser_success [OF free] self found(2,3)
  show ?thesis by (auto simp: deletable_def CanMatch_def)
qed

lemma AdminDeleteUser_success:
  assumes "AdminDeleteUser a adm i w = (Inr x, w')"
  obtains u t l where "adm \<noteq> i" "deletable (w_db w) i u"
    "w_db w' = (deleted_db adm i u t (w_db w))\<lparr>db_actlogs := db_actlogs (w_db w) @ [l]\<rparr>"
    "actlog_UserID l = Some adm" "actlog_LogType l = ''admin_delete_user''" "actlog_CreatedAt l = t"
proof -
  from assms obtain w3 w4 w6 w7 t u where
      target: "deletionTarget a adm i w = (Inr u, w3)"
    and clock: "now w3 = (Inr t, w4)"
    and ended: "endSessions a i t w4 = (Inr (), w6)"
    and tx: "WithTx (deleteUserTx adm i u t) w6 = (Inr (), w7)"
    and log: "recordAdminDeleteUserLog adm i t w7 = (Inr x, w')"
    unfolding AdminDeleteUser_def by (auto simp: andThen_success)
  note target = deletionTarget_success [OF target]
  from clock have db6: "w_db w6 = w_db w"
    using silent [OF keeps_endSessions ended] target by (auto simp: now_success)
  from tx obtain v v' where "w_db v = w_db w6" "deleteUserTx adm i u t v = (Inr (), v')" "w_db w7 = w_db v'"
    by (rule WithTx_db)
  with deleteUserTx_success [OF this(2)] db6 have db7: "w_db w7 = deleted_db adm i u t (w_db w)" by simp
  from recordActivityLog_success [OF log [unfolded recordAdminDeleteUserLog_def]] db7
  obtain k where "w_db w' = (deleted_db adm i u t (w_db w))\<lparr>db_actlogs := db_actlogs (w_db w) @
     [\<lparr>actlog_ID = k, actlog_UserID = Some adm, actlog_LogType = ''admin_delete_user'',
       actlog_Detail = [(''adminId'', JUuid adm), (''targetUserId'', JUuid i)],
       actlog_CreatedAt = t, actlog_UpdatedAt = t\<rparr>]\<rparr>"
    by (auto simp: deleted_db_def)
  with target that show thesis by auto
qed

subsection \<open>Invariants\<close>

lemma keeps_deletionTarget [keeps_intros]: "keeps (\<lambda>w. I (w_db w)) (deletionTarget a adm i)"
  unfolding deletionTarget_def findActiveGameForUser_def by (intro keeps_intros)

lemma keeps_GetBackupStatus [keeps_intros]: "keeps (\<lambda>w. I (w_db w)) (GetBackupStatus s)"
  unfolding GetBackupStatus_def
  by (rule keeps_andThen, rule keeps_rdbCall) (auto intro: keeps_ret keeps_throw split: option.split rval.split)

lemma keeps_admin_queries [keeps_intros]:
  "keeps (\<lambda>w. I (w_db w)) (ListUsers p l)" "keeps (\<lambda>w. I (w_db w)) (SearchUsers ilike q)"
  "keeps (\<lambda>w. I (w_db w)) (SearchActivityLogs ty u f t p l)"
  "keeps (\<lambda>w. I (w_db w)) ListActivityLogTypes"
  "keeps (\<lambda>w. I (w_db w)) (DownloadActivityLogsCSV us jt a adm ty u f t)"
  "keeps (\<lambda>w. I (w_db w)) (AdminGetBackupStatus a)"
  unfolding ListUsers_def SearchUsers_def SearchActivityLogs_def ListActivityLogTypes_def
    DownloadActivityLogsCSV_def AdminGetBackupStatus_def userRepo_List_def
    userRepo_Search_def activityLogRepo_Search_def activityLogRepo_ListDistinctLogTypes_def Let_def
  by (intro keeps_intros)+

locale admin_contract =
  fixes I :: "db \<Rightarrow> bool"
  assumes delete_closed: "I d \<Longrightarrow> deletable d i u \<Longrightarrow> I (deleted_db adm i u t d)"
    and actlog_closed: "I d \<Longrightarrow> I (d\<lparr>db_actlogs := ls\<rparr>)"
    and ranking_closed: "I d \<Longrightarrow> I (d\<lparr>db_rankings := rs\<rparr>)"
begin

lemma deleteUserTx_closed:
  assumes "I (w_db w)" "deletable (w_db w) i u"
  shows "I (w_db (snd (andThen (WithTx (deleteUserTx adm i u t)) (\<lambda>_. recordAdminDeleteUserLog adm i t) w)))"
proof -
  have "I (w_db (snd (WithTx (deleteUserTx adm i u t) w)))"
    by (rule WithTx_closed) (use assms in \<open>auto dest!: deleteUserTx_success intro: delete_closed\<close>)
  moreover have "keeps (\<lambda>w. I (w_db w)) (recordAdminDeleteUserLog adm i t)"
    by (rule keeps_record) (rule actlog_closed)
  ultimately show ?thesis
    by (auto simp: andThen_def keeps_def split: prod.splits sum.splits)
qed

lemma keeps_AdminDeleteUser: "keeps (\<lambda>w. I (w_db w)) (AdminDeleteUser a adm i)"
  unfolding AdminDeleteUser_def
proof (rule keeps_andThen_post [OF keeps_deletionTarget])
  fix w u w'
  assume I: "I (w_db w)" and run: "deletionTarget a adm i w = (Inr u, w')"
  let ?t = "w_clock w' (w_nclock w')" and ?w = "w'\<lparr>w_nclock := Suc (w_nclock w')\<rparr>"
  note target = deletionTarget_success [OF run]
  show "I (w_db (snd (andThen now (\<lambda>t. andThen (endSessions a i t) (\<lambda>_.
      andThen (WithTx (deleteUserTx adm i u t)) (\<lambda>_. recordAdminDeleteUserLog adm i t))) w')))"
  proof (cases "endSessions a i ?t ?w")
    case (Pair r v)
    have "w_db v = w_db w'" using silent [OF keeps_endSessions Pair] by simp
    with I target show ?thesis
      using deleteUserTx_closed [of v i u adm ?t]
      by (cases r) (simp_all add: andThen_run now_eval bindr_simps Pair)
  qed
qed

lemma keeps_Rebuild: "keeps (\<lambda>w. I (w_db w)) Rebuild"
  unfolding Rebuild_def listUsersForRankingRebuild_def userRepo_ListAll_def rankingRepo_ReplaceAll_def
  by (intro keeps_intros keeps_WithTx_body keeps_dbExec) (auto intro: ranking_closed split: if_splits)

lemma keeps_AdminRebuildRanking: "keeps (\<lambda>w. I (w_db w)) (AdminRebuildRanking a adm)"
  unfolding AdminRebuildRanking_def
  by (intro keeps_intros keeps_Rebuild keeps_record actlog_closed; assumption)

lemma keeps_RunScheduledRebuild: "keeps (\<lambda>w. I (w_db w)) (RankingRebuildWorker_job r)"
  unfolding RankingRebuildWorker_job_def RunScheduledRebuild_def acquireRankingRebuildLock_def
  by (intro keeps_intros keeps_Rebuild)

end

lemma deletable_row:
  "deletable d i u \<Longrightarrow> u \<in> set (db_users d) \<and> user_ID u = i \<and> CanMatch u"
  by (auto simp: deletable_def dest: first_row_Some)

lemma deleted_user_simps [simp]:
  "user_ID (deleted_user u a t) = user_ID u" "user_WinCount (deleted_user u a t) = user_WinCount u"
  "user_Username (deleted_user u a t) = user_Username u" "user_Email (deleted_user u a t) = user_Email u"
  "user_Role (deleted_user u a t) = user_Role u" "user_DeletedAt (deleted_user u a t) = Some t"
  by (simp_all add: deleted_user_def)

interpretation admin_duels: admin_contract "duel_inv h" for h
proof unfold_locales
  show "duel_inv h (deleted_db adm i u t d)" if "duel_inv h d" "deletable d i u" for d i u adm t
  proof -
    have "deleted_db adm i u t d = d\<lparr>db_users := save_row user_ID (deleted_user u adm t) (db_users d),
        db_tokens := db_tokens (deleted_db adm i u t d), db_queue := db_queue (deleted_db adm i u t d)\<rparr>"
      by (simp add: deleted_db_def)
    moreover have "duel_inv h (d\<lparr>db_users := save_row user_ID (deleted_user u adm t) (db_users d)\<rparr>)"
      using deletable_row [OF that(2)] by (intro duel_inv_save_user [OF that(1), of u]) auto
    ultimately show ?thesis by (metis duel_inv_frame(1,3))
  qed
qed simp_all

interpretation admin_names: admin_contract accounts_inv
proof unfold_locales
  show "accounts_inv (deleted_db adm i u t d)" if "accounts_inv d" "deletable d i u" for d i u adm t
  proof -
    have "accounts_inv (d\<lparr>db_users := save_row user_ID (deleted_user u adm t) (db_users d)\<rparr>)"
      using that deletable_row [OF that(2)] by (intro accounts_inv_save) auto
    then show ?thesis by (simp add: accounts_inv_def deleted_db_def)
  qed
qed (simp_all add: accounts_inv_def)

interpretation admin_queue: admin_contract queue_inv
  by unfold_locales
    (auto simp: queue_inv_def deleted_db_def intro: order_trans [OF delete_rows_length])

subsection \<open>After a deletion\<close>

lemma revoked_rows:
  assumes "x \<in> set (update_rows (\<lambda>r. token_UserID r = i \<and> token_revocable r) (token_revoke t) ts)"
    and "token_UserID x = i"
  shows "\<not> token_revocable x"
proof -
  from assms(1) obtain r where "r \<in> set ts"
    "x = (if token_UserID r = i \<and> token_revocable r then token_revoke t r else r)"
    by (auto simp: update_rows_def)
  with assms(2) show ?thesis by (cases "token_UserID r = i \<and> token_revocable r")
      (auto simp: token_revoke_def token_revocable_def)
qed

lemma deleted_db_effect:
  assumes "deletable d i u" "accounts_inv d"
  shows "\<exists>v\<in>set (db_users (deleted_db adm i u t d)). user_ID v = i \<and> user_DeletedAt v = Some t \<and> user_DeletedBy v = Some adm"
    and "\<forall>v\<in>set (db_users (deleted_db adm i u t d)). user_ID v = i \<longrightarrow> IsDeleted v"
    and "\<forall>r\<in>set (db_tokens (deleted_db adm i u t d)). token_UserID r = i \<longrightarrow> \<not> token_revocable r"
    and "\<forall>e\<in>set (db_queue (deleted_db adm i u t d)). entry_UserID e \<noteq> i"
proof -
  from assms deletable_row have u: "u \<in> set (db_users d)" "user_ID u = i"
    and dist: "distinct (map user_ID (db_users d))" by (auto simp: accounts_inv_def)
  have "set (save_row user_ID (deleted_user u adm t) (db_users d)) =
      insert (deleted_user u adm t) (set (db_users d) - {u})"
    by (rule users_saved(1) [OF dist u(1)]) simp
  then have saved: "set (db_users (deleted_db adm i u t d)) =
      insert (deleted_user u adm t) (set (db_users d) - {u})"
    by (simp add: deleted_db_def)
  show "\<exists>v\<in>set (db_users (deleted_db adm i u t d)). user_ID v = i \<and> user_DeletedAt v = Some t \<and> user_DeletedBy v = Some adm"
    unfolding saved using u(2) by (simp add: deleted_user_def)
  show "\<forall>v\<in>set (db_users (deleted_db adm i u t d)). user_ID v = i \<longrightarrow> IsDeleted v"
  proof (intro ballI impI)
    fix v assume v: "v \<in> set (db_users (deleted_db adm i u t d))" "user_ID v = i"
    have "v = u" if "v \<in> set (db_users d)"
      by (rule distinct_key_eq [OF dist that u(1)]) (simp add: v(2) u(2))
    with v(1) have "v = deleted_user u adm t" unfolding saved by blast
    then show "IsDeleted v" by (simp add: IsDeleted_def)
  qed
  show "\<forall>r\<in>set (db_tokens (deleted_db adm i u t d)). token_UserID r = i \<longrightarrow> \<not> token_revocable r"
    by (auto simp: deleted_db_def dest: revoked_rows)
  show "\<forall>e\<in>set (db_queue (deleted_db adm i u t d)). entry_UserID e \<noteq> i"
    by (simp add: deleted_db_def)
qed

subsection \<open>The download\<close>

lemma csv_rows_download:
  "csv_rows (csv_file (csv_header # map (csv_row us jt) rows)) = csv_header # map (csv_row us jt) rows"
  by (rule csv_rows_file) (auto simp: csv_header_def csv_row_def)

text \<open>What an entry of the log says, text by text.\<close>

definition entry_texts :: "(uuid \<Rightarrow> string) \<Rightarrow> (json_object \<Rightarrow> string) \<Rightarrow> activity_log \<Rightarrow> string list" where
  "entry_texts us jt l = [us (actlog_ID l), case_option [] us (actlog_UserID l), actlog_LogType l,
     jt (actlog_Detail l), rfc3339 (actlog_CreatedAt l)]"

lemma csv_row_cells: "list_all2 cell_for (entry_texts us jt l) (csv_row us jt l)"
  by (simp add: csv_row_def entry_texts_def cell_for_sanitizeCSVCell split: option.split)

end
