(* ===== verification/Profile.thy ===== *)
theory Profile
  imports Repos
begin

text \<open>
  The profile and the histories of a user, \<open>usecase/profile.go\<close>.
\<close>

record GetProfileOutput =
  gp_Username :: string
  gp_WinCount :: int
  gp_Rank :: "int option"

record MatchHistoryItem =
  mh_GameID :: uuid
  mh_WinnerUsername :: string
  mh_LoserUsername :: string
  mh_FinishedAt :: time

record LoginHistoryItem =
  lh_Action :: LoginAction
  lh_CreatedAt :: time

record WSConnectionHistoryItem =
  wh_ConnectionID :: string
  wh_ConnectedAt :: time
  wh_DisconnectedAt :: "time option"

text \<open>What every operation starts with: the user must be there and not deleted.\<close>

definition profileUser :: "uuid \<Rightarrow> user go" where
  "profileUser userID =
     andThen (userRepo_FindByID userID) (\<lambda>found. case found of
       None \<Rightarrow> throw ErrUnauthorized
     | Some u \<Rightarrow> if IsDeleted u then throw ErrUnauthorized else ret u)"

fun first_rank :: "uuid \<Rightarrow> ranking list \<Rightarrow> int option" where
  "first_rank userID [] = None"
| "first_rank userID (r # rs) = (if ranking_UserID r = userID then Some (ranking_Rank r) else first_rank userID rs)"

definition GetProfile :: "uuid \<Rightarrow> GetProfileOutput go" where
  "GetProfile userID =
     andThen (profileUser userID) (\<lambda>u.
     andThen rankingRepo_ListAll (\<lambda>rankings.
     ret \<lparr>gp_Username = user_Username u, gp_WinCount = user_WinCount u, gp_Rank = first_rank userID rankings\<rparr>))"

definition GetMatchHistory :: "uuid \<Rightarrow> int \<Rightarrow> int \<Rightarrow> (MatchHistoryItem list \<times> int) go" where
  "GetMatchHistory userID page limit =
     andThen (profileUser userID) (\<lambda>_.
     andThen (matchHistoryRepo_ListByUserID userID page limit) (\<lambda>(rows, total).
     ret (map (\<lambda>h. \<lparr>mh_GameID = history_GameID h, mh_WinnerUsername = history_WinnerUsername h,
       mh_LoserUsername = history_LoserUsername h, mh_FinishedAt = history_FinishedAt h\<rparr>) rows, total)))"

definition GetLoginHistory :: "uuid \<Rightarrow> int \<Rightarrow> int \<Rightarrow> (LoginHistoryItem list \<times> int) go" where
  "GetLoginHistory userID page limit =
     andThen (profileUser userID) (\<lambda>_.
     andThen (loginLogRepo_ListByUserID userID page limit) (\<lambda>(rows, total).
     ret (map (\<lambda>row. \<lparr>lh_Action = loginlog_Action row, lh_CreatedAt = loginlog_CreatedAt row\<rparr>) rows, total)))"

definition GetWSHistory :: "uuid \<Rightarrow> int \<Rightarrow> int \<Rightarrow> (WSConnectionHistoryItem list \<times> int) go" where
  "GetWSHistory userID page limit =
     andThen (profileUser userID) (\<lambda>_.
     andThen (wsConnectionLogRepo_ListByUserID userID page limit) (\<lambda>(rows, total).
     ret (map (\<lambda>row. \<lparr>wh_ConnectionID = wslog_ConnectionID row, wh_ConnectedAt = wslog_ConnectedAt row,
       wh_DisconnectedAt = wslog_DisconnectedAt row\<rparr>) rows, total)))"

lemma keeps_profile [keeps_intros]:
  "keeps (\<lambda>w. I (w_db w)) (GetProfile u)" "keeps (\<lambda>w. I (w_db w)) (GetMatchHistory u p l)"
  "keeps (\<lambda>w. I (w_db w)) (GetLoginHistory u p l)" "keeps (\<lambda>w. I (w_db w)) (GetWSHistory u p l)"
  unfolding GetProfile_def GetMatchHistory_def GetLoginHistory_def GetWSHistory_def profileUser_def
    rankingRepo_ListAll_def matchHistoryRepo_ListByUserID_def loginLogRepo_ListByUserID_def
    wsConnectionLogRepo_ListByUserID_def Let_def
  by (intro keeps_intros)+

subsection \<open>The pages of a history\<close>

lemma profileUser_success:
  "profileUser i w = (Inr u, w') \<Longrightarrow> w_db w' = w_db w \<and> u \<in> set (db_users (w_db w)) \<and>
     user_ID u = i \<and> \<not> IsDeleted u"
  by (auto simp: profileUser_def success_iff find_defs split: option.splits if_splits dest: first_row_Some)

text \<open>Page after page, the whole list comes out, each row once and in order.\<close>

lemma sql_pages_cover:
  assumes "0 < n"
  shows "concat (map (\<lambda>p. sql_page (int p * int n) (int n) xs) [0..<m]) = take (m * n) xs"
proof (induction m)
  case (Suc m)
  have "nat (int m * int n) = m * n" by (metis nat_int of_nat_mult)
  with Suc show ?case
    by (simp add: sql_page_def take_add [of "m * n" n, symmetric] add.commute)
qed simp

end
