(* ===== verification/Controller.thy ===== *)
theory Controller
  imports Http Admin Profile
begin

text \<open>
  The handlers of \<open>backend/controller\<close> and the responses of \<open>controller/presenter.go\<close>: each handler reads
  the request, calls one operation of a use case and writes its result or its error. The operations
  come from the record \<open>Deps\<close> (\<open>router.Deps\<close>), which holds the settings of the use cases and what the
  framework and the libraries do: \<open>dp_ilike\<close> is the server's match of a search, \<open>dp_jtext\<close> the text of
  a stored detail, \<open>dp_parseTime\<close> is \<open>time.Parse(time.RFC3339, _)\<close>.
\<close>

record Deps =
  dp_Auth :: AuthUseCase
  dp_MatchNotifier :: bool
  dp_Game :: GameUseCase
  dp_Admin :: AdminUseCase
  dp_AuthMW :: AuthConfig
  dp_Users :: bool
  dp_CookieSecure :: bool
  dp_JWTExpiryMinutes :: int
  dp_RefreshTokenExpiryDays :: int
  dp_ustr :: "uuid \<Rightarrow> string"
  dp_uparse :: "string \<Rightarrow> uuid option"
  dp_ilike :: "string \<Rightarrow> string \<Rightarrow> bool"
  dp_jtext :: "json_object \<Rightarrow> string"
  dp_parseTime :: "string \<Rightarrow> time option"

subsection \<open>Responses (controller/presenter.go)\<close>

definition json_time :: "time \<Rightarrow> json_value" where
  "json_time t = JStr (rfc3339 t)"

fun json_optional :: "('x \<Rightarrow> json_value) \<Rightarrow> 'x option \<Rightarrow> json_value" where
  "json_optional f None = JNull"
| "json_optional f (Some x) = f x"

definition registerUserResponse :: "MeResult \<Rightarrow> json_value" where
  "registerUserResponse out = JObj [(''id'', JUuid (me_ID out)), (''username'', JStr (me_Username out)),
     (''role'', JStr (me_Role out)), (''winCount'', JInt (me_WinCount out))]"

definition loginResponse :: "LoginResult \<Rightarrow> json_value" where
  "loginResponse out = JObj [(''id'', JUuid (lr_ID out)), (''username'', JStr (lr_Username out)),
     (''role'', JStr (lr_Role out))]"

definition getMeResponse :: "MeResult \<Rightarrow> json_value" where
  "getMeResponse out = JObj [(''id'', JUuid (me_ID out)), (''username'', JStr (me_Username out)),
     (''role'', JStr (me_Role out)), (''winCount'', JInt (me_WinCount out))]"

definition getProfileResponse :: "GetProfileOutput \<Rightarrow> json_value" where
  "getProfileResponse out = JObj [(''username'', JStr (gp_Username out)),
     (''winCount'', JInt (gp_WinCount out)), (''rank'', json_optional JInt (gp_Rank out))]"

definition matchHistoryResponse :: "MatchHistoryItem list \<Rightarrow> json_value" where
  "matchHistoryResponse items = JArr (map (\<lambda>item. JObj [(''gameId'', JUuid (mh_GameID item)),
     (''winnerUsername'', JStr (mh_WinnerUsername item)),
     (''loserUsername'', JStr (mh_LoserUsername item)),
     (''finishedAt'', json_time (mh_FinishedAt item))]) items)"

definition loginHistoryResponse :: "LoginHistoryItem list \<Rightarrow> json_value" where
  "loginHistoryResponse items = JArr (map (\<lambda>item. JObj
     [(''action'', JStr (loginActionLabel (lh_Action item))),
      (''createdAt'', json_time (lh_CreatedAt item))]) items)"

definition wsHistoryResponse :: "WSConnectionHistoryItem list \<Rightarrow> json_value" where
  "wsHistoryResponse items = JArr (map (\<lambda>item. JObj
     [(''connectionId'', JStr (wh_ConnectionID item)),
      (''connectedAt'', json_time (wh_ConnectedAt item)),
      (''disconnectedAt'', json_optional json_time (wh_DisconnectedAt item))]) items)"

definition rankingResponse :: "RankingItem list \<Rightarrow> json_value" where
  "rankingResponse items = JArr (map (\<lambda>item. JObj [(''rank'', JInt (ri_Rank item)),
     (''username'', JStr (ri_Username item)), (''winCount'', JInt (ri_WinCount item))]) items)"

definition adminUsersResponse :: "AdminUserItem list \<Rightarrow> json_value" where
  "adminUsersResponse items = JArr (map (\<lambda>u. JObj
     [(''id'', JUuid (ai_ID u)), (''username'', JStr (ai_Username u)), (''email'', JStr (ai_Email u)),
      (''role'', JStr (Role_string (ai_Role u))), (''winCount'', JInt (ai_WinCount u)),
      (''deletedAt'', json_optional json_time (ai_DeletedAt u)),
      (''createdAt'', json_time (ai_CreatedAt u))]) items)"

definition activityLogsResponse :: "ActivityLogItem list \<Rightarrow> json_value" where
  "activityLogsResponse items = JArr (map (\<lambda>item. JObj
     [(''id'', JUuid (li_ID item)), (''userId'', json_optional JUuid (li_UserID item)),
      (''logType'', JStr (li_LogType item)), (''detail'', JObj (li_Detail item)),
      (''createdAt'', json_time (li_CreatedAt item))]) items)"

definition logTypesResponse :: "string list \<Rightarrow> json_value" where
  "logTypesResponse types = JObj [(''logTypes'', JArr (map JStr types))]"

definition backupStatusResponse :: "BackupStatus \<Rightarrow> json_value" where
  "backupStatusResponse out = JObj [(''status'', JStr (bs_Status out)),
     (''lastSyncedAt'', json_optional json_time (bs_LastSyncedAt out))]"

definition startMatchingResponse :: "MatchingOutput \<Rightarrow> json_value" where
  "startMatchingResponse out = JObj [(''status'', JStr (mo_Status out)),
     (''gameId'', json_optional JUuid (mo_GameID out))]"

definition cancelMatchingResponse :: "MatchingOutput \<Rightarrow> json_value" where
  "cancelMatchingResponse out = JObj [(''status'', JStr (mo_Status out))]"

definition matchingStatusResponse :: "MatchingOutput \<Rightarrow> json_value" where
  "matchingStatusResponse out = JObj [(''status'', JStr (mo_Status out)),
     (''gameId'', json_optional JUuid (mo_GameID out))]"

definition gameStateResponse :: "GameStateOutput \<Rightarrow> json_value" where
  "gameStateResponse s =
     (let guesses = map (\<lambda>row. JObj
        [(''turn'', JInt (gs_Turn row)), (''guessNumber'', JStr (gs_GuessNumber row)),
         (''digitResults'', JArr (map JInt (gs_DigitResults row))), (''hitCount'', JInt (gs_HitCount row)),
         (''isAuto'', JBool (gs_IsAuto row))]) (out_MyGuesses s) in
      JObj [(''gameId'', JUuid (out_GameID s)), (''status'', JStr (GameStatus_string (out_Status s))),
        (''currentTurn'', JInt (out_CurrentTurn s)),
        (''currentTurnPlayerID'', player_text (out_CurrentTurnPlayerID s)),
        (''remainingSeconds'', JInt (out_RemainingSeconds s)), (''myGuesses'', JArr guesses),
        (''opponentGuessCount'', JInt (out_OpponentGuessCount s))])"

subsection \<open>Accounts and sessions (controller/auth.go)\<close>

definition field :: "(string \<times> string) list \<Rightarrow> string \<Rightarrow> string" where
  "field fs name = (case map_of fs name of None \<Rightarrow> '''' | Some v \<Rightarrow> v)"

definition auth_cookie :: "Deps \<Rightarrow> string \<Rightarrow> string \<Rightarrow> string \<Rightarrow> int \<Rightarrow> cookie" where
  "auth_cookie h name value path maxAge =
     \<lparr>ck_Name = name, ck_Value = value, ck_Path = path, ck_HttpOnly = True,
      ck_Secure = dp_CookieSecure h, ck_MaxAge = maxAge\<rparr>"

definition setAuthCookies :: "Deps \<Rightarrow> string \<Rightarrow> string \<Rightarrow> response \<Rightarrow> response" where
  "setAuthCookies h accessToken refreshToken r = r\<lparr>rs_Cookies := rs_Cookies r @
     [auth_cookie h ''access_token'' accessToken ''/'' (dp_JWTExpiryMinutes h * 60),
      auth_cookie h ''refresh_token'' refreshToken ''/api/auth/refresh'' (dp_RefreshTokenExpiryDays h * 86400)]\<rparr>"

definition clearAuthCookies :: "Deps \<Rightarrow> response \<Rightarrow> response" where
  "clearAuthCookies h r = r\<lparr>rs_Cookies := rs_Cookies r @
     [auth_cookie h ''access_token'' '''' ''/'' 0,
      auth_cookie h ''refresh_token'' '''' ''/api/auth/refresh'' 0]\<rparr>"

definition NoContent :: "int \<Rightarrow> response" where
  "NoContent status = respond status NoBody"

definition ctl_Register :: "Deps \<Rightarrow> handler" where
  "ctl_Register h c = (case rq_Body (cx_Request c) of
     None \<Rightarrow> reply c (WriteError ErrBadRequest)
   | Some req \<Rightarrow> answer c (Register (dp_Auth h) (field req ''username'') (field req ''email'') (field req ''password''))
       (\<lambda>out. WriteData 201 (registerUserResponse out)))"

definition ctl_Login :: "Deps \<Rightarrow> handler" where
  "ctl_Login h c = (case rq_Body (cx_Request c) of
     None \<Rightarrow> reply c (WriteError ErrBadRequest)
   | Some req \<Rightarrow> answer c (Login (dp_Auth h) (field req ''email'') (field req ''password''))
       (\<lambda>out. setAuthCookies h (lr_AccessToken out) (lr_RefreshToken out) (WriteData 200 (loginResponse out))))"

definition ctl_Refresh :: "Deps \<Rightarrow> handler" where
  "ctl_Refresh h c = (case map_of (rq_Cookies (cx_Request c)) ''refresh_token'' of
     None \<Rightarrow> reply c (WriteError ErrUnauthorized)
   | Some value \<Rightarrow>
       if value = '''' then reply c (WriteError ErrUnauthorized)
       else answer c (Refresh (dp_Auth h) value)
         (\<lambda>out. setAuthCookies h (st_AccessToken out) (st_RefreshToken out) (WriteData 200 (JObj []))))"

text \<open>The handlers behind the authentication read what it left.\<close>

definition withAuth :: "httpContext \<Rightarrow> (AuthInfo \<Rightarrow> (httpContext \<times> response) go) \<Rightarrow> (httpContext \<times> response) go" where
  "withAuth c k = (case AuthFrom c of None \<Rightarrow> reply c (WriteError ErrUnauthorized) | Some auth \<Rightarrow> k auth)"

definition ctl_Logout :: "Deps \<Rightarrow> handler" where
  "ctl_Logout h c = withAuth c (\<lambda>auth.
     answer c (Logout (dp_Auth h) (an_UserID auth) (an_JTI auth) (an_ExpiresAt auth))
       (\<lambda>_. clearAuthCookies h (NoContent 204)))"

subsection \<open>The user's own data (controller/me.go)\<close>

definition ctl_Me :: handler where
  "ctl_Me c = withAuth c (\<lambda>auth.
     answer c (GetMe (an_UserID auth)) (\<lambda>out. WriteData 200 (getMeResponse out)))"

definition ctl_GetProfile :: handler where
  "ctl_GetProfile c = withAuth c (\<lambda>auth.
     answer c (GetProfile (an_UserID auth)) (\<lambda>out. WriteData 200 (getProfileResponse out)))"

definition ctl_MatchHistory :: handler where
  "ctl_MatchHistory c = withAuth c (\<lambda>auth.
     let (page, limit) = ParsePageLimit (cx_Request c) in
     answer c (GetMatchHistory (an_UserID auth) page limit)
       (\<lambda>(items, n). WritePaged 200 (matchHistoryResponse items) page limit n))"

definition ctl_LoginHistory :: handler where
  "ctl_LoginHistory c = withAuth c (\<lambda>auth.
     let (page, limit) = ParsePageLimit (cx_Request c) in
     answer c (GetLoginHistory (an_UserID auth) page limit)
       (\<lambda>(items, n). WritePaged 200 (loginHistoryResponse items) page limit n))"

definition ctl_WSHistory :: handler where
  "ctl_WSHistory c = withAuth c (\<lambda>auth.
     let (page, limit) = ParsePageLimit (cx_Request c) in
     answer c (GetWSHistory (an_UserID auth) page limit)
       (\<lambda>(items, n). WritePaged 200 (wsHistoryResponse items) page limit n))"

subsection \<open>Matching, games and the ranking (controller/matching.go, game.go, ranking.go)\<close>

definition ctl_StartMatching :: "Deps \<Rightarrow> handler" where
  "ctl_StartMatching h c = withAuth c (\<lambda>auth.
     answer c (StartMatching (dp_MatchNotifier h) (an_UserID auth))
       (\<lambda>out. WriteData 200 (startMatchingResponse out)))"

definition ctl_CancelMatching :: handler where
  "ctl_CancelMatching c = withAuth c (\<lambda>auth.
     answer c (CancelMatching (an_UserID auth)) (\<lambda>out. WriteData 200 (cancelMatchingResponse out)))"

definition ctl_MatchingStatus :: handler where
  "ctl_MatchingStatus c = withAuth c (\<lambda>auth.
     answer c (MatchingStatus (an_UserID auth)) (\<lambda>out. WriteData 200 (matchingStatusResponse out)))"

definition ctl_GetGame :: "Deps \<Rightarrow> handler" where
  "ctl_GetGame h c = withAuth c (\<lambda>auth.
     case dp_uparse h (Param (cx_Request c) ''id'') of
       None \<Rightarrow> reply c (WriteError ErrBadRequest)
     | Some gameID \<Rightarrow> answer c (GetGameState (dp_Game h) (an_UserID auth) gameID)
         (\<lambda>out. WriteData 200 (gameStateResponse out)))"

definition ctl_Ranking :: handler where
  "ctl_Ranking c = answer c GetRanking (\<lambda>items. WriteData 200 (rankingResponse items))"

subsection \<open>Administration (controller/admin.go)\<close>

definition parseUUIDParam :: "Deps \<Rightarrow> request \<Rightarrow> string \<Rightarrow> go_error + uuid" where
  "parseUUIDParam h rq name = (case dp_uparse h (Param rq name) of None \<Rightarrow> Inl ErrBadRequest | Some i \<Rightarrow> Inr i)"

definition parseOptionalUUID :: "Deps \<Rightarrow> string \<Rightarrow> go_error + uuid option" where
  "parseOptionalUUID h raw =
     (if raw = '''' then Inr None
      else case dp_uparse h raw of None \<Rightarrow> Inl ErrBadRequest | Some i \<Rightarrow> Inr (Some i))"

definition parseOptionalTime :: "Deps \<Rightarrow> string \<Rightarrow> go_error + time option" where
  "parseOptionalTime h raw =
     (if raw = '''' then Inr None
      else case dp_parseTime h raw of None \<Rightarrow> Inl ErrBadRequest | Some t \<Rightarrow> Inr (Some t))"

definition ctl_ListUsers :: handler where
  "ctl_ListUsers c =
     (let (page, limit) = ParsePageLimit (cx_Request c) in
      answer c (ListUsers page limit) (\<lambda>(items, n). WritePaged 200 (adminUsersResponse items) page limit n))"

definition ctl_SearchUsers :: "Deps \<Rightarrow> handler" where
  "ctl_SearchUsers h c =
     answer c (SearchUsers (dp_ilike h) (QueryParam (cx_Request c) ''q''))
       (\<lambda>items. WriteData 200 (adminUsersResponse items))"

definition ctl_DeleteUser :: "Deps \<Rightarrow> handler" where
  "ctl_DeleteUser h c = withAuth c (\<lambda>auth.
     answer c (andThen (lift_result (parseUUIDParam h (cx_Request c) ''id'')) (\<lambda>targetID.
         AdminDeleteUser (dp_Admin h) (an_UserID auth) targetID))
       (\<lambda>_. NoContent 204))"

definition ctl_RebuildRanking :: "Deps \<Rightarrow> handler" where
  "ctl_RebuildRanking h c = withAuth c (\<lambda>auth.
     answer c (AdminRebuildRanking (dp_Admin h) (an_UserID auth)) (\<lambda>_. NoContent 204))"

text \<open>The filters of the two log handlers.\<close>

definition logFilters :: "Deps \<Rightarrow> request \<Rightarrow> (uuid option \<times> time option \<times> time option) go" where
  "logFilters h rq =
     andThen (lift_result (parseOptionalUUID h (QueryParam rq ''userId''))) (\<lambda>userID.
     andThen (lift_result (parseOptionalTime h (QueryParam rq ''from''))) (\<lambda>from.
     andThen (lift_result (parseOptionalTime h (QueryParam rq ''to''))) (\<lambda>to.
     ret (userID, from, to))))"

definition ctl_SearchLogs :: "Deps \<Rightarrow> handler" where
  "ctl_SearchLogs h c =
     (let rq = cx_Request c; (page, limit) = ParsePageLimit rq in
      answer c (andThen (logFilters h rq) (\<lambda>(userID, from, to).
          SearchActivityLogs (QueryParam rq ''logType'') userID from to page limit))
        (\<lambda>(items, n). WritePaged 200 (activityLogsResponse items) page limit n))"

definition ctl_ListLogTypes :: handler where
  "ctl_ListLogTypes c = answer c ListActivityLogTypes (\<lambda>types. WriteData 200 (logTypesResponse types))"

text \<open>\<open>time.Now().UTC().Format("20060102T150405Z")\<close>.\<close>

definition compact_time :: "time \<Rightarrow> string" where
  "compact_time t = filter (\<lambda>c. c \<noteq> CHR '':'' \<and> c \<noteq> CHR ''-'') (rfc3339 t)"

definition quote :: char where
  "quote = CHR 0x22"

definition ctl_DownloadLogs :: "Deps \<Rightarrow> handler" where
  "ctl_DownloadLogs h c = withAuth c (\<lambda>auth.
     let rq = cx_Request c in
     answer c (andThen (logFilters h rq) (\<lambda>(userID, from, to).
         andThen (DownloadActivityLogsCSV (dp_ustr h) (dp_jtext h) (dp_Admin h) (an_UserID auth)
           (QueryParam rq ''logType'') userID from to) (\<lambda>csvData.
         andThen now (\<lambda>t. ret (csvData, ''activity_logs_'' @ compact_time t @ ''.csv'')))))
       (\<lambda>(csvData, filename). \<lparr>rs_Status = 200, rs_Body = Blob ''text/csv'' csvData, rs_Cookies = [],
          rs_Headers = [(''Content-Disposition'', ''attachment; filename='' @ [quote] @ filename @ [quote]),
            (''Content-Type'', ''text/csv; charset=utf-8'')]\<rparr>))"

definition ctl_BackupStatus :: "Deps \<Rightarrow> handler" where
  "ctl_BackupStatus h c = answer c (AdminGetBackupStatus (dp_Admin h))
     (\<lambda>out. WriteData 200 (backupStatusResponse out))"

end
