(* ===== verification/Router.thy ===== *)
theory Router
  imports Controller
begin

text \<open>
  \<open>router/router.go\<close> and the chain of middlewares that \<open>main.go\<close> puts around it: the table of routes
  with their handlers, and \<open>serve_http\<close>, the answer to a request. The framework matches a request to
  its route; a request without a route gets its \<open>404\<close>. The \<open>CORS\<close> middleware is the framework's; the
  code chooses its configuration.
\<close>

subsection \<open>The CORS middleware (middleware/cors.go)\<close>

text \<open>
  What the framework's middleware is configured with; without origins there is none. The headers it
  then sends are the framework's.
\<close>

record CORSConfig =
  cors_AllowOrigins :: "string list"
  cors_AllowMethods :: "string list"
  cors_AllowHeaders :: "string list"
  cors_AllowCredentials :: bool
  cors_ExposeHeaders :: "string list"

definition CORS :: "string list \<Rightarrow> CORSConfig option" where
  "CORS origins =
     (if origins = [] then None
      else Some \<lparr>cors_AllowOrigins = origins,
        cors_AllowMethods = [''GET'', ''POST'', ''DELETE'', ''OPTIONS''],
        cors_AllowHeaders = [''Origin'', ''Content-Type'', ''Accept'', ''Cookie''],
        cors_AllowCredentials = True, cors_ExposeHeaders = [''Set-Cookie'']\<rparr>)"

subsection \<open>Routes\<close>

definition api :: "handler \<Rightarrow> handler" where
  "api nxt = RateLimitPublic nxt"

definition protected :: "Deps \<Rightarrow> handler \<Rightarrow> handler" where
  "protected h nxt =
     api (AuthMiddleware (dp_AuthMW h) (UserRateLimit (dp_ustr h) (ActivityUpdate (dp_Users h) nxt)))"

definition adminGroup :: "Deps \<Rightarrow> handler \<Rightarrow> handler" where
  "adminGroup h nxt = protected h (AdminMiddleware nxt)"

definition public_routes :: "Deps \<Rightarrow> (string \<times> string \<times> handler) list" where
  "public_routes h =
     [(''POST'', ''/api/auth/register'', ctl_Register h),
      (''POST'', ''/api/auth/login'', ctl_Login h),
      (''POST'', ''/api/auth/refresh'', ctl_Refresh h)]"

definition user_routes :: "Deps \<Rightarrow> (string \<times> string \<times> handler) list" where
  "user_routes h =
     [(''POST'', ''/api/auth/logout'', ctl_Logout h),
      (''GET'', ''/api/me'', ctl_Me),
      (''GET'', ''/api/me/profile'', ctl_GetProfile),
      (''GET'', ''/api/me/match-history'', ctl_MatchHistory),
      (''GET'', ''/api/me/login-history'', ctl_LoginHistory),
      (''GET'', ''/api/me/ws-history'', ctl_WSHistory),
      (''POST'', ''/api/matching/start'', ctl_StartMatching h),
      (''POST'', ''/api/matching/cancel'', ctl_CancelMatching),
      (''GET'', ''/api/matching/status'', ctl_MatchingStatus),
      (''GET'', ''/api/games/:id'', ctl_GetGame h),
      (''GET'', ''/api/ranking'', ctl_Ranking)]"

definition admin_routes :: "Deps \<Rightarrow> (string \<times> string \<times> handler) list" where
  "admin_routes h =
     [(''GET'', ''/api/admin/users'', ctl_ListUsers),
      (''GET'', ''/api/admin/users/search'', ctl_SearchUsers h),
      (''DELETE'', ''/api/admin/users/:id'', ctl_DeleteUser h),
      (''POST'', ''/api/admin/ranking/rebuild'', ctl_RebuildRanking h),
      (''GET'', ''/api/admin/logs/types'', ctl_ListLogTypes),
      (''GET'', ''/api/admin/logs'', ctl_SearchLogs h),
      (''GET'', ''/api/admin/logs/download'', ctl_DownloadLogs h),
      (''GET'', ''/api/admin/backup/status'', ctl_BackupStatus h)]"

definition routes :: "Deps \<Rightarrow> (string \<times> string \<times> handler) list" where
  "routes h =
     map (\<lambda>(m, p, k). (m, p, api k)) (public_routes h) @
     map (\<lambda>(m, p, k). (m, p, protected h k)) (user_routes h) @
     map (\<lambda>(m, p, k). (m, p, adminGroup h k)) (admin_routes h)"

fun find_route :: "string \<Rightarrow> string \<Rightarrow> (string \<times> string \<times> handler) list \<Rightarrow> handler option" where
  "find_route m p [] = None"
| "find_route m p ((m', p', k) # rs) = (if m' = m \<and> p' = p then Some k else find_route m p rs)"

text \<open>
  \<open>/health\<close> of \<open>main.go\<close>: pinging the database is a call that may fail.
\<close>

definition ctl_Health :: handler where
  "ctl_Health c = andThen (attempt (io (ret ()))) (\<lambda>res. case res of
     Inl _ \<Rightarrow> reply c (respond 503 (JsonBody (JObj [(''error'', JObj [(''code'', JStr ''internal_error''),
       (''message'', JStr ''database unavailable'')])])))
   | Inr _ \<Rightarrow> reply c (respond 200 (JsonBody (JObj [(''data'', JObj [(''status'', JStr ''ok'')])]))))"

definition ctl_NotFound :: handler where
  "ctl_NotFound c = reply c (respond 404 NoBody)"

definition route :: "Deps \<Rightarrow> handler" where
  "route h c =
     (let rq = cx_Request c in
      case find_route (rq_Method rq) (rq_Path rq) ((''GET'', ''/health'', ctl_Health) # routes h) of
        None \<Rightarrow> ctl_NotFound c
      | Some k \<Rightarrow> k c)"

definition serve_http :: "Deps \<Rightarrow> request \<Rightarrow> response go" where
  "serve_http h rq =
     andThen (RecoverMiddleware (RequestLog (dp_Users h) (route h)) \<lparr>cx_Request = rq, cx_Auth = None\<rparr>)
       (\<lambda>(_, r). ret r)"

end
