(* ===== verification/Config.thy ===== *)
theory Config
  imports Strconv Auth
begin

text \<open>
  \<open>config/env.go\<close>: the settings read from the environment, with their defaults and the checks that
  make the program stop at its start. The environment is the function \<open>getenv\<close>, which gives the empty
  string for a variable that is not set.
\<close>

record Config =
  cf_Production :: bool
  cf_DatabaseURL :: string
  cf_BackupDatabaseURL :: string
  cf_Port :: int
  cf_JWTSecret :: string
  cf_JWTExpiryMinutes :: int
  cf_RefreshTokenExpiryDays :: int
  cf_CookieSecure :: bool
  cf_GameSecretPepper :: string
  cf_GameLockSeconds :: int
  cf_AdminLockSeconds :: int
  cf_TurnDurationSeconds :: int
  cf_TurnTimeoutPollSeconds :: int
  cf_SecretSetupSeconds :: int
  cf_SecretTimeoutPollSeconds :: int
  cf_SessionTimeoutMinutes :: int
  cf_AutoLogoutPollSeconds :: int
  cf_BackupCron :: string
  cf_RankingRebuildCron :: string
  cf_LogRetentionCron :: string
  cf_ActivityLogRetentionDays :: int
  cf_LoginLogRetentionDays :: int
  cf_WSLogRetentionDays :: int
  cf_RetentionBatchSize :: int
  cf_RetentionBatchSleepMs :: int
  cf_RefreshTokenCleanupCron :: string
  cf_RefreshTokenCleanupGraceDays :: int
  cf_CORSAllowedOrigins :: "string list"
  cf_WSAllowedOrigins :: "string list"
  cf_MasterEmail :: string
  cf_MasterPassword :: string

subsection \<open>Reading the environment\<close>

type_synonym env = "string \<Rightarrow> string"

definition envInt :: "env \<Rightarrow> string \<Rightarrow> int \<Rightarrow> int" where
  "envInt getenv key fallback =
     (let raw = getenv key in
      if raw = '''' then fallback else case Atoi raw of None \<Rightarrow> fallback | Some v \<Rightarrow> v)"

definition envBool :: "env \<Rightarrow> string \<Rightarrow> bool \<Rightarrow> bool" where
  "envBool getenv key fallback =
     (let raw = getenv key in
      if raw = '''' then fallback else case ParseBool raw of None \<Rightarrow> fallback | Some v \<Rightarrow> v)"

definition envString :: "env \<Rightarrow> string \<Rightarrow> string \<Rightarrow> string" where
  "envString getenv key fallback = (let raw = getenv key in if raw = '''' then fallback else raw)"

fun isProductionEnv :: "string list \<Rightarrow> bool" where
  "isProductionEnv [] = False"
| "isProductionEnv (v # vs) =
     (let s = ToLower (TrimSpace v) in
      if s = ''production'' \<or> s = ''prod'' then True else isProductionEnv vs)"

definition redisAddrConfigured :: "env \<Rightarrow> string" where
  "redisAddrConfigured getenv =
     (let u = TrimSpace (getenv ''REDIS_URL''); a = TrimSpace (getenv ''REDIS_ADDR'') in
      if u \<noteq> '''' then u else if a \<noteq> '''' then a else '''')"

text \<open>The two lists of origins: separated by commas, trimmed, and without empty entries.\<close>

definition origins :: "string \<Rightarrow> string list" where
  "origins raw =
     (if raw = '''' then [] else filter (\<lambda>o'. o' \<noteq> '''') (map TrimSpace (split_on CHR '','' raw)))"

definition read_config :: "env \<Rightarrow> Config" where
  "read_config getenv =
     \<lparr>cf_Production = isProductionEnv [getenv ''APP_ENV'', getenv ''ENV''],
      cf_DatabaseURL = getenv ''DATABASE_URL'',
      cf_BackupDatabaseURL = getenv ''BACKUP_DATABASE_URL'',
      cf_Port = envInt getenv ''PORT'' 8090,
      cf_JWTSecret = getenv ''JWT_SECRET'',
      cf_JWTExpiryMinutes = envInt getenv ''JWT_EXPIRY_MINUTES'' 60,
      cf_RefreshTokenExpiryDays = envInt getenv ''REFRESH_TOKEN_EXPIRY_DAYS'' 7,
      cf_CookieSecure = envBool getenv ''COOKIE_SECURE'' False,
      cf_GameSecretPepper = getenv ''GAME_SECRET_PEPPER'',
      cf_GameLockSeconds = envInt getenv ''GAME_LOCK_SECONDS'' 2,
      cf_AdminLockSeconds = envInt getenv ''ADMIN_LOCK_SECONDS'' 5,
      cf_TurnDurationSeconds = envInt getenv ''TURN_DURATION_SECONDS'' 30,
      cf_TurnTimeoutPollSeconds = envInt getenv ''TURN_TIMEOUT_POLL_SECONDS'' 1,
      cf_SecretSetupSeconds = envInt getenv ''SECRET_SETUP_SECONDS'' 60,
      cf_SecretTimeoutPollSeconds = envInt getenv ''SECRET_TIMEOUT_POLL_SECONDS'' 1,
      cf_SessionTimeoutMinutes = envInt getenv ''SESSION_TIMEOUT_MINUTES'' 5,
      cf_AutoLogoutPollSeconds = envInt getenv ''AUTO_LOGOUT_POLL_SECONDS'' 60,
      cf_BackupCron = envString getenv ''BACKUP_CRON'' ''0 3 * * *'',
      cf_RankingRebuildCron = envString getenv ''RANKING_REBUILD_CRON'' ''*/10 * * * *'',
      cf_LogRetentionCron = envString getenv ''LOG_RETENTION_CRON'' ''30 3 * * 0'',
      cf_ActivityLogRetentionDays = envInt getenv ''ACTIVITY_LOG_RETENTION_DAYS'' 90,
      cf_LoginLogRetentionDays = envInt getenv ''LOGIN_LOG_RETENTION_DAYS'' 90,
      cf_WSLogRetentionDays = envInt getenv ''WS_LOG_RETENTION_DAYS'' 30,
      cf_RetentionBatchSize = envInt getenv ''RETENTION_BATCH_SIZE'' 1000,
      cf_RetentionBatchSleepMs = envInt getenv ''RETENTION_BATCH_SLEEP_MS'' 100,
      cf_RefreshTokenCleanupCron = envString getenv ''REFRESH_TOKEN_CLEANUP_CRON'' ''0 4 * * *'',
      cf_RefreshTokenCleanupGraceDays = envInt getenv ''REFRESH_TOKEN_CLEANUP_GRACE_DAYS'' 7,
      cf_CORSAllowedOrigins = origins (getenv ''CORS_ALLOWED_ORIGINS''),
      cf_WSAllowedOrigins = origins (getenv ''WS_ALLOWED_ORIGINS''),
      cf_MasterEmail = getenv ''NUMDUEL_MASTER_EMAIL'',
      cf_MasterPassword = getenv ''NUMDUEL_MASTER_PASSWORD''\<rparr>"

definition LoadFromEnv :: "env \<Rightarrow> go_error + Config" where
  "LoadFromEnv getenv =
     (let cfg = read_config getenv in
      if cf_DatabaseURL cfg = '''' then
        Inl (ErrText ''DATABASE_URL is required (set in .env or export in shell)'')
      else if cf_JWTSecret cfg = '''' then
        Inl (ErrText ''JWT_SECRET is required (set in .env or export in shell)'')
      else if length (cf_JWTSecret cfg) < 32 then Inl (ErrText ''JWT_SECRET must be at least 32 characters'')
      else if cf_GameSecretPepper cfg = '''' then
        Inl (ErrText ''GAME_SECRET_PEPPER is required (set in .env or export in shell)'')
      else if length (cf_GameSecretPepper cfg) < 32 then
        Inl (ErrText ''GAME_SECRET_PEPPER must be at least 32 bytes'')
      else if cf_Port cfg \<le> 0 \<or> cf_JWTExpiryMinutes cfg \<le> 0 \<or> cf_RefreshTokenExpiryDays cfg \<le> 0 then
        Inl (ErrText ''invalid numeric config'')
      else if cf_GameLockSeconds cfg \<le> 0 \<or> cf_AdminLockSeconds cfg \<le> 0 \<or>
          cf_TurnDurationSeconds cfg \<le> 0 \<or> cf_SecretSetupSeconds cfg \<le> 0 then
        Inl (ErrText ''invalid game timing config'')
      else if cf_SessionTimeoutMinutes cfg \<le> 0 \<or> cf_AutoLogoutPollSeconds cfg \<le> 0 then
        Inl (ErrText ''invalid session config'')
      else if cf_Production cfg \<and> redisAddrConfigured getenv = '''' then
        Inl (ErrText ''REDIS_URL or REDIS_ADDR is required when APP_ENV=production'')
      else Inr cfg)"

subsection \<open>Durations\<close>

text \<open>\<open>time.Duration(n) * time.Second\<close> is a product of 64-bit integers, which wraps around.\<close>

definition go_duration :: "int \<Rightarrow> duration \<Rightarrow> duration" where
  "go_duration n unit = wrap64 (n * unit)"

definition cf_GameLockTTL :: "Config \<Rightarrow> duration" where
  "cf_GameLockTTL c = go_duration (cf_GameLockSeconds c) second"

definition cf_AdminLockTTL :: "Config \<Rightarrow> duration" where
  "cf_AdminLockTTL c = go_duration (cf_AdminLockSeconds c) second"

definition cf_TurnDuration :: "Config \<Rightarrow> duration" where
  "cf_TurnDuration c = go_duration (cf_TurnDurationSeconds c) second"

definition cf_TurnTimeoutPollInterval :: "Config \<Rightarrow> duration" where
  "cf_TurnTimeoutPollInterval c = go_duration (cf_TurnTimeoutPollSeconds c) second"

definition cf_SecretSetupDuration :: "Config \<Rightarrow> duration" where
  "cf_SecretSetupDuration c = go_duration (cf_SecretSetupSeconds c) second"

definition cf_SecretTimeoutPollInterval :: "Config \<Rightarrow> duration" where
  "cf_SecretTimeoutPollInterval c = go_duration (cf_SecretTimeoutPollSeconds c) second"

definition cf_SessionTimeout :: "Config \<Rightarrow> duration" where
  "cf_SessionTimeout c = go_duration (cf_SessionTimeoutMinutes c) (60 * second)"

definition cf_AutoLogoutPollInterval :: "Config \<Rightarrow> duration" where
  "cf_AutoLogoutPollInterval c = go_duration (cf_AutoLogoutPollSeconds c) second"

definition cf_RetentionBatchSleep :: "Config \<Rightarrow> duration" where
  "cf_RetentionBatchSleep c = go_duration (cf_RetentionBatchSleepMs c) 1000000"

subsection \<open>What a loaded configuration promises\<close>

lemma LoadFromEnv_Inr:
  assumes "LoadFromEnv getenv = Inr cfg"
  shows "cfg = read_config getenv" "cf_DatabaseURL cfg \<noteq> ''''"
    "32 \<le> length (cf_JWTSecret cfg)" "32 \<le> length (cf_GameSecretPepper cfg)"
    "0 < cf_Port cfg" "0 < cf_JWTExpiryMinutes cfg" "0 < cf_RefreshTokenExpiryDays cfg"
    "0 < cf_GameLockSeconds cfg" "0 < cf_AdminLockSeconds cfg" "0 < cf_TurnDurationSeconds cfg"
    "0 < cf_SecretSetupSeconds cfg" "0 < cf_SessionTimeoutMinutes cfg" "0 < cf_AutoLogoutPollSeconds cfg"
    "cf_Production cfg \<longrightarrow> redisAddrConfigured getenv \<noteq> ''''"
  using assms by (auto simp: LoadFromEnv_def Let_def not_less not_le split: if_splits)

lemma NewServices_loaded:
  assumes "LoadFromEnv getenv = Inr cfg"
  shows "NewJWTService (cf_JWTSecret cfg) (cf_JWTExpiryMinutes cfg) =
      Inr (cf_JWTSecret cfg, cf_JWTExpiryMinutes cfg)"
    "NewSecretHashService (cf_GameSecretPepper cfg) = Inr (cf_GameSecretPepper cfg)"
  using LoadFromEnv_Inr(3,4,6) [OF assms] by (simp_all add: NewJWTService_def NewSecretHashService_def)

text \<open>A positive number of seconds is a positive duration as long as it fits in 64 bits.\<close>

lemma go_duration_positive:
  "0 < n \<Longrightarrow> 0 < unit \<Longrightarrow> n * unit < 2 ^ 63 \<Longrightarrow> go_duration n unit = n * unit \<and> 0 < go_duration n unit"
proof -
  assume "0 < n" "0 < unit" and high: "n * unit < 2 ^ 63"
  then have pos: "0 < n * unit" by simp
  have low: "- (2 ^ 63) \<le> n * unit" by (rule order_trans [OF _ less_imp_le [OF pos]]) simp
  show ?thesis unfolding go_duration_def wrap64_id [OF low high] by (intro conjI refl pos)
qed

end
