(* ===== verification/Retention.thy ===== *)
theory Retention
  imports Repos
begin

text \<open>
  The clean-up of old logs, \<open>usecase/log\_retention.go\<close>: \<open>purgeLogBatches\<close> deletes one batch after the
  other until a batch is empty. The loop is a partial function, \<open>None\<close> when it never ends; that it
  always ends is proved. The context of a run may be cancelled: \<open>done k\<close> says whether it is when
  the run looks for the \<open>k\<close>-th time.
\<close>

subsection \<open>The loop\<close>

definition canceled :: go_error where
  "canceled = ErrText ''context canceled''"

type_synonym deleteFn = "time \<Rightarrow> int \<Rightarrow> int go"

text \<open>The result, the number of times the run has looked at its context, and the world.\<close>

partial_function (option) purgeLogBatches ::
  "(nat \<Rightarrow> bool) \<Rightarrow> nat \<Rightarrow> time \<Rightarrow> int \<Rightarrow> duration \<Rightarrow> deleteFn \<Rightarrow> world \<Rightarrow> ((go_error + unit) \<times> nat \<times> world) option"
  where
  "purgeLogBatches done k before batchSize sleep deleteFn w =
     (if done k then Some (Inl canceled, Suc k, w)
      else case deleteFn before batchSize w of
        (Inl e, w') \<Rightarrow> Some (Inl e, Suc k, w')
      | (Inr n, w') \<Rightarrow>
          if n = 0 then Some (Inr (), Suc k, w')
          else if sleep \<le> 0 then purgeLogBatches done (Suc k) before batchSize sleep deleteFn w'
          else if done (Suc k) then Some (Inl canceled, Suc (Suc k), w')
          else purgeLogBatches done (Suc (Suc k)) before batchSize sleep deleteFn w')"

record LogRetentionUseCase =
  lr_ActivityDays :: int
  lr_LoginDays :: int
  lr_WSDays :: int
  lr_BatchSize :: int
  lr_BatchSleep :: duration

definition retention_tasks :: "LogRetentionUseCase \<Rightarrow> time \<Rightarrow> (time \<times> deleteFn) list" where
  "retention_tasks l t =
     (if 0 < lr_ActivityDays l then [(add_days t (- lr_ActivityDays l), activityLogRepo_DeleteOlderThan)] else []) @
     (if 0 < lr_LoginDays l then [(add_days t (- lr_LoginDays l), loginLogRepo_DeleteOlderThan)] else []) @
     (if 0 < lr_WSDays l then [(add_days t (- lr_WSDays l), wsConnectionLogRepo_DeleteOlderThan)] else [])"

fun run_tasks :: "(nat \<Rightarrow> bool) \<Rightarrow> nat \<Rightarrow> int \<Rightarrow> duration \<Rightarrow> (time \<times> deleteFn) list \<Rightarrow> world \<Rightarrow> world option" where
  "run_tasks done k batchSize sleep [] w = Some w"
| "run_tasks done k batchSize sleep ((before, deleteFn) # tasks) w =
     (case purgeLogBatches done k before batchSize sleep deleteFn w of
        None \<Rightarrow> None
      | Some (Inl e, k', w') \<Rightarrow> if e = canceled then Some w' else run_tasks done k' batchSize sleep tasks w'
      | Some (Inr _, k', w') \<Rightarrow> run_tasks done k' batchSize sleep tasks w')"

definition Retention_Run :: "(nat \<Rightarrow> bool) \<Rightarrow> LogRetentionUseCase \<Rightarrow> world \<Rightarrow> world option" where
  "Retention_Run done l w =
     (let t = w_clock w (w_nclock w);
          batchSize = (if lr_BatchSize l \<le> 0 then 1000 else lr_BatchSize l);
          sleep = (if lr_BatchSleep l \<le> 0 then 100 * 1000000 else lr_BatchSleep l) in
      run_tasks done 0 batchSize sleep (retention_tasks l t) (w\<lparr>w_nclock := Suc (w_nclock w)\<rparr>))"

subsection \<open>A batch\<close>

lemma delete_limit_length: "length (delete_limit n P rs) + min n (length (filter P rs)) = length rs"
proof (induction n P rs rule: delete_limit.induct)
  case (2 n P r rs)
  then show ?case by (cases "0 < n \<and> P r") (auto simp: min_def split: if_splits)
qed simp

lemma delete_limit_filter: "filter (\<lambda>r. \<not> P r) (delete_limit n P rs) = filter (\<lambda>r. \<not> P r) rs"
  by (induction n P rs rule: delete_limit.induct) auto

lemma delete_limit_none: "\<forall>r\<in>set rs. \<not> P r \<Longrightarrow> delete_limit n P rs = rs"
  by (induction n P rs rule: delete_limit.induct) auto

lemma delete_batch_rows:
  fixes P :: "'r \<Rightarrow> bool" and t :: "'r list" and dia :: dialect and batch :: int
  assumes "0 < batch"
  defines "rows \<equiv> delete_batch dia batch P t"
  shows "int (length t) - int (length rows) \<ge> 0" "filter (\<lambda>r. \<not> P r) rows = filter (\<lambda>r. \<not> P r) t"
    "length rows = length t \<Longrightarrow> rows = filter (\<lambda>r. \<not> P r) t"
proof -
  note len = delete_limit_length [of "nat batch" P t]
  then have "length (delete_limit (nat batch) P t) \<le> length t" by linarith
  then show "int (length t) - int (length rows) \<ge> 0" by (simp add: rows_def delete_batch_def)
  show "filter (\<lambda>r. \<not> P r) rows = filter (\<lambda>r. \<not> P r) t"
    by (simp add: rows_def delete_batch_def delete_limit_filter)
  assume same: "length rows = length t"
  show "rows = filter (\<lambda>r. \<not> P r) t"
  proof (cases "dia = Postgres")
    case False
    with same len assms(1) have "length (filter P t) = 0"
      by (simp add: rows_def delete_batch_def min_def split: if_splits)
    then have "\<forall>r\<in>set t. \<not> P r" by (simp add: filter_empty_conv)
    then show ?thesis using False by (simp add: rows_def delete_batch_def delete_limit_none)
  qed (simp add: rows_def delete_batch_def)
qed

text \<open>
  What a function that deletes old rows promises: the number of rows it took away from a table,
  never a row that is not old, and no row left when it took none.
\<close>

locale batch_delete =
  fixes table :: "db \<Rightarrow> 'r list"
    and old :: "time \<Rightarrow> 'r \<Rightarrow> bool"
    and delete :: "time \<Rightarrow> int \<Rightarrow> int go"
  assumes deleted: "0 < batch \<Longrightarrow> delete before batch w = (Inr n, w') \<Longrightarrow>
      n = int (length (table (w_db w))) - int (length (table (w_db w'))) \<and> 0 \<le> n \<and>
      filter (\<lambda>r. \<not> old before r) (table (w_db w')) = filter (\<lambda>r. \<not> old before r) (table (w_db w)) \<and>
      (n = 0 \<longrightarrow> table (w_db w') = filter (\<lambda>r. \<not> old before r) (table (w_db w)))"
    and refused: "delete before batch w = (Inl e, w') \<Longrightarrow> w_db w' = w_db w"
begin

lemma purge_ends:
  assumes "0 < batch"
  shows "\<exists>r. purgeLogBatches done k before batch sleep delete w = Some r"
proof (induction "length (table (w_db w))" arbitrary: w k rule: less_induct)
  case less
  have next_step: "\<exists>r. purgeLogBatches done k' before batch sleep delete w' = Some r"
    if "delete before batch w = (Inr n, w')" "n \<noteq> 0" for n w' k'
  proof (rule less)
    show "length (table (w_db w')) < length (table (w_db w))"
      using deleted [OF assms that(1)] that(2) by simp
  qed
  show ?case
  proof (cases "delete before batch w")
    case (Pair r w')
    show ?thesis
    proof (cases r)
      case (Inl e)
      with Pair show ?thesis by (simp add: purgeLogBatches.simps [of "done" k])
    next
      case (Inr n)
      with Pair next_step [of n w' "Suc k"] next_step [of n w' "Suc (Suc k)"] show ?thesis
        by (cases "n = 0") (simp_all add: purgeLogBatches.simps [of "done" k])
    qed
  qed
qed

lemma purge_result:
  assumes "0 < batch"
  shows "purgeLogBatches done k before batch sleep delete w = Some (res, k', w') \<Longrightarrow>
    filter (\<lambda>r. \<not> old before r) (table (w_db w')) = filter (\<lambda>r. \<not> old before r) (table (w_db w)) \<and>
    (res = Inr () \<longrightarrow> table (w_db w') = filter (\<lambda>r. \<not> old before r) (table (w_db w)))"
proof (induction "length (table (w_db w))" arbitrary: w k rule: less_induct)
  case less
  show ?case
  proof (cases "done k")
    case True
    with less.prems show ?thesis by (auto simp: purgeLogBatches.simps [of "done" k])
  next
    case go: False
    show ?thesis
    proof (cases "delete before batch w")
      case (Pair r v)
      show ?thesis
      proof (cases r)
        case (Inl e)
        with less.prems go Pair refused [of before batch w e v] show ?thesis
          by (auto simp: purgeLogBatches.simps [of "done" k])
      next
        case (Inr n)
        note batch = deleted [OF assms Pair [unfolded Inr]]
        show ?thesis
        proof (cases "n = 0")
          case True
          with less.prems go Pair Inr batch show ?thesis
            by (auto simp: purgeLogBatches.simps [of "done" k])
        next
          case False
          with batch have "length (table (w_db v)) < length (table (w_db w))" by linarith
          with less.hyps [of v] less.prems go Pair Inr False batch show ?thesis
            by (auto simp: purgeLogBatches.simps [of "done" k] split: if_splits)
        qed
      qed
    qed
  qed
qed

text \<open>
  A run that is not cancelled and whose deletions succeed empties the table of its old rows, and
  keeps what every deletion keeps.
\<close>

lemma purge_completes:
  assumes "0 < batch" and live: "\<And>k. \<not> done k"
    and step: "\<And>w r w'. I w \<Longrightarrow> delete before batch w = (r, w') \<Longrightarrow> I w' \<and> (\<exists>n. r = Inr n)"
  shows "I w \<Longrightarrow> \<exists>k' w'. purgeLogBatches done k before batch sleep delete w = Some (Inr (), k', w') \<and> I w' \<and>
    table (w_db w') = filter (\<lambda>r. \<not> old before r) (table (w_db w))"
proof (induction "length (table (w_db w))" arbitrary: w k rule: less_induct)
  case less
  obtain n v where run: "delete before batch w = (Inr n, v)" and I: "I v"
    using step [OF less.prems] by (metis prod.exhaust)
  note batch = deleted [OF assms(1) run]
  show ?case
  proof (cases "n = 0")
    case True
    with run I batch live show ?thesis by (simp add: purgeLogBatches.simps [of "done" k])
  next
    case False
    with batch have "length (table (w_db v)) < length (table (w_db w))" by linarith
    note rest = less.hyps [OF this I]
    from rest [of "Suc k"] rest [of "Suc (Suc k)"] batch run False live show ?thesis
      by (auto simp: purgeLogBatches.simps [of "done" k])
  qed
qed

lemma purge_keeps:
  assumes "0 < batch" "keeps I (delete before batch)"
  shows "purgeLogBatches done k before batch sleep delete w = Some (res, k', w') \<Longrightarrow> I w \<Longrightarrow> I w'"
proof (induction "length (table (w_db w))" arbitrary: w k rule: less_induct)
  case less
  obtain r v where run: "delete before batch w = (r, v)" by (cases "delete before batch w")
  have I: "I v" using keepsD [OF assms(2) less.prems(2)] by (simp add: run)
  have "I w'" if "r = Inr n" "n \<noteq> 0" "purgeLogBatches done k1 before batch sleep delete v = Some (res, k', w')" for n k1
  proof (rule less.hyps [OF _ that(3) I])
    show "length (table (w_db v)) < length (table (w_db w))"
      using deleted [OF assms(1) run [unfolded that(1)]] that(2) by linarith
  qed
  with less.prems run I show ?case
    by (cases r) (auto simp: purgeLogBatches.simps [of "done" k] split: if_splits)
qed

end

subsection \<open>The three tables of logs\<close>

interpretation purge_actlogs:
  batch_delete db_actlogs "\<lambda>before l. actlog_CreatedAt l < before" activityLogRepo_DeleteOlderThan
proof unfold_locales
  show "n = int (length (db_actlogs (w_db w))) - int (length (db_actlogs (w_db w'))) \<and> 0 \<le> n \<and>
      filter (\<lambda>r. \<not> actlog_CreatedAt r < before) (db_actlogs (w_db w')) =
      filter (\<lambda>r. \<not> actlog_CreatedAt r < before) (db_actlogs (w_db w)) \<and>
      (n = 0 \<longrightarrow> db_actlogs (w_db w') = filter (\<lambda>r. \<not> actlog_CreatedAt r < before) (db_actlogs (w_db w)))"
    if "0 < batch" "activityLogRepo_DeleteOlderThan before batch w = (Inr n, w')" for batch before w n w'
    using that delete_batch_rows [OF that(1), where dia = "w_dialect w" and P = "\<lambda>l. actlog_CreatedAt l < before" and t = "db_actlogs (w_db w)"]
    by (auto simp: activityLogRepo_DeleteOlderThan_def dbExec_success Let_def)
  show "w_db w' = w_db w"
    if "activityLogRepo_DeleteOlderThan before batch w = (Inl e, w')" for before batch w e w'
    using that by (auto simp: activityLogRepo_DeleteOlderThan_def dbExec_eval Let_def split: if_splits)
qed

interpretation purge_loginlogs:
  batch_delete db_loginlogs "\<lambda>before l. loginlog_CreatedAt l < before" loginLogRepo_DeleteOlderThan
proof unfold_locales
  show "n = int (length (db_loginlogs (w_db w))) - int (length (db_loginlogs (w_db w'))) \<and> 0 \<le> n \<and>
      filter (\<lambda>r. \<not> loginlog_CreatedAt r < before) (db_loginlogs (w_db w')) =
      filter (\<lambda>r. \<not> loginlog_CreatedAt r < before) (db_loginlogs (w_db w)) \<and>
      (n = 0 \<longrightarrow> db_loginlogs (w_db w') = filter (\<lambda>r. \<not> loginlog_CreatedAt r < before) (db_loginlogs (w_db w)))"
    if "0 < batch" "loginLogRepo_DeleteOlderThan before batch w = (Inr n, w')" for batch before w n w'
    using that delete_batch_rows [OF that(1), where dia = "w_dialect w" and P = "\<lambda>l. loginlog_CreatedAt l < before" and t = "db_loginlogs (w_db w)"]
    by (auto simp: loginLogRepo_DeleteOlderThan_def dbExec_success Let_def)
  show "w_db w' = w_db w"
    if "loginLogRepo_DeleteOlderThan before batch w = (Inl e, w')" for before batch w e w'
    using that by (auto simp: loginLogRepo_DeleteOlderThan_def dbExec_eval Let_def split: if_splits)
qed

interpretation purge_wslogs:
  batch_delete db_wslogs "\<lambda>before l. wslog_ConnectedAt l < before" wsConnectionLogRepo_DeleteOlderThan
proof unfold_locales
  show "n = int (length (db_wslogs (w_db w))) - int (length (db_wslogs (w_db w'))) \<and> 0 \<le> n \<and>
      filter (\<lambda>r. \<not> wslog_ConnectedAt r < before) (db_wslogs (w_db w')) =
      filter (\<lambda>r. \<not> wslog_ConnectedAt r < before) (db_wslogs (w_db w)) \<and>
      (n = 0 \<longrightarrow> db_wslogs (w_db w') = filter (\<lambda>r. \<not> wslog_ConnectedAt r < before) (db_wslogs (w_db w)))"
    if "0 < batch" "wsConnectionLogRepo_DeleteOlderThan before batch w = (Inr n, w')" for batch before w n w'
    using that delete_batch_rows [OF that(1), where dia = "w_dialect w" and P = "\<lambda>l. wslog_ConnectedAt l < before" and t = "db_wslogs (w_db w)"]
    by (auto simp: wsConnectionLogRepo_DeleteOlderThan_def dbExec_success Let_def)
  show "w_db w' = w_db w"
    if "wsConnectionLogRepo_DeleteOlderThan before batch w = (Inl e, w')" for before batch w e w'
    using that by (auto simp: wsConnectionLogRepo_DeleteOlderThan_def dbExec_eval Let_def split: if_splits)
qed

subsection \<open>A run ends\<close>

lemma retention_task_cases:
  "(before, del) \<in> set (retention_tasks l t) \<Longrightarrow> del = activityLogRepo_DeleteOlderThan \<or>
     del = loginLogRepo_DeleteOlderThan \<or> del = wsConnectionLogRepo_DeleteOlderThan"
  by (auto simp: retention_tasks_def split: if_splits)

lemma run_tasks_ends:
  assumes "0 < batch"
    and "\<And>before del. (before, del) \<in> set tasks \<Longrightarrow> del = activityLogRepo_DeleteOlderThan \<or>
      del = loginLogRepo_DeleteOlderThan \<or> del = wsConnectionLogRepo_DeleteOlderThan"
  shows "\<exists>w'. run_tasks done k batch sleep tasks w = Some w'"
  using assms(2)
proof (induction tasks arbitrary: k w)
  case (Cons task tasks)
  obtain before del where task: "task = (before, del)" by (cases task)
  have "\<exists>r. purgeLogBatches done k before batch sleep del w = Some r"
    using Cons.prems [of before del] task purge_actlogs.purge_ends [OF assms(1)]
      purge_loginlogs.purge_ends [OF assms(1)] purge_wslogs.purge_ends [OF assms(1)] by auto
  then obtain res k' w' where run: "purgeLogBatches done k before batch sleep del w = Some (res, k', w')"
    by auto
  have "\<exists>w''. run_tasks done k' batch sleep tasks w' = Some w''"
    by (rule Cons.IH) (use Cons.prems in auto)
  then show ?case by (cases res) (simp_all add: task run)
qed simp

lemma Retention_Run_ends: "\<exists>w'. Retention_Run done l w = Some w'"
  unfolding Retention_Run_def Let_def by (rule run_tasks_ends) (auto dest: retention_task_cases)

subsection \<open>What a run leaves\<close>

text \<open>The database after a run: the rows older than each limit are gone, everything else is there.\<close>

definition retained :: "LogRetentionUseCase \<Rightarrow> time \<Rightarrow> db \<Rightarrow> db" where
  "retained l t d = d\<lparr>
     db_actlogs := filter (\<lambda>r. \<not> (0 < lr_ActivityDays l \<and> actlog_CreatedAt r < add_days t (- lr_ActivityDays l))) (db_actlogs d),
     db_loginlogs := filter (\<lambda>r. \<not> (0 < lr_LoginDays l \<and> loginlog_CreatedAt r < add_days t (- lr_LoginDays l))) (db_loginlogs d),
     db_wslogs := filter (\<lambda>r. \<not> (0 < lr_WSDays l \<and> wslog_ConnectedAt r < add_days t (- lr_WSDays l))) (db_wslogs d)\<rparr>"

lemma purge_actlogs_all:
  assumes "0 < batch" "\<And>k. \<not> done k" "\<And>n. \<not> w_faults w n"
  shows "\<exists>k' w'. purgeLogBatches done k before batch sleep activityLogRepo_DeleteOlderThan w = Some (Inr (), k', w') \<and>
    w_faults w' = w_faults w \<and>
    w_db w' = (w_db w)\<lparr>db_actlogs := filter (\<lambda>r. \<not> actlog_CreatedAt r < before) (db_actlogs (w_db w))\<rparr>"
proof -
  have "\<exists>k' w'. purgeLogBatches done k before batch sleep activityLogRepo_DeleteOlderThan w = Some (Inr (), k', w') \<and>
      (w_faults w' = w_faults w \<and> (\<exists>rows. w_db w' = (w_db w)\<lparr>db_actlogs := rows\<rparr>)) \<and>
      db_actlogs (w_db w') = filter (\<lambda>r. \<not> actlog_CreatedAt r < before) (db_actlogs (w_db w))"
    by (rule purge_actlogs.purge_completes [OF assms(1,2)])
      (auto simp: activityLogRepo_DeleteOlderThan_def dbExec_eval Let_def assms(3) intro: exI [of _ "db_actlogs (w_db w)"])
  then show ?thesis by auto
qed

lemma purge_loginlogs_all:
  assumes "0 < batch" "\<And>k. \<not> done k" "\<And>n. \<not> w_faults w n"
  shows "\<exists>k' w'. purgeLogBatches done k before batch sleep loginLogRepo_DeleteOlderThan w = Some (Inr (), k', w') \<and>
    w_faults w' = w_faults w \<and>
    w_db w' = (w_db w)\<lparr>db_loginlogs := filter (\<lambda>r. \<not> loginlog_CreatedAt r < before) (db_loginlogs (w_db w))\<rparr>"
proof -
  have "\<exists>k' w'. purgeLogBatches done k before batch sleep loginLogRepo_DeleteOlderThan w = Some (Inr (), k', w') \<and>
      (w_faults w' = w_faults w \<and> (\<exists>rows. w_db w' = (w_db w)\<lparr>db_loginlogs := rows\<rparr>)) \<and>
      db_loginlogs (w_db w') = filter (\<lambda>r. \<not> loginlog_CreatedAt r < before) (db_loginlogs (w_db w))"
    by (rule purge_loginlogs.purge_completes [OF assms(1,2)])
      (auto simp: loginLogRepo_DeleteOlderThan_def dbExec_eval Let_def assms(3) intro: exI [of _ "db_loginlogs (w_db w)"])
  then show ?thesis by auto
qed

lemma purge_wslogs_all:
  assumes "0 < batch" "\<And>k. \<not> done k" "\<And>n. \<not> w_faults w n"
  shows "\<exists>k' w'. purgeLogBatches done k before batch sleep wsConnectionLogRepo_DeleteOlderThan w = Some (Inr (), k', w') \<and>
    w_faults w' = w_faults w \<and>
    w_db w' = (w_db w)\<lparr>db_wslogs := filter (\<lambda>r. \<not> wslog_ConnectedAt r < before) (db_wslogs (w_db w))\<rparr>"
proof -
  have "\<exists>k' w'. purgeLogBatches done k before batch sleep wsConnectionLogRepo_DeleteOlderThan w = Some (Inr (), k', w') \<and>
      (w_faults w' = w_faults w \<and> (\<exists>rows. w_db w' = (w_db w)\<lparr>db_wslogs := rows\<rparr>)) \<and>
      db_wslogs (w_db w') = filter (\<lambda>r. \<not> wslog_ConnectedAt r < before) (db_wslogs (w_db w))"
    by (rule purge_wslogs.purge_completes [OF assms(1,2)])
      (auto simp: wsConnectionLogRepo_DeleteOlderThan_def dbExec_eval Let_def assms(3) intro: exI [of _ "db_wslogs (w_db w)"])
  then show ?thesis by auto
qed

text \<open>A list of tasks by what it makes of the database.\<close>

definition tasks_do :: "(nat \<Rightarrow> bool) \<Rightarrow> int \<Rightarrow> duration \<Rightarrow> (time \<times> deleteFn) list \<Rightarrow> (db \<Rightarrow> db) \<Rightarrow> bool" where
  "tasks_do done batch sleep tasks f \<longleftrightarrow> (\<forall>k w. (\<forall>n. \<not> w_faults w n) \<longrightarrow>
     (\<exists>w'. run_tasks done k batch sleep tasks w = Some w' \<and> w_db w' = f (w_db w)))"

lemma tasks_do_Nil: "tasks_do done batch sleep [] (\<lambda>d. d)"
  by (simp add: tasks_do_def)

lemma tasks_do_Cons:
  assumes "\<And>k w. (\<And>n. \<not> w_faults w n) \<Longrightarrow>
      \<exists>k' w'. purgeLogBatches done k before batch sleep del w = Some (Inr (), k', w') \<and>
        w_faults w' = w_faults w \<and> w_db w' = f (w_db w)"
    and "tasks_do done batch sleep tasks g"
  shows "tasks_do done batch sleep ((if b then [(before, del)] else []) @ tasks) (\<lambda>d. g (if b then f d else d))"
proof (cases b)
  case True
  have "\<exists>w''. run_tasks done k batch sleep ((before, del) # tasks) w = Some w'' \<and> w_db w'' = g (f (w_db w))"
    if ok: "\<And>n. \<not> w_faults w n" for k w
  proof -
    obtain k' w' where run: "purgeLogBatches done k before batch sleep del w = Some (Inr (), k', w')"
      and w': "w_faults w' = w_faults w" "w_db w' = f (w_db w)"
      using assms(1) [OF ok] by metis
    have "\<forall>n. \<not> w_faults w' n" using w' ok by simp
    with w'(2) have "\<exists>w''. run_tasks done k' batch sleep tasks w' = Some w'' \<and> w_db w'' = g (f (w_db w))"
      using assms(2) unfolding tasks_do_def by metis
    with run show ?thesis by simp
  qed
  with True show ?thesis by (simp add: tasks_do_def)
qed (use assms(2) in simp)

lemma retention_tasks_do:
  assumes "0 < batch" "\<And>k. \<not> done k"
  shows "tasks_do done batch sleep (retention_tasks l t) (retained l t)"
proof -
  let ?young = "\<lambda>days f r. \<not> f r < add_days t (- days)"
  have 3: "tasks_do done batch sleep
      ((if 0 < lr_WSDays l then [(add_days t (- lr_WSDays l), wsConnectionLogRepo_DeleteOlderThan)] else []) @ [])
      (\<lambda>d. if 0 < lr_WSDays l then d\<lparr>db_wslogs := filter (?young (lr_WSDays l) wslog_ConnectedAt) (db_wslogs d)\<rparr> else d)"
    by (rule tasks_do_Cons [OF purge_wslogs_all [OF assms] tasks_do_Nil])
  note 2 = tasks_do_Cons [OF purge_loginlogs_all [OF assms] 3, where b = "0 < lr_LoginDays l"]
  note 1 = tasks_do_Cons [OF purge_actlogs_all [OF assms] 2, where b = "0 < lr_ActivityDays l",
      of "add_days t (- lr_ActivityDays l)" "add_days t (- lr_LoginDays l)"]
  have "retained l t = (\<lambda>d. let
      d1 = if 0 < lr_ActivityDays l then d\<lparr>db_actlogs := filter (?young (lr_ActivityDays l) actlog_CreatedAt) (db_actlogs d)\<rparr> else d;
      d2 = if 0 < lr_LoginDays l then d1\<lparr>db_loginlogs := filter (?young (lr_LoginDays l) loginlog_CreatedAt) (db_loginlogs d1)\<rparr> else d1
      in if 0 < lr_WSDays l then d2\<lparr>db_wslogs := filter (?young (lr_WSDays l) wslog_ConnectedAt) (db_wslogs d2)\<rparr> else d2)"
    by (rule ext) (simp add: retained_def Let_def)
  with 1 show ?thesis unfolding retention_tasks_def Let_def append_Nil2 by simp
qed

lemma Retention_Run_retained:
  assumes "\<And>k. \<not> done k" "\<And>n. \<not> w_faults w n"
  shows "\<exists>w'. Retention_Run done l w = Some w' \<and> w_db w' = retained l (w_clock w (w_nclock w)) (w_db w)"
proof -
  let ?w = "w\<lparr>w_nclock := Suc (w_nclock w)\<rparr>"
  have "\<exists>w'. run_tasks done 0 batch sleep (retention_tasks l t) ?w = Some w' \<and> w_db w' = retained l t (w_db ?w)"
    if "0 < batch" for batch sleep t
  proof -
    have "tasks_do done batch sleep (retention_tasks l t) (retained l t)"
      by (rule retention_tasks_do [OF that assms(1)])
    moreover have "\<forall>n. \<not> w_faults ?w n" by (simp add: assms(2))
    ultimately show ?thesis unfolding tasks_do_def by metis
  qed
  then show ?thesis unfolding Retention_Run_def Let_def by simp
qed

text \<open>Whatever fails and whenever it is cancelled, a run keeps what every deletion keeps.\<close>

lemma run_tasks_keeps:
  assumes "0 < batch" "set tasks \<subseteq> set (retention_tasks l t)"
    and "\<And>before. keeps I (activityLogRepo_DeleteOlderThan before batch)"
    and "\<And>before. keeps I (loginLogRepo_DeleteOlderThan before batch)"
    and "\<And>before. keeps I (wsConnectionLogRepo_DeleteOlderThan before batch)"
  shows "run_tasks done k batch sleep tasks w = Some w' \<Longrightarrow> I w \<Longrightarrow> I w'"
  using assms(2)
proof (induction tasks arbitrary: k w)
  case (Cons task tasks)
  obtain before del where task: "task = (before, del)" by (cases task)
  have one: "I v" if "purgeLogBatches done k before batch sleep del w = Some (res, k1, v)" for res k1 v
    using retention_task_cases [of before del l t] Cons.prems task that assms(3-5)
      purge_actlogs.purge_keeps [OF assms(1) assms(3)] purge_loginlogs.purge_keeps [OF assms(1) assms(4)]
      purge_wslogs.purge_keeps [OF assms(1) assms(5)] by auto
  from Cons.prems Cons.IH one show ?case
    by (auto simp: task split: option.splits prod.splits sum.splits if_splits)
qed simp

lemma Retention_Run_keeps:
  assumes "\<And>before batch. keeps I (activityLogRepo_DeleteOlderThan before batch)"
    and "\<And>before batch. keeps I (loginLogRepo_DeleteOlderThan before batch)"
    and "\<And>before batch. keeps I (wsConnectionLogRepo_DeleteOlderThan before batch)"
    and "\<And>w. I w \<Longrightarrow> I (w\<lparr>w_nclock := Suc (w_nclock w)\<rparr>)"
    and "Retention_Run done l w = Some w'" "I w"
  shows "I w'"
proof -
  have "I w'" if "0 < batch" "run_tasks done 0 batch sleep (retention_tasks l t) (w\<lparr>w_nclock := Suc (w_nclock w)\<rparr>) = Some w'"
    for batch sleep t
    by (rule run_tasks_keeps [OF that(1) subset_refl assms(1-3) that(2) assms(4) [OF assms(6)]])
  from this [OF _ assms(5) [unfolded Retention_Run_def Let_def]] show ?thesis by (simp split: if_splits)
qed

end
