(* ===== verification/Backup.thy ===== *)
theory Backup
  imports RedisStore Repos
begin

text \<open>
  The copy of the database to a second server: \<open>repository/backup.go\<close>, \<open>usecase/backup.go\<close> and
  the body of the scheduled function of \<open>worker/backup.go\<close>. \<open>w_backup\<close> holds the tables of the second
  server. How GORM's \<open>OnConflict{UpdateAll: true}\<close> combines a row that is there with the row that
  is copied (it does not overwrite every column: it keeps \<open>created_at\<close> and writes its own
  \<open>updated_at\<close>) is GORM's: the parameter \<open>mergers\<close>.
\<close>

subsection \<open>Rows written to the second server\<close>

definition upsert_row :: "('r \<Rightarrow> 'k) \<Rightarrow> ('r \<Rightarrow> 'r \<Rightarrow> 'r) \<Rightarrow> 'r \<Rightarrow> 'r list \<Rightarrow> 'r list" where
  "upsert_row pk merge r t =
     (if pk r \<in> pk ` set t then map (\<lambda>x. if pk x = pk r then merge x r else x) t else t @ [r])"

text \<open>
  One \<open>INSERT\<close> for all rows, in their order; it is refused as a whole when a row breaks another unique
  index or does not fit, and when its values are more than the 65535 parameters a statement of the
  PostgreSQL protocol can have (\<open>columns\<close> for each row).
\<close>

fun upsert_rows :: "('r \<Rightarrow> 'k) \<Rightarrow> ('r \<Rightarrow> 'r \<Rightarrow> bool) \<Rightarrow> ('r \<Rightarrow> 'r \<Rightarrow> 'r) \<Rightarrow> 'r list \<Rightarrow> 'r list \<Rightarrow> 'r list option" where
  "upsert_rows pk conflict merge [] t = Some t"
| "upsert_rows pk conflict merge (r # rs) t =
     (if \<exists>x\<in>set t. pk x \<noteq> pk r \<and> conflict x r then None
      else upsert_rows pk conflict merge rs (upsert_row pk merge r t))"

definition backupCreate :: "(db \<Rightarrow> 'r list) \<Rightarrow> ('r list \<Rightarrow> db \<Rightarrow> db) \<Rightarrow> ('r \<Rightarrow> 'k) \<Rightarrow> nat \<Rightarrow> ('r \<Rightarrow> bool) \<Rightarrow>
    ('r \<Rightarrow> 'r \<Rightarrow> bool) \<Rightarrow> ('r \<Rightarrow> 'r \<Rightarrow> 'r) \<Rightarrow> 'r list \<Rightarrow> unit go" where
  "backupCreate table put pk columns fits conflict merge rows = io (\<lambda>w.
     if w_dialect w = Postgres \<and> (65535 < columns * length rows \<or> (\<exists>r\<in>set rows. \<not> fits r)) then (Inl ErrIO, w)
     else case upsert_rows pk conflict merge rows (table (w_backup w)) of
       None \<Rightarrow> (Inl ErrIO, w)
     | Some t \<Rightarrow> (Inr (), w\<lparr>w_backup := put t (w_backup w)\<rparr>))"

subsection \<open>\<open>repository/backup.go\<close>\<close>

definition changed_since :: "('r \<Rightarrow> time) \<Rightarrow> time option \<Rightarrow> 'r list \<Rightarrow> 'r list" where
  "changed_since updatedAt since rows =
     (case since of None \<Rightarrow> rows | Some s \<Rightarrow> filter (\<lambda>r. s < updatedAt r) rows)"

definition later :: "time \<Rightarrow> time \<Rightarrow> time" where
  "later newest t = (if newest < t then t else newest)"

definition syncRows :: "(db \<Rightarrow> 'r list) \<Rightarrow> ('r list \<Rightarrow> db \<Rightarrow> db) \<Rightarrow> ('r \<Rightarrow> 'k) \<Rightarrow> nat \<Rightarrow> ('r \<Rightarrow> bool) \<Rightarrow>
    ('r \<Rightarrow> 'r \<Rightarrow> bool) \<Rightarrow> ('r \<Rightarrow> 'r \<Rightarrow> 'r) \<Rightarrow> time option \<Rightarrow> ('r \<Rightarrow> time) \<Rightarrow> (int \<times> time) go" where
  "syncRows table put pk columns fits conflict merge since updatedAt =
     andThen (dbQuery (\<lambda>d. changed_since updatedAt since (table d))) (\<lambda>rows.
     if rows = [] then ret (0, zero_time)
     else andThen (backupCreate table put pk columns fits conflict merge rows) (\<lambda>_.
     ret (int (length rows), foldl later zero_time (map updatedAt rows))))"

record mergers =
  mg_user :: "user \<Rightarrow> user \<Rightarrow> user"
  mg_game :: "game \<Rightarrow> game \<Rightarrow> game"
  mg_guess :: "guess \<Rightarrow> guess \<Rightarrow> guess"
  mg_history :: "match_history \<Rightarrow> match_history \<Rightarrow> match_history"
  mg_ranking :: "ranking \<Rightarrow> ranking \<Rightarrow> ranking"
  mg_actlog :: "activity_log \<Rightarrow> activity_log \<Rightarrow> activity_log"
  mg_loginlog :: "login_log \<Rightarrow> login_log \<Rightarrow> login_log"

text \<open>The tasks, with the keys, unique indexes and column sizes of their tables.\<close>

definition sync_tasks :: "mergers \<Rightarrow> (string \<times> (time option \<Rightarrow> (int \<times> time) go)) list" where
  "sync_tasks g =
    [(''users'', \<lambda>since. syncRows db_users (\<lambda>t. db_users_update (\<lambda>_. t)) user_ID 11 user_fits
        (\<lambda>x u. user_Username x = user_Username u \<or> user_Email x = user_Email u) (mg_user g) since user_UpdatedAt),
     (''games'', \<lambda>since. syncRows db_games (\<lambda>t. db_games_update (\<lambda>_. t)) game_ID 13 game_fits
        (\<lambda>x y. False) (mg_game g) since game_UpdatedAt),
     (''guesses'', \<lambda>since. syncRows db_guesses (\<lambda>t. db_guesses_update (\<lambda>_. t)) guess_ID 10 guess_fits
        guess_conflict (mg_guess g) since guess_UpdatedAt),
     (''match_histories'', \<lambda>since. syncRows db_histories (\<lambda>t. db_histories_update (\<lambda>_. t)) history_ID 9 history_fits
        (\<lambda>x y. history_GameID x = history_GameID y) (mg_history g) since history_UpdatedAt),
     (''rankings'', \<lambda>since. syncRows db_rankings (\<lambda>t. db_rankings_update (\<lambda>_. t)) ranking_UserID 5
        (\<lambda>r. varchar 50 (ranking_Username r)) (\<lambda>x y. False) (mg_ranking g) since ranking_UpdatedAt),
     (''activity_logs'', \<lambda>since. syncRows db_actlogs (\<lambda>t. db_actlogs_update (\<lambda>_. t)) actlog_ID 6
        (\<lambda>l. varchar 50 (actlog_LogType l)) (\<lambda>x y. False) (mg_actlog g) since actlog_UpdatedAt),
     (''login_logs'', \<lambda>since. syncRows db_loginlogs (\<lambda>t. db_loginlogs_update (\<lambda>_. t)) loginlog_ID 5
        (\<lambda>_. True) (\<lambda>x y. False) (mg_loginlog g) since loginlog_UpdatedAt)]"

record SyncResult =
  sr_SyncedRows :: int
  sr_MaxUpdated :: time

fun run_sync_tasks :: "time option \<Rightarrow> (string \<times> (time option \<Rightarrow> (int \<times> time) go)) list \<Rightarrow> SyncResult \<Rightarrow> SyncResult go" where
  "run_sync_tasks since [] result = ret result"
| "run_sync_tasks since ((name, run) # tasks) result =
     andThen (run since) (\<lambda>(n, maxUpdated).
     run_sync_tasks since tasks (result\<lparr>sr_SyncedRows := sr_SyncedRows result + n,
       sr_MaxUpdated := later (sr_MaxUpdated result) maxUpdated\<rparr>))"

definition Sync :: "mergers \<Rightarrow> time option \<Rightarrow> SyncResult go" where
  "Sync g since = run_sync_tasks since (sync_tasks g) \<lparr>sr_SyncedRows = 0, sr_MaxUpdated = zero_time\<rparr>"

subsection \<open>\<open>usecase/backup.go\<close>\<close>

record BackupUseCase =
  bu_Syncer :: bool
  bu_BackupStatus :: "store option"
  bu_MaxRetries :: int

text \<open>The loop over the attempts: whether one succeeded, else the error of the last.\<close>

fun sync_attempts :: "mergers \<Rightarrow> time option \<Rightarrow> nat \<Rightarrow> go_error option \<Rightarrow> go_error option go" where
  "sync_attempts g since 0 syncErr = ret syncErr"
| "sync_attempts g since (Suc n) syncErr =
     andThen (attempt (Sync g since)) (\<lambda>r. case r of
       Inr _ \<Rightarrow> ret None
     | Inl e \<Rightarrow> sync_attempts g since n (Some e))"

definition RunSync :: "mergers \<Rightarrow> BackupUseCase \<Rightarrow> unit go" where
  "RunSync g b =
     (if \<not> bu_Syncer b then ret () else
      let maxRetries = (if bu_MaxRetries b \<le> 0 then 3 else bu_MaxRetries b) in
      andThen (case bu_BackupStatus b of None \<Rightarrow> ret None
        | Some s \<Rightarrow> andThen (GetBackupStatus s) (\<lambda>st. ret (bs_LastSyncedAt st))) (\<lambda>lastSyncedAt.
      andThen (sync_attempts g lastSyncedAt (nat maxRetries) None) (\<lambda>syncErr. case syncErr of
        None \<Rightarrow> (case bu_BackupStatus b of None \<Rightarrow> ret ()
          | Some s \<Rightarrow> andThen now (\<lambda>t. SetBackupStatus s ''ok'' t))
      | Some e \<Rightarrow> (case bu_BackupStatus b of None \<Rightarrow> throw e
          | Some s \<Rightarrow>
              andThen (attempt (GetBackupStatus s)) (\<lambda>st.
              andThen (ignoreErr (SetBackupStatus s ''error'' (case st of
                  Inr x \<Rightarrow> (case bs_LastSyncedAt x of Some t \<Rightarrow> t | None \<Rightarrow> zero_time)
                | Inl _ \<Rightarrow> zero_time))) (\<lambda>_.
              throw e))))))"

subsection \<open>What an upsert leaves\<close>

text \<open>\<open>held pk same t r\<close>: the copy \<open>t\<close> has a row for \<open>r\<close>, the same but for what \<open>same\<close> leaves open.\<close>

definition held :: "('r \<Rightarrow> 'k) \<Rightarrow> ('r \<Rightarrow> 'r \<Rightarrow> bool) \<Rightarrow> 'r list \<Rightarrow> 'r \<Rightarrow> bool" where
  "held pk same t r \<longleftrightarrow> (\<exists>x\<in>set t. pk x = pk r \<and> same r x)"

definition overwrites :: "('r \<Rightarrow> 'k) \<Rightarrow> ('r \<Rightarrow> 'r \<Rightarrow> bool) \<Rightarrow> ('r \<Rightarrow> 'r \<Rightarrow> 'r) \<Rightarrow> bool" where
  "overwrites pk same merge \<longleftrightarrow> (\<forall>r. same r r) \<and> (\<forall>x r. pk (merge x r) = pk r \<and> same r (merge x r))"

lemma held_upsert_row: "overwrites pk same merge \<Longrightarrow> held pk same (upsert_row pk merge r t) r"
  by (fastforce simp: held_def overwrites_def upsert_row_def)

lemma held_upsert_other:
  "pk q \<noteq> pk r \<Longrightarrow> held pk same t q \<Longrightarrow> held pk same (upsert_row pk merge r t) q"
  by (fastforce simp: held_def upsert_row_def)

lemma upsert_row_elsewhere:
  assumes "overwrites pk same merge" "pk r \<noteq> k"
  shows "filter (\<lambda>x. pk x = k) (upsert_row pk merge r t) = filter (\<lambda>x. pk x = k) t"
proof -
  have "filter (\<lambda>x. pk x = k) (map (\<lambda>x. if pk x = pk r then merge x r else x) t) = filter (\<lambda>x. pk x = k) t"
    using assms by (induction t) (auto simp: overwrites_def)
  with assms(2) show ?thesis by (simp add: upsert_row_def)
qed

lemma held_upsert_rows:
  assumes "overwrites pk same merge"
  shows "upsert_rows pk conflict merge rs t = Some t' \<Longrightarrow> distinct (map pk rs) \<Longrightarrow>
    (\<forall>r\<in>set rs. held pk same t' r) \<and> (\<forall>q. pk q \<notin> pk ` set rs \<longrightarrow> held pk same t q \<longrightarrow> held pk same t' q)"
proof (induction rs arbitrary: t)
  case (Cons r rs)
  from Cons.prems have rest: "upsert_rows pk conflict merge rs (upsert_row pk merge r t) = Some t'"
    "distinct (map pk rs)" "pk r \<notin> pk ` set rs" by (auto split: if_splits)
  note IH = Cons.IH [OF rest(1,2)]
  have "held pk same t' r" using IH rest(3) held_upsert_row [OF assms, of r t] by blast
  moreover have "held pk same t' q" if "pk q \<notin> pk ` set (r # rs)" "held pk same t q" for q
    using IH that held_upsert_other [of pk q r same t merge] by auto
  ultimately show ?case using IH by simp
qed simp

lemma upsert_rows_elsewhere:
  assumes "overwrites pk same merge"
  shows "upsert_rows pk conflict merge rs t = Some t' \<Longrightarrow> k \<notin> pk ` set rs \<Longrightarrow>
    filter (\<lambda>x. pk x = k) t' = filter (\<lambda>x. pk x = k) t"
proof (induction rs arbitrary: t)
  case (Cons r rs)
  then show ?case using upsert_row_elsewhere [OF assms, of r k t] by (auto split: if_splits)
qed simp

definition not_after :: "time option \<Rightarrow> time \<Rightarrow> bool" where
  "not_after since t \<longleftrightarrow> (case since of None \<Rightarrow> False | Some s \<Rightarrow> t \<le> s)"

lemma changed_since_cases:
  "r \<in> set rows \<Longrightarrow> (not_after since (updatedAt r) \<longrightarrow> P) \<Longrightarrow> r \<in> set (changed_since updatedAt since rows) \<or> P"
  by (auto simp: changed_since_def not_after_def split: option.splits)

subsection \<open>One table\<close>

text \<open>A table of the database as a place that can be read and written.\<close>

locale backup_table =
  fixes table :: "db \<Rightarrow> 'r list" and put :: "'r list \<Rightarrow> db \<Rightarrow> db"
  assumes put_table: "put (table d) d = d"
    and table_put: "table (put t d) = t"
begin

lemma sync_effect:
  assumes run: "syncRows table put pk columns fits conflict merge since updatedAt w = (Inr x, w')"
    and ow: "overwrites pk same merge" and dist: "distinct (map pk (table (w_db w)))"
  shows "\<exists>t. w_db w' = w_db w \<and> w_redis w' = w_redis w \<and> w_backup w' = put t (w_backup w) \<and>
    (\<forall>r\<in>set (table (w_db w)). r \<in> set (changed_since updatedAt since (table (w_db w))) \<or>
       held pk same (table (w_backup w)) r \<longrightarrow> held pk same t r) \<and>
    (\<forall>k. k \<notin> pk ` set (changed_since updatedAt since (table (w_db w))) \<longrightarrow>
       filter (\<lambda>x. pk x = k) t = filter (\<lambda>x. pk x = k) (table (w_backup w)))"
proof -
  let ?rows = "changed_since updatedAt since (table (w_db w))"
  have sub: "set ?rows \<subseteq> set (table (w_db w))" and rows: "distinct (map pk ?rows)"
    using dist by (auto simp: changed_since_def distinct_map_filter split: option.split)
  show ?thesis
  proof (cases "?rows = []")
    case True
    with run have "w_db w' = w_db w \<and> w_redis w' = w_redis w \<and> w_backup w' = put (table (w_backup w)) (w_backup w)"
      by (auto simp: syncRows_def andThen_def dbQuery_eval ret_def put_table split: if_splits)
    with True show ?thesis by (intro exI [of _ "table (w_backup w)"]) auto
  next
    case False
    with run obtain t where t: "upsert_rows pk conflict merge ?rows (table (w_backup w)) = Some t"
      and w': "w_db w' = w_db w" "w_redis w' = w_redis w" "w_backup w' = put t (w_backup w)"
      by (auto simp: syncRows_def andThen_def dbQuery_eval ret_def backupCreate_def io_def Let_def
          split: if_splits option.splits)
    have "held pk same t r"
      if r: "r \<in> set (table (w_db w))" "r \<in> set ?rows \<or> held pk same (table (w_backup w)) r" for r
    proof (cases "r \<in> set ?rows")
      case True
      with held_upsert_rows [OF ow t rows] show ?thesis by blast
    next
      case no: False
      have "pk r \<notin> pk ` set ?rows"
        using no sub r(1) dist by (auto simp: distinct_map inj_on_def)
      with held_upsert_rows [OF ow t rows] no r(2) show ?thesis by blast
    qed
    with w' upsert_rows_elsewhere [OF ow t] show ?thesis by blast
  qed
qed

lemma sync_copies:
  assumes "syncRows table put pk columns fits conflict merge since updatedAt w = (Inr x, w')"
    and "w_db w = d" "w_backup w = b"
    and "overwrites pk same merge" "distinct (map pk (table d))"
    and "\<forall>r\<in>set (table d). not_after since (updatedAt r) \<longrightarrow> held pk same (table b) r"
  shows "\<exists>t. w_db w' = d \<and> w_redis w' = w_redis w \<and> w_backup w' = put t b \<and>
    (\<forall>r\<in>set (table d). held pk same t r)"
  using sync_effect [OF assms(1,4)] assms(2,3,5,6) changed_since_cases by metis

text \<open>Whatever its result, the copy of a table keeps what is held and writes to no other table.\<close>

lemma sync_keeps:
  assumes "overwrites pk same merge" "distinct (map pk (table d))"
    and "\<And>b t. I b \<Longrightarrow> \<forall>r\<in>set (table d). held pk same (table b) r \<longrightarrow> held pk same t r \<Longrightarrow>
      \<forall>k. k \<notin> pk ` set (changed_since updatedAt since (table d)) \<longrightarrow>
        filter (\<lambda>x. pk x = k) t = filter (\<lambda>x. pk x = k) (table b) \<Longrightarrow> I (put t b)"
  shows "keeps (\<lambda>w. w_db w = d \<and> I (w_backup w)) (syncRows table put pk columns fits conflict merge since updatedAt)"
proof (rule keepsI)
  fix w r w'
  assume I: "w_db w = d \<and> I (w_backup w)"
    and run: "syncRows table put pk columns fits conflict merge since updatedAt w = (r, w')"
  show "w_db w' = d \<and> I (w_backup w')"
  proof (cases r)
    case (Inr x)
    with sync_effect [OF run [unfolded Inr] assms(1)] assms(2,3) I show ?thesis by metis
  next
    case (Inl e)
    with run have "w_db w' = w_db w \<and> w_backup w' = w_backup w"
      by (auto simp: syncRows_def andThen_def dbQuery_eval ret_def backupCreate_def io_def Let_def
          split: if_splits option.splits)
    with I show ?thesis by simp
  qed
qed

end

interpretation users_table: backup_table db_users "\<lambda>t. db_users_update (\<lambda>_. t)" by unfold_locales simp_all
interpretation games_table: backup_table db_games "\<lambda>t. db_games_update (\<lambda>_. t)" by unfold_locales simp_all
interpretation guesses_table: backup_table db_guesses "\<lambda>t. db_guesses_update (\<lambda>_. t)" by unfold_locales simp_all
interpretation histories_table: backup_table db_histories "\<lambda>t. db_histories_update (\<lambda>_. t)" by unfold_locales simp_all
interpretation rankings_table: backup_table db_rankings "\<lambda>t. db_rankings_update (\<lambda>_. t)" by unfold_locales simp_all
interpretation actlogs_table: backup_table db_actlogs "\<lambda>t. db_actlogs_update (\<lambda>_. t)" by unfold_locales simp_all
interpretation loginlogs_table: backup_table db_loginlogs "\<lambda>t. db_loginlogs_update (\<lambda>_. t)" by unfold_locales simp_all

subsection \<open>The whole copy\<close>

text \<open>
  What \<open>UpdateAll\<close> is documented to do: the row gets the values of the copied one in every column
  but the key, and GORM keeps for itself the two time stamps it maintains.
\<close>

definition copy_of_user :: "user \<Rightarrow> user \<Rightarrow> bool" where
  "copy_of_user r x \<longleftrightarrow> x = r\<lparr>user_CreatedAt := user_CreatedAt x, user_UpdatedAt := user_UpdatedAt x\<rparr>"

definition copy_of_game :: "game \<Rightarrow> game \<Rightarrow> bool" where
  "copy_of_game r x \<longleftrightarrow> x = r\<lparr>game_CreatedAt := game_CreatedAt x, game_UpdatedAt := game_UpdatedAt x\<rparr>"

definition copy_of_guess :: "guess \<Rightarrow> guess \<Rightarrow> bool" where
  "copy_of_guess r x \<longleftrightarrow> x = r\<lparr>guess_CreatedAt := guess_CreatedAt x, guess_UpdatedAt := guess_UpdatedAt x\<rparr>"

definition copy_of_history :: "match_history \<Rightarrow> match_history \<Rightarrow> bool" where
  "copy_of_history r x \<longleftrightarrow> x = r\<lparr>history_CreatedAt := history_CreatedAt x, history_UpdatedAt := history_UpdatedAt x\<rparr>"

definition copy_of_ranking :: "ranking \<Rightarrow> ranking \<Rightarrow> bool" where
  "copy_of_ranking r x \<longleftrightarrow> x = r\<lparr>ranking_UpdatedAt := ranking_UpdatedAt x\<rparr>"

definition copy_of_actlog :: "activity_log \<Rightarrow> activity_log \<Rightarrow> bool" where
  "copy_of_actlog r x \<longleftrightarrow> x = r\<lparr>actlog_CreatedAt := actlog_CreatedAt x, actlog_UpdatedAt := actlog_UpdatedAt x\<rparr>"

definition copy_of_loginlog :: "login_log \<Rightarrow> login_log \<Rightarrow> bool" where
  "copy_of_loginlog r x \<longleftrightarrow> x = r\<lparr>loginlog_CreatedAt := loginlog_CreatedAt x, loginlog_UpdatedAt := loginlog_UpdatedAt x\<rparr>"

definition updates_all :: "mergers \<Rightarrow> bool" where
  "updates_all g \<longleftrightarrow> overwrites user_ID copy_of_user (mg_user g) \<and> overwrites game_ID copy_of_game (mg_game g) \<and>
     overwrites guess_ID copy_of_guess (mg_guess g) \<and> overwrites history_ID copy_of_history (mg_history g) \<and>
     overwrites ranking_UserID copy_of_ranking (mg_ranking g) \<and> overwrites actlog_ID copy_of_actlog (mg_actlog g) \<and>
     overwrites loginlog_ID copy_of_loginlog (mg_loginlog g)"

definition keys_distinct :: "db \<Rightarrow> bool" where
  "keys_distinct d \<longleftrightarrow> distinct (map user_ID (db_users d)) \<and> distinct (map game_ID (db_games d)) \<and>
     distinct (map guess_ID (db_guesses d)) \<and> distinct (map history_ID (db_histories d)) \<and>
     distinct (map ranking_UserID (db_rankings d)) \<and> distinct (map actlog_ID (db_actlogs d)) \<and>
     distinct (map loginlog_ID (db_loginlogs d))"

text \<open>The copy has every row the predicate picks, from every table that is copied.\<close>

definition mirrored :: "(time \<Rightarrow> bool) \<Rightarrow> db \<Rightarrow> db \<Rightarrow> bool" where
  "mirrored P d b \<longleftrightarrow>
     (\<forall>r\<in>set (db_users d). P (user_UpdatedAt r) \<longrightarrow> held user_ID copy_of_user (db_users b) r) \<and>
     (\<forall>r\<in>set (db_games d). P (game_UpdatedAt r) \<longrightarrow> held game_ID copy_of_game (db_games b) r) \<and>
     (\<forall>r\<in>set (db_guesses d). P (guess_UpdatedAt r) \<longrightarrow> held guess_ID copy_of_guess (db_guesses b) r) \<and>
     (\<forall>r\<in>set (db_histories d). P (history_UpdatedAt r) \<longrightarrow> held history_ID copy_of_history (db_histories b) r) \<and>
     (\<forall>r\<in>set (db_rankings d). P (ranking_UpdatedAt r) \<longrightarrow> held ranking_UserID copy_of_ranking (db_rankings b) r) \<and>
     (\<forall>r\<in>set (db_actlogs d). P (actlog_UpdatedAt r) \<longrightarrow> held actlog_ID copy_of_actlog (db_actlogs b) r) \<and>
     (\<forall>r\<in>set (db_loginlogs d). P (loginlog_UpdatedAt r) \<longrightarrow> held loginlog_ID copy_of_loginlog (db_loginlogs b) r)"

text \<open>A run that succeeds copies the tables one after the other.\<close>

lemma Sync_success:
  assumes "Sync g since w = (Inr x, w')"
  obtains x1 w1 x2 w2 x3 w3 x4 w4 x5 w5 x6 w6 x7 where
    "syncRows db_users (\<lambda>t. db_users_update (\<lambda>_. t)) user_ID 11 user_fits
        (\<lambda>x u. user_Username x = user_Username u \<or> user_Email x = user_Email u) (mg_user g) since user_UpdatedAt w = (Inr x1, w1)"
    "syncRows db_games (\<lambda>t. db_games_update (\<lambda>_. t)) game_ID 13 game_fits
        (\<lambda>x y. False) (mg_game g) since game_UpdatedAt w1 = (Inr x2, w2)"
    "syncRows db_guesses (\<lambda>t. db_guesses_update (\<lambda>_. t)) guess_ID 10 guess_fits
        guess_conflict (mg_guess g) since guess_UpdatedAt w2 = (Inr x3, w3)"
    "syncRows db_histories (\<lambda>t. db_histories_update (\<lambda>_. t)) history_ID 9 history_fits
        (\<lambda>x y. history_GameID x = history_GameID y) (mg_history g) since history_UpdatedAt w3 = (Inr x4, w4)"
    "syncRows db_rankings (\<lambda>t. db_rankings_update (\<lambda>_. t)) ranking_UserID 5
        (\<lambda>r. varchar 50 (ranking_Username r)) (\<lambda>x y. False) (mg_ranking g) since ranking_UpdatedAt w4 = (Inr x5, w5)"
    "syncRows db_actlogs (\<lambda>t. db_actlogs_update (\<lambda>_. t)) actlog_ID 6
        (\<lambda>l. varchar 50 (actlog_LogType l)) (\<lambda>x y. False) (mg_actlog g) since actlog_UpdatedAt w5 = (Inr x6, w6)"
    "syncRows db_loginlogs (\<lambda>t. db_loginlogs_update (\<lambda>_. t)) loginlog_ID 5
        (\<lambda>_. True) (\<lambda>x y. False) (mg_loginlog g) since loginlog_UpdatedAt w6 = (Inr x7, w')"
  using assms by (auto simp: Sync_def sync_tasks_def success_iff intro: that split: prod.splits)

lemma Sync_mirrors:
  assumes g: "updates_all g" and keys: "keys_distinct (w_db w)"
    and before: "mirrored (not_after since) (w_db w) (w_backup w)" and run: "Sync g since w = (Inr x, w')"
  shows "mirrored (\<lambda>_. True) (w_db w) (w_backup w') \<and> w_db w' = w_db w \<and> w_redis w' = w_redis w"
  using run
proof (cases rule: Sync_success)
  case runs: (1 x1 w1 x2 w2 x3 w3 x4 w4 x5 w5 x6 w6 x7)
  note g = g [unfolded updates_all_def] and keys = keys [unfolded keys_distinct_def]
  note old = before [unfolded mirrored_def]
  obtain t1 where e1: "w_db w1 = w_db w" "w_redis w1 = w_redis w" "w_backup w1 = (w_backup w)\<lparr>db_users := t1\<rparr>"
    "\<forall>r\<in>set (db_users (w_db w)). held user_ID copy_of_user t1 r"
    using users_table.sync_copies [OF runs(1) refl refl] g keys old by (simp, metis)
  obtain t2 where e2: "w_db w2 = w_db w" "w_redis w2 = w_redis w" "w_backup w2 = (w_backup w)\<lparr>db_users := t1, db_games := t2\<rparr>"
    "\<forall>r\<in>set (db_games (w_db w)). held game_ID copy_of_game t2 r"
    using games_table.sync_copies [OF runs(2) e1(1) e1(3)] g keys old e1(2) by (simp, metis)
  obtain t3 where e3: "w_db w3 = w_db w" "w_redis w3 = w_redis w" "w_backup w3 = (w_backup w)\<lparr>db_users := t1, db_games := t2, db_guesses := t3\<rparr>"
    "\<forall>r\<in>set (db_guesses (w_db w)). held guess_ID copy_of_guess t3 r"
    using guesses_table.sync_copies [OF runs(3) e2(1) e2(3)] g keys old e2(2) by (simp, metis)
  obtain t4 where e4: "w_db w4 = w_db w" "w_redis w4 = w_redis w" "w_backup w4 = (w_backup w)\<lparr>db_users := t1, db_games := t2, db_guesses := t3, db_histories := t4\<rparr>"
    "\<forall>r\<in>set (db_histories (w_db w)). held history_ID copy_of_history t4 r"
    using histories_table.sync_copies [OF runs(4) e3(1) e3(3)] g keys old e3(2) by (simp, metis)
  obtain t5 where e5: "w_db w5 = w_db w" "w_redis w5 = w_redis w" "w_backup w5 = (w_backup w)\<lparr>db_users := t1, db_games := t2, db_guesses := t3, db_histories := t4, db_rankings := t5\<rparr>"
    "\<forall>r\<in>set (db_rankings (w_db w)). held ranking_UserID copy_of_ranking t5 r"
    using rankings_table.sync_copies [OF runs(5) e4(1) e4(3)] g keys old e4(2) by (simp, metis)
  obtain t6 where e6: "w_db w6 = w_db w" "w_redis w6 = w_redis w" "w_backup w6 = (w_backup w)\<lparr>db_users := t1, db_games := t2, db_guesses := t3, db_histories := t4, db_rankings := t5, db_actlogs := t6\<rparr>"
    "\<forall>r\<in>set (db_actlogs (w_db w)). held actlog_ID copy_of_actlog t6 r"
    using actlogs_table.sync_copies [OF runs(6) e5(1) e5(3)] g keys old e5(2) by (simp, metis)
  obtain t7 where e7: "w_db w' = w_db w" "w_redis w' = w_redis w" "w_backup w' = (w_backup w)\<lparr>db_users := t1, db_games := t2, db_guesses := t3, db_histories := t4, db_rankings := t5, db_actlogs := t6, db_loginlogs := t7\<rparr>"
    "\<forall>r\<in>set (db_loginlogs (w_db w)). held loginlog_ID copy_of_loginlog t7 r"
    using loginlogs_table.sync_copies [OF runs(7) e6(1) e6(3)] g keys old e6(2) by (simp, metis)
  show ?thesis
    unfolding mirrored_def using e7(1-3) e1(4) e2(4) e3(4) e4(4) e5(4) e6(4) e7(4) by simp
qed

subsection \<open>Attempts and runs\<close>

lemma keeps_run_sync_tasks:
  "\<forall>(n, run)\<in>set ts. keeps I (run since) \<Longrightarrow> keeps I (run_sync_tasks since ts res)"
  by (induction ts arbitrary: res) (auto intro!: keeps_intros)

text \<open>A copy that fails halfway loses nothing of what was held.\<close>

lemma keeps_Sync_mirrored:
  assumes g: "updates_all g" and keys: "keys_distinct d"
  shows "keeps (\<lambda>w. w_db w = d \<and> mirrored (not_after since) d (w_backup w)) (Sync g since)"
proof -
  note g = g [unfolded updates_all_def] and keys = keys [unfolded keys_distinct_def]
  show ?thesis
    unfolding Sync_def
    by (rule keeps_run_sync_tasks, unfold sync_tasks_def)
      (use g keys in \<open>auto intro!: users_table.sync_keeps games_table.sync_keeps guesses_table.sync_keeps
        histories_table.sync_keeps rankings_table.sync_keeps actlogs_table.sync_keeps loginlogs_table.sync_keeps
        simp: mirrored_def\<close>)
qed

lemma sync_attempts_mirror:
  assumes "updates_all g" "keys_distinct d"
  shows "w_db w = d \<Longrightarrow> mirrored (not_after since) d (w_backup w) \<Longrightarrow>
    sync_attempts g since n err w = (Inr None, w') \<Longrightarrow> n \<noteq> 0 \<or> err \<noteq> None \<Longrightarrow>
    w_db w' = d \<and> mirrored (\<lambda>_. True) d (w_backup w')"
proof (induction n arbitrary: err w)
  case (Suc n)
  obtain r w1 where run: "Sync g since w = (r, w1)" by (cases "Sync g since w")
  have I: "w_db w1 = d \<and> mirrored (not_after since) d (w_backup w1)"
    using keepsD [OF keeps_Sync_mirrored [OF assms, of since], of w] Suc.prems run by simp
  show ?case
  proof (cases r)
    case (Inr x)
    have "mirrored (\<lambda>_. True) d (w_backup w1)"
      using Sync_mirrors [OF assms(1) _ _ run [unfolded Inr]] assms(2) Suc.prems by simp
    with Suc.prems I Inr run show ?thesis by (auto simp: success_iff attempt_def split: if_splits)
  next
    case (Inl e)
    with Suc.prems run Suc.IH [of w1 "Some e"] I show ?thesis
      by (auto simp: success_iff attempt_def split: if_splits)
  qed
qed (simp add: success_iff)

lemma rdbCall_servers:
  "rdbCall s f w = (r, w') \<Longrightarrow> w_db w' = w_db w \<and> w_backup w' = w_backup w"
  by (cases s) (auto simp: rdbCall_def throw_def io_def Let_def split: if_splits prod.splits)

lemma RunSync_mirrors:
  assumes "updates_all g" "keys_distinct (w_db w)" "bu_Syncer b" "bu_BackupStatus b = Some s"
    and status: "GetBackupStatus s w = (Inr st, w1)"
    and before: "mirrored (not_after (bs_LastSyncedAt st)) (w_db w) (w_backup w)"
    and run: "RunSync g b w = (Inr (), w')"
  shows "w_db w' = w_db w \<and> mirrored (\<lambda>_. True) (w_db w) (w_backup w')"
proof -
  have w1: "w_db w1 = w_db w" "w_backup w1 = w_backup w"
    using status rdbCall_servers by (auto simp: GetBackupStatus_def success_iff split: option.splits rval.splits)
  have set: "w_db v' = w_db v \<and> w_backup v' = w_backup v" if "SetBackupStatus s q t v = (x, v')" for q t v x v'
    using that unfolding SetBackupStatus_def by (rule rdbCall_servers)
  let ?n = "nat (if bu_MaxRetries b \<le> 0 then 3 else bu_MaxRetries b)"
  have n: "?n \<noteq> 0" by simp
  from run assms(3,4) status obtain v where att: "sync_attempts g (bs_LastSyncedAt st) ?n None w1 = (Inr None, v)"
    and last: "andThen now (\<lambda>t. SetBackupStatus s ''ok'' t) v = (Inr (), w')"
    by (auto simp: RunSync_def Let_def success_iff split: option.splits)
  note sync_attempts_mirror [OF assms(1,2) w1(1) _ att] n before w1
  moreover have "w_db w' = w_db v \<and> w_backup w' = w_backup v"
    using last set by (auto simp: success_iff now_def)
  ultimately show ?thesis by simp
qed

text \<open>
  What an incremental copy misses: rows whose \<open>updated_at\<close> is not after the stamp of the last run keep
  the copy they have. The stamp is the time after the copy.
\<close>

lemma Sync_skips:
  assumes g: "updates_all g" and keys: "keys_distinct (w_db w)"
    and k: "\<forall>u\<in>set (db_users (w_db w)). user_ID u = k \<longrightarrow> user_UpdatedAt u \<le> s"
  shows "filter (\<lambda>u. user_ID u = k) (db_users (w_backup (snd (Sync g (Some s) w)))) =
    filter (\<lambda>u. user_ID u = k) (db_users (w_backup w))"
proof -
  note g = g [unfolded updates_all_def] and keys = keys [unfolded keys_distinct_def]
  have k: "k \<notin> user_ID ` set (changed_since user_UpdatedAt (Some s) (db_users (w_db w)))"
    using k by (force simp: changed_since_def)
  let ?I = "\<lambda>v. w_db v = w_db w \<and> filter (\<lambda>u. user_ID u = k) (db_users (w_backup v)) =
    filter (\<lambda>u. user_ID u = k) (db_users (w_backup w))"
  have "keeps ?I (Sync g (Some s))"
    unfolding Sync_def
    by (rule keeps_run_sync_tasks, unfold sync_tasks_def)
      (use g keys k in \<open>auto intro!: users_table.sync_keeps games_table.sync_keeps guesses_table.sync_keeps
        histories_table.sync_keeps rankings_table.sync_keeps actlogs_table.sync_keeps loginlogs_table.sync_keeps\<close>)
  from keepsD [OF this, of w] show ?thesis by simp
qed

text \<open>The copy never writes to the first server.\<close>

lemma syncRows_db: "keeps (\<lambda>w. I (w_db w)) (syncRows table put pk columns fits conflict merge since updatedAt)"
  unfolding syncRows_def
proof (intro keeps_intros)
  show "keeps (\<lambda>w. I (w_db w)) (backupCreate table put pk columns fits conflict merge rows)" for rows
    by (rule keepsI) (auto simp: backupCreate_def io_def Let_def split: if_splits option.splits)
qed

lemma keeps_RunSync: "keeps (\<lambda>w. I (w_db w)) (RunSync g b)"
proof -
  have sync: "keeps (\<lambda>w. I (w_db w)) (Sync g since)" for since
    unfolding Sync_def by (rule keeps_run_sync_tasks, unfold sync_tasks_def) (auto intro: syncRows_db)
  have atts: "keeps (\<lambda>w. I (w_db w)) (sync_attempts g since n err)" for since n err
    by (induction n arbitrary: err) (auto intro!: keeps_intros sync split: sum.split)
  show ?thesis
    unfolding RunSync_def Let_def GetBackupStatus_def SetBackupStatus_def
    by (auto intro!: keeps_intros atts keeps_rdbCall split: option.split rval.split)
qed

end
