(* ===== verification/Wire.thy ===== *)
theory Wire
  imports Router Config Retention Backup GameRecovery
begin

text \<open>
  The start of the program, \<open>main.go\<close>: the configuration becomes the use cases, the handlers and the
  workers. What the libraries compute is the record \<open>Libraries\<close>. The Redis client is there or not
  (\<open>db.OpenRedis\<close> returns \<open>nil\<close> when no address is set); the store is made from it with \<open>NewStore\<close>
  and put into fields of interface types, which then are not \<open>nil\<close>.
\<close>

record Libraries =
  lb_services :: services
  lb_hmac :: "string \<Rightarrow> string \<Rightarrow> string"
  lb_ustr :: "uuid \<Rightarrow> string"
  lb_ilike :: "string \<Rightarrow> string \<Rightarrow> bool"
  lb_jtext :: "json_object \<Rightarrow> string"
  lb_parseTime :: "string \<Rightarrow> time option"
  lb_mergers :: mergers

text \<open>The running program: what serves requests, and the use cases of the workers that were started.\<close>

record Server =
  se_Deps :: Deps
  se_WS :: Handler
  se_Mergers :: mergers
  se_Store :: store
  se_Master :: "string \<times> string"
  se_TurnWorker :: bool
  se_SecretWorker :: bool
  se_AutoLogout :: "AutoLogoutUseCase option"
  se_Backup :: "BackupUseCase option"
  se_Ranking :: "RankingUseCase option"
  se_Retention :: "LogRetentionUseCase option"
  se_TokenCleanup :: bool

text \<open>The constructors: the repositories they take are the operations of \<open>Repos\<close>, on one database.\<close>

definition NewAuthUseCase :: "services \<Rightarrow> store option \<Rightarrow> store option option \<Rightarrow> int \<Rightarrow> int \<Rightarrow> AuthUseCase" where
  "NewAuthUseCase sv jwtRevoker ws refreshDays cleanupGrace =
     \<lparr>au_Services = sv, au_JWTRevoker = jwtRevoker, au_WSSessions = ws, au_RefreshDays = refreshDays,
      au_CleanupGrace = cleanupGrace\<rparr>"

definition NewAdminUseCase ::
  "bool \<Rightarrow> store option option \<Rightarrow> store option \<Rightarrow> store option \<Rightarrow> store option \<Rightarrow> duration \<Rightarrow> AdminUseCase" where
  "NewAdminUseCase ranking ws forceLogout backup locks adminLockTTL =
     \<lparr>ad_Ranking = ranking, ad_WSSessions = ws, ad_ForceLogout = forceLogout, ad_BackupStatus = backup,
      ad_Locks = locks, ad_AdminLockTTL = adminLockTTL\<rparr>"

definition NewRankingUseCase :: "store option \<Rightarrow> duration \<Rightarrow> RankingUseCase" where
  "NewRankingUseCase locks lockTTL = \<lparr>rk_Locks = locks, rk_LockTTL = lockTTL\<rparr>"

definition NewWSAuthUseCase :: "services \<Rightarrow> store option \<Rightarrow> store option \<Rightarrow> bool \<Rightarrow> WSAuthUseCase" where
  "NewWSAuthUseCase tokens revoker forceLogout notifier =
     \<lparr>wa_Services = tokens, wa_Revoker = revoker, wa_ForceLogout = forceLogout, wa_Notifier = notifier\<rparr>"

definition NewAutoLogoutUseCase ::
  "store option \<Rightarrow> store option option \<Rightarrow> duration \<Rightarrow> AutoLogoutUseCase" where
  "NewAutoLogoutUseCase forceLogout disconnect sessionTimeout =
     \<lparr>al_ForceLogout = forceLogout, al_ForceDisconnect = disconnect, al_SessionTimeout = sessionTimeout,
      al_Now = None\<rparr>"

definition NewBackupUseCase :: "bool \<Rightarrow> store option \<Rightarrow> int \<Rightarrow> BackupUseCase" where
  "NewBackupUseCase syncer backup maxRetries =
     \<lparr>bu_Syncer = syncer, bu_BackupStatus = backup, bu_MaxRetries = maxRetries\<rparr>"

definition NewLogRetentionUseCase :: "int \<Rightarrow> int \<Rightarrow> int \<Rightarrow> int \<Rightarrow> duration \<Rightarrow> LogRetentionUseCase" where
  "NewLogRetentionUseCase activityDays loginDays wsDays batchSize batchSleep =
     \<lparr>lr_ActivityDays = activityDays, lr_LoginDays = loginDays, lr_WSDays = wsDays, lr_BatchSize = batchSize,
      lr_BatchSleep = batchSleep\<rparr>"

lemmas constructor_defs [simp] = NewAuthUseCase_def NewAdminUseCase_def NewRankingUseCase_def NewWSAuthUseCase_def
  NewAutoLogoutUseCase_def NewBackupUseCase_def NewLogRetentionUseCase_def

definition main_game :: "Libraries \<Rightarrow> store \<Rightarrow> string \<Rightarrow> Config \<Rightarrow> GameUseCase" where
  "main_game lib redisStore pepper cfg =
     NewGameUseCase \<lparr>h_hmac = lb_hmac lib, h_pepper = pepper, h_ustr = lb_ustr lib\<rparr>
       (Some redisStore) (Some redisStore) True True
       (cf_TurnDuration cfg) (cf_SecretSetupDuration cfg) (cf_GameLockTTL cfg)"

definition main_services :: "Libraries \<Rightarrow> string \<times> int \<Rightarrow> services" where
  "main_services lib jwt = (lb_services lib)\<lparr>sv_jwtSecret := fst jwt, sv_expiryMinutes := snd jwt\<rparr>"

definition main_deps :: "Libraries \<Rightarrow> store \<Rightarrow> services \<Rightarrow> GameUseCase \<Rightarrow> Config \<Rightarrow> Deps" where
  "main_deps lib redisStore jwtService gameUC cfg =
     \<lparr>dp_Auth = NewAuthUseCase jwtService (Some redisStore) (Some (Some redisStore))
         (cf_RefreshTokenExpiryDays cfg) (cf_RefreshTokenCleanupGraceDays cfg),
      dp_MatchNotifier = True, dp_Game = gameUC,
      dp_Admin = NewAdminUseCase True (Some (Some redisStore)) (Some redisStore) (Some redisStore)
         (Some redisStore) (cf_AdminLockTTL cfg),
      dp_AuthMW = \<lparr>ac_JWT = jwtService, ac_Revoker = Some redisStore, ac_ForceLogout = Some redisStore,
         ac_Users = True\<rparr>,
      dp_Users = True, dp_CookieSecure = cf_CookieSecure cfg,
      dp_JWTExpiryMinutes = cf_JWTExpiryMinutes cfg,
      dp_RefreshTokenExpiryDays = cf_RefreshTokenExpiryDays cfg, dp_ustr = lb_ustr lib,
      dp_uparse = sv_uparse jwtService, dp_ilike = lb_ilike lib, dp_jtext = lb_jtext lib,
      dp_parseTime = lb_parseTime lib\<rparr>"

definition main_ws :: "store \<Rightarrow> services \<Rightarrow> GameUseCase \<Rightarrow> Config \<Rightarrow> Handler" where
  "main_ws redisStore jwtService gameUC cfg =
     \<lparr>hd_WSAuth = NewWSAuthUseCase jwtService (Some redisStore) (Some redisStore) True,
      hd_Game = gameUC, hd_Allowed = cf_WSAllowedOrigins cfg, hd_Redis = Some redisStore,
      hd_JWTMin = cf_JWTExpiryMinutes cfg\<rparr>"

text \<open>
  \<open>redis\<close> and \<open>backup\<close>: whether there is a Redis client and a second database. A worker is started
  when the program has what it needs and its setting asks for it.
\<close>

definition main_server :: "Libraries \<Rightarrow> bool \<Rightarrow> bool \<Rightarrow> Config \<Rightarrow> go_error + Server" where
  "main_server lib redis backup cfg =
     (case NewJWTService (cf_JWTSecret cfg) (cf_JWTExpiryMinutes cfg) of
        Inl e \<Rightarrow> Inl e
      | Inr jwt \<Rightarrow> (case NewSecretHashService (cf_GameSecretPepper cfg) of
        Inl e \<Rightarrow> Inl e
      | Inr pepper \<Rightarrow>
        let redisStore = NewStore redis;
            jwtService = main_services lib jwt;
            gameUC = main_game lib redisStore pepper cfg in
        Inr \<lparr>se_Deps = main_deps lib redisStore jwtService gameUC cfg,
          se_WS = main_ws redisStore jwtService gameUC cfg,
          se_Mergers = lb_mergers lib, se_Store = redisStore,
          se_Master = (cf_MasterEmail cfg, cf_MasterPassword cfg),
          se_TurnWorker = (redis \<and> 0 < cf_TurnTimeoutPollSeconds cfg \<and> 0 < cf_TurnTimeoutPollInterval cfg),
          se_SecretWorker = (0 < cf_SecretTimeoutPollSeconds cfg \<and> 0 < cf_SecretTimeoutPollInterval cfg),
          se_AutoLogout = (if redis \<and> 0 < cf_AutoLogoutPollSeconds cfg \<and> 0 < cf_AutoLogoutPollInterval cfg
            then Some (NewAutoLogoutUseCase (Some redisStore) (Some (Some redisStore)) (cf_SessionTimeout cfg)) else None),
          se_Backup = (if backup \<and> redis \<and> cf_BackupCron cfg \<noteq> ''''
            then Some (NewBackupUseCase True (Some redisStore) 0) else None),
          se_Ranking = (if cf_RankingRebuildCron cfg \<noteq> ''''
            then Some (NewRankingUseCase (Some redisStore) (cf_AdminLockTTL cfg)) else None),
          se_Retention = (if cf_LogRetentionCron cfg \<noteq> ''''
            then Some (NewLogRetentionUseCase (cf_ActivityLogRetentionDays cfg) (cf_LoginLogRetentionDays cfg)
              (cf_WSLogRetentionDays cfg) (cf_RetentionBatchSize cfg) (cf_RetentionBatchSleep cfg)) else None),
          se_TokenCleanup = (cf_RefreshTokenCleanupCron cfg \<noteq> '''')\<rparr>))"

text \<open>Before it serves, the program recovers the games and creates the master; errors are logged.\<close>

definition main_start :: "Server \<Rightarrow> unit go" where
  "main_start s =
     andThen (ignoreErr (RecoverActiveGames (hd_Game (se_WS s)))) (\<lambda>_.
     ignoreErr (SeedMaster (dp_Auth (se_Deps s)) (fst (se_Master s)) (snd (se_Master s))))"

subsection \<open>A loaded configuration starts\<close>

lemma main_server_loaded:
  assumes "LoadFromEnv getenv = Inr cfg"
  shows "\<exists>s. main_server lib redis backup cfg = Inr s \<and> se_Store s = NewStore redis \<and>
    dp_Game (se_Deps s) = hd_Game (se_WS s)"
  by (simp add: main_server_def NewServices_loaded [OF assms] Let_def main_deps_def main_ws_def)

end
