(* ===== verification/Setup.thy ===== *)
theory Setup
  imports Wire Messages
begin

text \<open>
  What \<open>main\<close> opens before it wires the program: \<open>db/db.go\<close>, \<open>db/migrate.go\<close>, \<open>db/redis.go\<close>,
  \<open>repository/setup.go\<close> and the program \<open>migrations/migrate.go\<close>. The drivers (GORM, go-redis) are the record \<open>Drivers\<close>; a value of type \<open>'h\<close> is
  a handle of GORM. A client of Redis is what it was made from, its options. The settings of the
  connection pool are what \<open>configureSQLDB\<close> computes; the model has no pool they could bound.
\<close>

record redis_options =
  ro_Addr :: string
  ro_Password :: string
  ro_DB :: int

record 'h Drivers =
  dr_open :: "string \<Rightarrow> go_error + 'h"
  dr_DB :: "'h \<Rightarrow> go_error + unit"
  dr_autoMigrate :: "'h \<Rightarrow> go_error option"
  dr_exec :: "'h \<Rightarrow> string \<Rightarrow> go_error option"
  dr_parseURL :: "string \<Rightarrow> go_error + redis_options"
  dr_ping :: "redis_options \<Rightarrow> go_error option"

definition wrapped :: "string \<Rightarrow> go_error \<Rightarrow> go_error" where
  "wrapped what e = ErrText (what @ '': '' @ error_text e)"

subsection \<open>\<open>db/db.go\<close> and \<open>db/migrate.go\<close>\<close>

definition sqlDBFromGorm :: "'h Drivers \<Rightarrow> 'h \<Rightarrow> go_error + unit" where
  "sqlDBFromGorm d h = (case dr_DB d h of
     Inl e \<Rightarrow> Inl (if e = Panic then ErrText ''gorm db handle unavailable'' else e)
   | Inr _ \<Rightarrow> Inr ())"

definition db_Open :: "'h Drivers \<Rightarrow> string \<Rightarrow> go_error + 'h" where
  "db_Open d dsn =
     (if dsn = '''' then Inl (ErrText ''DATABASE_URL is empty'')
      else case dr_open d dsn of
        Inl e \<Rightarrow> Inl e
      | Inr h \<Rightarrow> (case sqlDBFromGorm d h of Inl e \<Rightarrow> Inl e | Inr _ \<Rightarrow> Inr h))"

text \<open>
  The settings of the connection pool that \<open>Open\<close> gives the driver, which takes them without an error.
  \<open>parseDuration\<close> is \<open>time.ParseDuration\<close>, which rounds fractions in floating point.
\<close>

record pool_settings =
  po_MaxIdle :: int
  po_MaxOpen :: int
  po_MaxLifetime :: duration
  po_MaxIdleTime :: duration

definition intFromEnv :: "env \<Rightarrow> string \<Rightarrow> int \<Rightarrow> int" where
  "intFromEnv getenv key fallback =
     (let v = getenv key in
      if v = '''' then fallback
      else case Atoi v of None \<Rightarrow> fallback | Some n \<Rightarrow> if n \<le> 0 then fallback else n)"

definition durationFromEnv :: "(string \<Rightarrow> duration option) \<Rightarrow> env \<Rightarrow> string \<Rightarrow> duration \<Rightarrow> duration" where
  "durationFromEnv parseDuration getenv key fallback =
     (let v = getenv key in
      if v = '''' then fallback
      else case parseDuration v of None \<Rightarrow> fallback | Some d \<Rightarrow> if d \<le> 0 then fallback else d)"

definition configureSQLDB :: "(string \<Rightarrow> duration option) \<Rightarrow> env \<Rightarrow> pool_settings" where
  "configureSQLDB parseDuration getenv =
     \<lparr>po_MaxIdle = intFromEnv getenv ''DB_MAX_IDLE_CONNS'' 20,
      po_MaxOpen = intFromEnv getenv ''DB_MAX_OPEN_CONNS'' 80,
      po_MaxLifetime = durationFromEnv parseDuration getenv ''DB_CONN_MAX_LIFETIME'' (30 * (60 * second)),
      po_MaxIdleTime = durationFromEnv parseDuration getenv ''DB_CONN_MAX_IDLE_TIME'' (5 * (60 * second))\<rparr>"

text \<open>Whatever the environment says, the pool is bounded and its connections do not live for ever.\<close>

lemma pool_is_bounded:
  "0 < po_MaxIdle (configureSQLDB pd getenv)" "0 < po_MaxOpen (configureSQLDB pd getenv)"
  "0 < po_MaxLifetime (configureSQLDB pd getenv)" "0 < po_MaxIdleTime (configureSQLDB pd getenv)"
  by (simp_all add: configureSQLDB_def intFromEnv_def durationFromEnv_def Let_def split: option.split)

definition migrate_indexes :: "string list" where
  "migrate_indexes =
    [''CREATE INDEX IF NOT EXISTS idx_games_active_players'' @ [CHR 0x0A] @
       ''ON games (player1_id, player2_id)'' @ [CHR 0x0A] @
       ''WHERE status IN ('' @ [CHR 0x27] @ ''WAITING_SECRET'' @ [CHR 0x27] @ '', '' @
       [CHR 0x27] @ ''IN_PROGRESS'' @ [CHR 0x27] @ '')'',
     ''CREATE INDEX IF NOT EXISTS idx_users_updated_at ON users (updated_at)'',
     ''CREATE INDEX IF NOT EXISTS idx_games_updated_at ON games (updated_at)'',
     ''CREATE INDEX IF NOT EXISTS idx_guesses_updated_at ON guesses (updated_at)'',
     ''CREATE INDEX IF NOT EXISTS idx_match_histories_updated_at ON match_histories (updated_at)'',
     ''CREATE INDEX IF NOT EXISTS idx_rankings_updated_at ON rankings (updated_at)'',
     ''CREATE INDEX IF NOT EXISTS idx_activity_logs_updated_at ON activity_logs (updated_at)'',
     ''CREATE INDEX IF NOT EXISTS idx_login_logs_updated_at ON login_logs (updated_at)'']"

fun exec_all :: "'h Drivers \<Rightarrow> 'h \<Rightarrow> string list \<Rightarrow> go_error option" where
  "exec_all d h [] = None"
| "exec_all d h (q # qs) = (case dr_exec d h q of
     Some e \<Rightarrow> Some (wrapped ''create index'' e)
   | None \<Rightarrow> exec_all d h qs)"

definition Migrate :: "'h Drivers \<Rightarrow> 'h \<Rightarrow> go_error option" where
  "Migrate d h = (case dr_autoMigrate d h of
     Some e \<Rightarrow> Some (wrapped ''auto migrate'' e)
   | None \<Rightarrow> exec_all d h migrate_indexes)"

text \<open>The program \<open>migrations/migrate.go\<close>: \<open>os.ErrInvalid\<close> without an address of the database.\<close>

definition migrate_run :: "'h Drivers \<Rightarrow> string \<Rightarrow> go_error option" where
  "migrate_run d dsn =
     (if dsn = [] then Some (ErrText ''invalid argument'')
      else case db_Open d dsn of
        Inl e \<Rightarrow> Some e
      | Inr h \<Rightarrow> Migrate d h)"

subsection \<open>\<open>repository/setup.go\<close>\<close>

definition openDB :: "'h Drivers \<Rightarrow> string \<Rightarrow> bool \<Rightarrow> go_error + 'h" where
  "openDB d dsn migrate = (case db_Open d dsn of
     Inl e \<Rightarrow> Inl e
   | Inr h \<Rightarrow> if migrate then (case Migrate d h of Some e \<Rightarrow> Inl e | None \<Rightarrow> Inr h) else Inr h)"

record SetupConfig =
  sc_DatabaseURL :: string
  sc_BackupDatabaseURL :: string
  sc_Migrate :: bool

text \<open>
  The repositories of the result are the operations of \<open>Repos\<close>, whatever the handle; there is a
  \<open>Syncer\<close> exactly when there is a second database.
\<close>

record 'h SetupResult =
  su_Primary :: 'h
  su_Backup :: "'h option"

definition repository_Setup :: "'h Drivers \<Rightarrow> SetupConfig \<Rightarrow> go_error + 'h SetupResult" where
  "repository_Setup d cfg =
     (if sc_DatabaseURL cfg = '''' then Inl (ErrText ''DATABASE_URL is required'')
      else case openDB d (sc_DatabaseURL cfg) (sc_Migrate cfg) of
        Inl e \<Rightarrow> Inl (wrapped ''primary database'' e)
      | Inr primary \<Rightarrow>
          if sc_BackupDatabaseURL cfg = '''' then Inr \<lparr>su_Primary = primary, su_Backup = None\<rparr>
          else case openDB d (sc_BackupDatabaseURL cfg) (sc_Migrate cfg) of
            Inl e \<Rightarrow> Inl (wrapped ''backup database'' e)
          | Inr backup \<Rightarrow> Inr \<lparr>su_Primary = primary, su_Backup = Some backup\<rparr>)"

subsection \<open>\<open>db/redis.go\<close>\<close>

definition redis_connect :: "'h Drivers \<Rightarrow> redis_options \<Rightarrow> go_error + redis_options option" where
  "redis_connect d opts = (case dr_ping d opts of
     Some e \<Rightarrow> Inl (wrapped ''redis ping'' e)
   | None \<Rightarrow> Inr (Some opts))"

definition OpenRedis :: "'h Drivers \<Rightarrow> env \<Rightarrow> bool \<Rightarrow> go_error + redis_options option" where
  "OpenRedis d getenv required =
     (let raw = TrimSpace (getenv ''REDIS_URL'') in
      if raw \<noteq> '''' then
        (case dr_parseURL d raw of
           Inl e \<Rightarrow> Inl (wrapped ''REDIS_URL'' e)
         | Inr opts \<Rightarrow> redis_connect d opts)
      else
        let addr = TrimSpace (getenv ''REDIS_ADDR'') in
        if addr = '''' then
          (if required then Inl (ErrText ''REDIS_URL or REDIS_ADDR is required'') else Inr None)
        else
          let s = TrimSpace (getenv ''REDIS_DB'') in
          redis_connect d \<lparr>ro_Addr = addr, ro_Password = getenv ''REDIS_PASSWORD'',
            ro_DB = (if s = '''' then 0 else case Atoi s of None \<Rightarrow> 0 | Some n \<Rightarrow> n)\<rparr>)"

subsection \<open>\<open>main.go\<close> up to the start of the server\<close>

text \<open>Every error stops the program (\<open>log.Fatalf\<close>).\<close>

definition program :: "'h Drivers \<Rightarrow> Libraries \<Rightarrow> env \<Rightarrow> go_error + Server" where
  "program d lib getenv = (case LoadFromEnv getenv of
     Inl e \<Rightarrow> Inl e
   | Inr cfg \<Rightarrow> (case repository_Setup d \<lparr>sc_DatabaseURL = cf_DatabaseURL cfg,
         sc_BackupDatabaseURL = cf_BackupDatabaseURL cfg, sc_Migrate = (getenv ''SKIP_MIGRATE'' \<noteq> ''1'')\<rparr> of
     Inl e \<Rightarrow> Inl e
   | Inr dbSetup \<Rightarrow> (case NewJWTService (cf_JWTSecret cfg) (cf_JWTExpiryMinutes cfg) of
     Inl e \<Rightarrow> Inl e
   | Inr _ \<Rightarrow> (case NewSecretHashService (cf_GameSecretPepper cfg) of
     Inl e \<Rightarrow> Inl e
   | Inr _ \<Rightarrow> (case OpenRedis d getenv (cf_Production cfg) of
     Inl e \<Rightarrow> Inl e
   | Inr rdb \<Rightarrow> main_server lib (rdb \<noteq> None) (su_Backup dbSetup \<noteq> None) cfg)))))"

subsection \<open>Redis at the start\<close>

lemma redis_connect_Inr: "redis_connect d opts = Inr rdb \<Longrightarrow> rdb \<noteq> None"
  by (auto simp: redis_connect_def split: option.splits)

lemma OpenRedis_required: "OpenRedis d getenv True = Inr rdb \<Longrightarrow> rdb \<noteq> None"
  by (auto simp: OpenRedis_def Let_def dest!: redis_connect_Inr split: if_splits sum.splits)

lemma OpenRedis_address:
  assumes "OpenRedis d getenv required = Inr rdb"
  shows "rdb = None \<longleftrightarrow> redisAddrConfigured getenv = ''''"
proof (cases "TrimSpace (getenv ''REDIS_URL'') = ''''")
  case url: True
  show ?thesis
  proof (cases "TrimSpace (getenv ''REDIS_ADDR'') = ''''")
    case True
    with url assms show ?thesis
      by (simp add: OpenRedis_def redisAddrConfigured_def split: if_splits)
  next
    case False
    with url assms obtain opts where "redis_connect d opts = Inr rdb"
      by (simp add: OpenRedis_def Let_def)
    with redis_connect_Inr [OF this] url False show ?thesis by (simp add: redisAddrConfigured_def)
  qed
next
  case False
  with assms obtain opts where "redis_connect d opts = Inr rdb"
    by (auto simp: OpenRedis_def split: sum.splits)
  with redis_connect_Inr [OF this] False show ?thesis by (simp add: redisAddrConfigured_def)
qed

lemma repository_Setup_backup:
  assumes "repository_Setup d cfg = Inr r"
  shows "su_Backup r = None \<longleftrightarrow> sc_BackupDatabaseURL cfg = ''''"
  using assms
  by (cases "sc_BackupDatabaseURL cfg = ''''") (auto simp: repository_Setup_def split: if_splits sum.splits)

lemma program_Inr:
  assumes "program d lib getenv = Inr s"
  shows "\<exists>cfg rdb. LoadFromEnv getenv = Inr cfg \<and> OpenRedis d getenv (cf_Production cfg) = Inr rdb \<and>
    main_server lib (rdb \<noteq> None) (cf_BackupDatabaseURL cfg \<noteq> '''') cfg = Inr s"
proof -
  from assms obtain cfg r rdb where run: "LoadFromEnv getenv = Inr cfg" "OpenRedis d getenv (cf_Production cfg) = Inr rdb"
    "main_server lib (rdb \<noteq> None) (su_Backup r \<noteq> None) cfg = Inr s"
    and opened: "repository_Setup d \<lparr>sc_DatabaseURL = cf_DatabaseURL cfg,
         sc_BackupDatabaseURL = cf_BackupDatabaseURL cfg, sc_Migrate = (getenv ''SKIP_MIGRATE'' \<noteq> ''1'')\<rparr> = Inr r"
    unfolding program_def by (auto split: sum.splits simp del: not_None_eq)
  from repository_Setup_backup [OF opened] run show ?thesis by (auto simp del: not_None_eq)
qed

text \<open>The store of the program works exactly when an address of Redis is set, as it must be in production.\<close>

lemma program_store:
  assumes "program d lib getenv = Inr s"
  shows "se_Store s = LiveStore \<longleftrightarrow> redisAddrConfigured getenv \<noteq> ''''"
    "isProductionEnv [getenv ''APP_ENV'', getenv ''ENV''] \<Longrightarrow> se_Store s = LiveStore"
proof -
  from program_Inr [OF assms] obtain cfg rdb where cfg: "LoadFromEnv getenv = Inr cfg"
    and rdb: "OpenRedis d getenv (cf_Production cfg) = Inr rdb"
    and s: "main_server lib (rdb \<noteq> None) (cf_BackupDatabaseURL cfg \<noteq> '''') cfg = Inr s" by blast
  obtain s' where "main_server lib (rdb \<noteq> None) (cf_BackupDatabaseURL cfg \<noteq> '''') cfg = Inr s'"
    and s': "se_Store s' = NewStore (rdb \<noteq> None)" using main_server_loaded [OF cfg] by blast
  with s have store: "se_Store s = NewStore (rdb \<noteq> None)" by (metis sum.inject(2))
  with OpenRedis_address [OF rdb] show live: "se_Store s = LiveStore \<longleftrightarrow> redisAddrConfigured getenv \<noteq> ''''"
    by (auto simp: NewStore_def)
  have "cf_Production cfg = isProductionEnv [getenv ''APP_ENV'', getenv ''ENV'']"
    using LoadFromEnv_Inr(1) [OF cfg] by (simp add: read_config_def del: isProductionEnv.simps)
  with store OpenRedis_required [of d getenv rdb] rdb
  show "isProductionEnv [getenv ''APP_ENV'', getenv ''ENV''] \<Longrightarrow> se_Store s = LiveStore"
    by (auto simp: NewStore_def simp del: isProductionEnv.simps)
qed

lemma program_without_redis:
  assumes "program d lib getenv = Inr s" "redisAddrConfigured getenv = []"
  shows "\<exists>backup cfg. main_server lib False backup cfg = Inr s"
proof -
  from program_Inr [OF assms(1)] obtain cfg rdb where rdb: "OpenRedis d getenv (cf_Production cfg) = Inr rdb"
    and s: "main_server lib (rdb \<noteq> None) (cf_BackupDatabaseURL cfg \<noteq> []) cfg = Inr s" by blast
  from OpenRedis_address [OF rdb] assms(2) have "rdb = None" by simp
  with s show ?thesis by auto
qed

subsection \<open>What the program needs to start\<close>

text \<open>
  A database opens when the driver opens it and hands out its connections, and, unless \<open>SKIP_MIGRATE\<close> is \<open>1\<close>, its
  tables and indexes can be made.
\<close>

definition database_opens :: "'h Drivers \<Rightarrow> bool \<Rightarrow> string \<Rightarrow> bool" where
  "database_opens d migrate dsn \<longleftrightarrow> (\<exists>h. dr_open d dsn = Inr h \<and> dr_DB d h = Inr () \<and>
     (migrate \<longrightarrow> dr_autoMigrate d h = None \<and> (\<forall>q\<in>set migrate_indexes. dr_exec d h q = None)))"

text \<open>A configured Redis has an address that can be read, and answers.\<close>

definition redis_answers :: "'h Drivers \<Rightarrow> env \<Rightarrow> bool" where
  "redis_answers d getenv \<longleftrightarrow>
     (let url = TrimSpace (getenv ''REDIS_URL''); addr = TrimSpace (getenv ''REDIS_ADDR'');
          num = TrimSpace (getenv ''REDIS_DB'') in
      if url \<noteq> [] then (\<exists>opts. dr_parseURL d url = Inr opts \<and> dr_ping d opts = None)
      else addr = [] \<or> dr_ping d \<lparr>ro_Addr = addr, ro_Password = getenv ''REDIS_PASSWORD'',
        ro_DB = (if num = [] then 0 else case_option 0 (\<lambda>n. n) (Atoi num))\<rparr> = None)"

text \<open>The settings: addresses, secrets of 32 bytes at least, numbers above 0, and Redis in production.\<close>

definition settings_valid :: "env \<Rightarrow> bool" where
  "settings_valid getenv \<longleftrightarrow> (let c = read_config getenv in
     cf_DatabaseURL c \<noteq> [] \<and> 32 \<le> length (cf_JWTSecret c) \<and> 32 \<le> length (cf_GameSecretPepper c) \<and>
     0 < cf_Port c \<and> 0 < cf_JWTExpiryMinutes c \<and> 0 < cf_RefreshTokenExpiryDays c \<and>
     0 < cf_GameLockSeconds c \<and> 0 < cf_AdminLockSeconds c \<and> 0 < cf_TurnDurationSeconds c \<and>
     0 < cf_SecretSetupSeconds c \<and> 0 < cf_SessionTimeoutMinutes c \<and> 0 < cf_AutoLogoutPollSeconds c \<and>
     (cf_Production c \<longrightarrow> redisAddrConfigured getenv \<noteq> []))"

lemma LoadFromEnv_valid: "(\<exists>cfg. LoadFromEnv getenv = Inr cfg) \<longleftrightarrow> settings_valid getenv"
  by (auto simp: LoadFromEnv_def settings_valid_def Let_def not_less not_le)

lemma exec_all_None: "exec_all d h qs = None \<longleftrightarrow> (\<forall>q\<in>set qs. dr_exec d h q = None)"
  by (induction qs) (auto split: option.split)

lemma openDB_Inr:
  assumes "dsn \<noteq> []"
  shows "(\<exists>h. openDB d dsn migrate = Inr h) \<longleftrightarrow> database_opens d migrate dsn"
  using assms
  unfolding database_opens_def exec_all_None [symmetric]
  by (auto simp: openDB_def db_Open_def sqlDBFromGorm_def Migrate_def split: sum.splits option.splits)

lemma repository_Setup_Inr:
  "(\<exists>r. repository_Setup d cfg = Inr r) \<longleftrightarrow> sc_DatabaseURL cfg \<noteq> [] \<and>
     database_opens d (sc_Migrate cfg) (sc_DatabaseURL cfg) \<and>
     (sc_BackupDatabaseURL cfg = [] \<or> database_opens d (sc_Migrate cfg) (sc_BackupDatabaseURL cfg))"
proof (cases "sc_DatabaseURL cfg = []")
  case False
  show ?thesis
    using openDB_Inr [OF False, of d "sc_Migrate cfg"] openDB_Inr [of "sc_BackupDatabaseURL cfg" d "sc_Migrate cfg"] False
    by (cases "openDB d (sc_DatabaseURL cfg) (sc_Migrate cfg)";
        cases "openDB d (sc_BackupDatabaseURL cfg) (sc_Migrate cfg)") (auto simp: repository_Setup_def)
qed (simp add: repository_Setup_def)

lemma OpenRedis_Inr:
  assumes "required \<longrightarrow> redisAddrConfigured getenv \<noteq> []"
  shows "(\<exists>r. OpenRedis d getenv required = Inr r) \<longleftrightarrow> redis_answers d getenv"
  using assms
  by (auto simp: OpenRedis_def redis_answers_def redis_connect_def redisAddrConfigured_def Let_def
      split: sum.splits option.splits if_splits)

lemma program_starts:
  "(\<exists>s. program d lib getenv = Inr s) \<longleftrightarrow> settings_valid getenv \<and>
     (let c = read_config getenv; migrate = (getenv ''SKIP_MIGRATE'' \<noteq> ''1'') in
      database_opens d migrate (cf_DatabaseURL c) \<and>
      (cf_BackupDatabaseURL c = [] \<or> database_opens d migrate (cf_BackupDatabaseURL c)) \<and> redis_answers d getenv)"
proof (cases "LoadFromEnv getenv")
  case (Inl e)
  then show ?thesis using LoadFromEnv_valid [of getenv] by (auto simp: program_def)
next
  case (Inr cfg)
  let ?opened = "\<lparr>sc_DatabaseURL = cf_DatabaseURL cfg, sc_BackupDatabaseURL = cf_BackupDatabaseURL cfg,
    sc_Migrate = (getenv ''SKIP_MIGRATE'' \<noteq> ''1'')\<rparr>"
  note loaded = LoadFromEnv_Inr [OF Inr]
  have valid: "settings_valid getenv" using Inr LoadFromEnv_valid by blast
  have wired: "\<exists>s. main_server lib redis backup cfg = Inr s" for redis backup
    using main_server_loaded [OF Inr] by blast
  have "(\<exists>s. program d lib getenv = Inr s) \<longleftrightarrow>
      (\<exists>r. repository_Setup d ?opened = Inr r) \<and> (\<exists>r. OpenRedis d getenv (cf_Production cfg) = Inr r)"
    by (auto simp: program_def Inr NewServices_loaded [OF Inr] wired split: sum.splits)
  then show ?thesis
    unfolding repository_Setup_Inr OpenRedis_Inr [OF loaded(14)] using valid loaded(2)
    by (simp add: Let_def flip: loaded(1))
qed

end
