(* ===== verification/Liveness.thy ===== *)
theory Liveness
  imports Progress Matching
begin

text \<open>
  What the program promises to do, when no call to a server fails: a player who waits is matched by the
  next one, and a game whose secrets were not set in time is cancelled by the next tick of its worker.
  And a game that is over stays as it is.
\<close>

subsection \<open>Matching\<close>

lemma player_ready_game_player:
  assumes "player_ready (w_db w) u" "no_faults w"
  shows "ensureGamePlayer u w = (Inr (), w\<lparr>w_nio := Suc (w_nio w)\<rparr>)"
  using assms by (auto simp: player_ready_def ensureGamePlayer_def run_simps find_defs no_faults_def CanMatch_def
      split: option.splits)

lemma player_ready_queue [simp]: "player_ready (d\<lparr>db_queue := q\<rparr>) u = player_ready d u"
  by (simp add: player_ready_def)

lemma matchingPlayerReady_run:
  assumes "no_faults w"
  shows "\<exists>n. matchingPlayerReady u w = (Inr (player_ready (w_db w) u), w\<lparr>w_nio := n\<rparr>)"
  using assms
  by (auto simp: matchingPlayerReady_def findActiveGameForUser_def gameRepo_ListByPlayerID_def run_simps find_defs
      no_faults_def player_ready_def CanMatch_def IsParticipant_def find_None_iff split: option.splits)

text \<open>The transaction: two ready players in the queue become a game.\<close>

lemma game_fits_new_game: "game_fits (new_game i p q t)"
  by (simp add: game_fits_def new_game_def char_count_def)

lemma send_ignored:
  "\<exists>w'. ignoreErr (SendToUser u ty p) w = (Inr (), w') \<and> w_db w' = w_db w"
  by (auto simp: ignoreErr_def SendToUser_def SendRaw_def WriteMessage_def split: option.splits)

lemma matchPlayers_matches:
  assumes "no_faults w" and two: "waiting_entries (w_db w) = [e1, e2]"
    and differ: "entry_UserID e1 \<noteq> entry_UserID e2"
    and ready: "player_ready (w_db w) (entry_UserID e1)" "player_ready (w_db w) (entry_UserID e2)"
    and fresh: "\<forall>g\<in>set (db_games (w_db w)). game_ID g \<noteq> w_ids w (w_nids w)"
  shows "\<exists>g w'. matchPlayers w = (Inr (Some g), w') \<and> g \<in> set (db_games (w_db w')) \<and>
    {game_Player1ID g, game_Player2ID g} = {entry_UserID e1, entry_UserID e2} \<and>
    game_Status g = GameStatusWaitingSecret \<and> no_faults w' \<and>
    db_queue (w_db w') = delete_rows (\<lambda>e. entry_ID e = entry_ID e1 \<or> entry_ID e = entry_ID e2) (db_queue (w_db w))"
proof -
  have nf: "\<not> w_faults w n" for n using assms(1) by (simp add: no_faults_def)
  let ?w = "w\<lparr>w_nio := Suc (w_nio w)\<rparr>"
  obtain n1 where r1: "matchingPlayerReady (entry_UserID e1) ?w = (Inr True, ?w\<lparr>w_nio := n1\<rparr>)"
    using matchingPlayerReady_run [of ?w "entry_UserID e1"] assms(1) ready(1) by (auto simp: no_faults_def)
  obtain n2 where r2: "matchingPlayerReady (entry_UserID e2) (?w\<lparr>w_nio := n1\<rparr>) = (Inr True, ?w\<lparr>w_nio := n2\<rparr>)"
    using matchingPlayerReady_run [of "?w\<lparr>w_nio := n1\<rparr>" "entry_UserID e2"] assms(1) ready(2)
    by (auto simp: no_faults_def)
  have list: "matchingQueueRepo_ListByStatusForUpdate MatchingQueueWaiting 2 w = (Inr [e1, e2], ?w)"
    using nf by (simp add: waiting_entries_success two)
  show ?thesis
    unfolding matchPlayers_def using r1 r2 list differ fresh
    by (simp add: run_simps nf Let_def removeQueueEntries_def matchingQueueRepo_DeleteByIDs_def
        gameRepo_Create_def insert_row_def game_fits_new_game no_faults_def disj_commute cong: go_congs)
qed

text \<open>The transaction of a player who joins when one other player waits.\<close>

lemma startMatchingTx_matches:
  assumes nf: "no_faults w" and inv: "queue_inv (w_db w)" and e: "db_queue (w_db w) = [e]"
    and other: "entry_UserID e \<noteq> u" "player_ready (w_db w) (entry_UserID e)" and u: "player_ready (w_db w) u"
    and fresh: "w_ids w (w_nids w) \<noteq> entry_ID e"
      "\<forall>g\<in>set (db_games (w_db w)). game_ID g \<noteq> w_ids w (Suc (w_nids w))"
  obtains g w1 where "startMatchingTx u t w = (Inr (Some g), w1)"
    "g \<in> set (db_games (w_db w1))" "{game_Player1ID g, game_Player2ID g} = {entry_UserID e, u}"
    "game_Status g = GameStatusWaitingSecret" "db_queue (w_db w1) = []" "no_faults w1"
proof -
  have ok: "\<not> w_faults w n" for n using nf by (simp add: no_faults_def)
  define e2 where "e2 = \<lparr>entry_ID = w_ids w (w_nids w), entry_UserID = u,
    entry_Status = MatchingQueueWaiting, entry_CreatedAt = t\<rparr>"
  have "entry_Status e = MatchingQueueWaiting" using inv e by (simp add: queue_inv_def)
  define v where "v = w\<lparr>w_nids := Suc (w_nids w), w_nio := Suc (w_nio w), w_db := (w_db w)\<lparr>db_queue := [e, e2]\<rparr>\<rparr>"
  have two: "waiting_entries (w_db v) = (if entry_CreatedAt e \<le> t then [e, e2] else [e2, e])"
    using \<open>entry_Status e = MatchingQueueWaiting\<close> by (simp add: waiting_entries_def v_def e2_def)
  have rows: "delete_rows (\<lambda>x. entry_ID x = entry_ID a \<or> entry_ID x = entry_ID b) [e, e2] = []"
    if "{a, b} = {e, e2}" for a b
    using that by (auto simp: delete_rows_def doubleton_eq_iff)
  have "startMatchingTx u t w = matchPlayers v"
    using fresh(1)
    by (simp add: startMatchingTx_def run_simps ok matchingQueueRepo_Insert_def insert_row_def e v_def e2_def)
  then show thesis
  proof (cases "entry_CreatedAt e \<le> t")
    case True
    with matchPlayers_matches [of v e e2] \<open>startMatchingTx u t w = _\<close> two nf other u fresh(2) rows [of e e2]
    show thesis by (auto simp: v_def no_faults_def e2_def intro!: that)
  next
    case False
    with matchPlayers_matches [of v e2 e] \<open>startMatchingTx u t w = _\<close> two nf other u fresh(2) rows [of e2 e]
    show thesis by (auto simp: v_def no_faults_def e2_def insert_commute intro!: that)
  qed
qed

lemma StartMatching_matches:
  assumes nf: "no_faults w" and inv: "queue_inv (w_db w)" and e: "db_queue (w_db w) = [e]"
    and other: "entry_UserID e \<noteq> u" "player_ready (w_db w) (entry_UserID e)" and u: "player_ready (w_db w) u"
    and fresh: "w_ids w (w_nids w) \<noteq> entry_ID e"
      "\<forall>g\<in>set (db_games (w_db w)). game_ID g \<noteq> w_ids w (Suc (w_nids w))"
  shows "\<exists>g w'. StartMatching notifier u w = (Inr \<lparr>mo_Status = ''matched'', mo_GameID = Some (game_ID g)\<rparr>, w') \<and>
    g \<in> set (db_games (w_db w')) \<and> {game_Player1ID g, game_Player2ID g} = {entry_UserID e, u} \<and>
    game_Status g = GameStatusWaitingSecret \<and> db_queue (w_db w') = []"
proof -
  have ok: "\<not> w_faults w n" for n using nf by (simp add: no_faults_def)
  define t where "t = w_clock w (w_nclock w)"
  let ?v = "w\<lparr>w_nclock := Suc (w_nclock w), w_nio := Suc (Suc (Suc (Suc (w_nio w))))\<rparr>"
  obtain g w1 where "startMatchingTx u t ?v = (Inr (Some g), w1)"
    and g: "g \<in> set (db_games (w_db w1))" "{game_Player1ID g, game_Player2ID g} = {entry_UserID e, u}"
      "game_Status g = GameStatusWaitingSecret"
    and q: "db_queue (w_db w1) = []" and w1: "no_faults w1"
    using startMatchingTx_matches [of ?v e u t] nf inv e other u fresh by (auto simp: no_faults_def)
  then have tx: "WithTx (startMatchingTx u t) (w\<lparr>w_nio := Suc (Suc (Suc (w_nio w))), w_nclock := Suc (w_nclock w)\<rparr>) =
      (Inr (Some g), w1\<lparr>w_nio := Suc (w_nio w1)\<rparr>)"
    using w1 by (simp add: run_simps ok no_faults_def)
  have active: "find (\<lambda>g. active_status (game_Status g))
      (filter (\<lambda>g. game_Player1ID g = u \<or> game_Player2ID g = u) (db_games (w_db w))) = None"
    using u by (auto simp: find_None_iff player_ready_def IsParticipant_def)
  let ?w = "w1\<lparr>w_nio := Suc (w_nio w1)\<rparr>"
  obtain w2 where s1: "ignoreErr (SendToUser (game_Player1ID g) ''MATCHED'' [(''gameId'', JUuid (game_ID g))]) ?w = (Inr (), w2)"
    "w_db w2 = w_db w1" using send_ignored [of "game_Player1ID g" _ _ ?w] by fastforce
  obtain w3 where s2: "ignoreErr (SendToUser (game_Player2ID g) ''MATCHED'' [(''gameId'', JUuid (game_ID g))]) w2 = (Inr (), w3)"
    "w_db w3 = w_db w1" using send_ignored [of "game_Player2ID g" _ _ w2] s1(2) by fastforce
  have "StartMatching notifier u w = (Inr \<lparr>mo_Status = ''matched'', mo_GameID = Some (game_ID g)\<rparr>,
      if notifier then w3 else ?w)"
    using player_ready_game_player [OF u nf] active s1(1) s2(1) other(1)
    by (simp add: tx StartMatching_def andThen_run ret_eval ensure_eval ok findActiveGameForUser_def
        gameRepo_ListByPlayerID_def userWaitingInMatchingQueue_def matchingQueueRepo_FindByUserID_def e
        dbQuery_eval now_eval bindr_simps t_def [symmetric])
  then show ?thesis using g q s2(2) by (intro exI [of _ g]) auto
qed

subsection \<open>Secrets that were not set in time\<close>

text \<open>Calls that change no game, do not panic, and leave the servers as they are.\<close>

definition same_servers :: "world \<Rightarrow> world \<Rightarrow> bool" where
  "same_servers w w' \<longleftrightarrow> w_faults w' = w_faults w \<and> w_dialect w' = w_dialect w \<and> w_clock w' = w_clock w \<and>
     w_nclock w \<le> w_nclock w'"

definition same_rows :: "world \<Rightarrow> world \<Rightarrow> bool" where
  "same_rows w w' \<longleftrightarrow> db_games (w_db w') = db_games (w_db w) \<and> db_users (w_db w') = db_users (w_db w)"

definition calm :: "'a go \<Rightarrow> bool" where
  "calm m \<longleftrightarrow> (\<forall>w. fst (m w) \<noteq> Inl Panic \<and> same_servers w (snd (m w)) \<and> same_rows w (snd (m w)))"

lemma same_rows_trans: "same_rows a b \<Longrightarrow> same_rows b e \<Longrightarrow> same_rows a e"
  by (simp add: same_rows_def)

lemma same_servers_trans: "same_servers a b \<Longrightarrow> same_servers b e \<Longrightarrow> same_servers a e"
  by (auto simp: same_servers_def)

lemma calm_ret: "calm (ret x)"
  by (simp add: calm_def ret_def same_servers_def same_rows_def)

lemma calm_andThen: "calm m \<Longrightarrow> (\<And>x. calm (k x)) \<Longrightarrow> calm (andThen m k)"
  unfolding calm_def
proof
  fix w
  assume m: "\<forall>w. fst (m w) \<noteq> Inl Panic \<and> same_servers w (snd (m w)) \<and>
      same_rows w (snd (m w))"
    and k: "\<And>x. \<forall>w. fst (k x w) \<noteq> Inl Panic \<and> same_servers w (snd (k x w)) \<and>
      same_rows w (snd (k x w))"
  obtain r v where run: "m w = (r, v)" by fastforce
  with m have v: "r \<noteq> Inl Panic" "same_servers w v" "same_rows w v"
    by (metis fst_conv snd_conv)+
  show "fst (andThen m k w) \<noteq> Inl Panic \<and> same_servers w (snd (andThen m k w)) \<and>
      same_rows w (snd (andThen m k w))"
  proof (cases r)
    case (Inl e)
    with run v show ?thesis by (auto simp: andThen_def)
  next
    case (Inr x)
    with run v k [of x] show ?thesis by (auto simp: andThen_def intro: same_servers_trans same_rows_trans)
  qed
qed

lemma calm_ignoreErr: "calm m \<Longrightarrow> calm (ignoreErr m)"
  unfolding calm_def
proof
  fix w
  assume "\<forall>w. fst (m w) \<noteq> Inl Panic \<and> same_servers w (snd (m w)) \<and>
      same_rows w (snd (m w))"
  moreover obtain r v where "m w = (r, v)" by fastforce
  ultimately show "fst (ignoreErr m w) \<noteq> Inl Panic \<and> same_servers w (snd (ignoreErr m w)) \<and>
      same_rows w (snd (ignoreErr m w))"
    by (cases r) (auto simp: ignoreErr_def dest: spec [of _ w])
qed

lemma calm_forEach: "(\<And>x. calm (k x)) \<Longrightarrow> calm (forEach xs k)"
  by (induction xs) (auto intro: calm_ret calm_andThen)

lemma calm_newUUID: "calm newUUID"
  by (simp add: calm_def newUUID_eval same_servers_def same_rows_def)

lemma calm_DeleteTurn: "s \<noteq> NilStore \<Longrightarrow> calm (DeleteTurn s g)"
  by (cases s) (simp_all add: calm_def DeleteTurn_def rdbCall_eval same_servers_def same_rows_def)

lemma calm_sendIfNotifier: "calm (sendIfNotifier c u ty p)"
proof -
  have "calm (SendToUser u ty p)"
    by (simp add: calm_def SendToUser_def SendRaw_def WriteMessage_def same_servers_def same_rows_def split: option.split)
  then show ?thesis unfolding sendIfNotifier_def by (auto intro: calm_ret calm_ignoreErr)
qed

lemma calm_record: "calm (recordGameOverActivityLog g r u t)"
proof -
  have "calm (mapErr (\<lambda>_. ErrText e) (activityLogRepo_Create l))" for e l
    by (auto simp: calm_def mapErr_def activityLogRepo_Create_def dbExec_eval insert_row_def same_servers_def same_rows_def
        split: option.split)
  then show ?thesis
    unfolding recordGameOverActivityLog_def recordActivityLog_def by (intro calm_andThen calm_newUUID)
qed

text \<open>A game that waits for its secrets, and has waited too long.\<close>

definition overdue :: "GameUseCase \<Rightarrow> time \<Rightarrow> game \<Rightarrow> bool" where
  "overdue c t g \<longleftrightarrow> game_Status g = GameStatusWaitingSecret \<and> game_CreatedAt g < t - uc_SecretSetup c"

lemma cancelTx_overdue:
  assumes inv: "duel_inv h (w_db w)" and "writable w" and g: "g \<in> set (db_games (w_db w))" "overdue c t g"
  shows "cancelTx c (game_ID g) t w = (Inr (Some (game_Player1ID g, game_Player2ID g)),
    w\<lparr>w_nio := Suc (Suc (w_nio w)), w_db := (w_db w)\<lparr>db_games := save_row game_ID
      (g\<lparr>game_Status := GameStatusFinished, game_FinishedAt := Some t, game_UpdatedAt := t\<rparr>) (db_games (w_db w))\<rparr>\<rparr>)"
proof -
  let ?g = "g\<lparr>game_Status := GameStatusFinished, game_FinishedAt := Some t, game_UpdatedAt := t\<rparr>"
  have fits: "(w_dialect w = Postgres \<and> \<not> game_fits ?g) = False"
    using writable_game [OF assms(2) g(1)] by (simp add: game_fits_def)
  have found: "first_row game_ID (\<lambda>x. game_ID x = game_ID g) (db_games (w_db w)) = Some g"
    and "game_ok g" using inv g(1) by (auto simp: duel_inv_def games_inv_def first_row_key game_log_ok_def)
  moreover have "game_Status g = GameStatusWaitingSecret" using g(2) by (simp add: overdue_def)
  moreover have cancel: "cancelGameBySecretTimeout g t =
      Inr (g\<lparr>game_Status := GameStatusFinished, game_FinishedAt := Some t, game_UpdatedAt := t\<rparr>)"
    using \<open>game_Status g = GameStatusWaitingSecret\<close> by (simp add: cancelGame_Inr)
  ultimately show ?thesis
    using g(2) assms(2)
    by (simp add: cancelTx_def run_simps find_defs gameRepo_Update_def writable_no_faults fits overdue_def
        game_ok_waiting waiting_ok_def Let_def less_diff_eq cong: go_congs)
qed

lemma CancelBySecretTimeout_overdue:
  assumes inv: "duel_inv h (w_db w)" and w: "writable w" and store: "uc_Turns c \<noteq> Some NilStore"
    and g: "g \<in> set (db_games (w_db w))" "overdue c (w_clock w (w_nclock w)) g"
  shows "\<exists>r w' g'. CancelBySecretTimeout c (game_ID g) w = (r, w') \<and> r \<noteq> Inl Panic \<and> same_servers w w' \<and>
    game_ID g' = game_ID g \<and> game_Status g' = GameStatusFinished \<and> game_fits g' = game_fits g \<and>
    db_games (w_db w') = save_row game_ID g' (db_games (w_db w)) \<and> db_users (w_db w') = db_users (w_db w)"
proof -
  let ?t = "w_clock w (w_nclock w)"
  define rest where "rest = andThen (case uc_Turns c of None \<Rightarrow> ret () | Some s \<Rightarrow> ignoreErr (DeleteTurn s (game_ID g)))
    (\<lambda>_. andThen (forEach [game_Player1ID g, game_Player2ID g] (\<lambda>uid. sendIfNotifier c uid ''GAME_OVER''
      [(''gameId'', JUuid (game_ID g)), (''reason'', JStr ''secret_setup_timeout'')])) (\<lambda>_.
    recordGameOverActivityLog (game_ID g) ''secret_setup_timeout'' None ?t))"
  have calm: "calm rest"
    unfolding rest_def using store
    by (intro calm_andThen calm_forEach calm_sendIfNotifier calm_record)
      (auto intro: calm_ret calm_ignoreErr calm_DeleteTurn split: option.split)
  let ?g = "g\<lparr>game_Status := GameStatusFinished, game_FinishedAt := Some ?t, game_UpdatedAt := ?t\<rparr>"
  let ?w = "w\<lparr>w_nclock := Suc (w_nclock w), w_nio := Suc (w_nio w)\<rparr>"
  have "writable ?w" using w by (simp add: writable_def no_faults_def)
  from cancelTx_overdue [of h ?w g c ?t, OF _ this] inv g obtain v where
    tx: "WithTx (cancelTx c (game_ID g) ?t) (w\<lparr>w_nclock := Suc (w_nclock w)\<rparr>) =
      (Inr (Some (game_Player1ID g, game_Player2ID g)), v)"
    and v: "same_servers w v" "db_games (w_db v) = save_row game_ID ?g (db_games (w_db w))"
      "db_users (w_db v) = db_users (w_db w)"
    using w by (simp add: run_simps writable_no_faults same_servers_def)
  have "CancelBySecretTimeout c (game_ID g) w = rest v"
    by (simp add: CancelBySecretTimeout_def rest_def andThen_run now_eval tx bindr_simps)
  moreover have "fst (rest v) \<noteq> Inl Panic" "same_servers v (snd (rest v))"
    "db_games (w_db (snd (rest v))) = db_games (w_db v)" "db_users (w_db (snd (rest v))) = db_users (w_db v)"
    using calm by (simp_all add: calm_def same_rows_def)
  moreover have "same_servers w (snd (rest v))" using v(1) \<open>same_servers v (snd (rest v))\<close> by (simp add: same_servers_def)
  ultimately show ?thesis using v(2,3) by (intro exI [of _ "fst (rest v)"] exI [of _ "snd (rest v)"] exI [of _ ?g])
    (simp add: game_fits_def)
qed

lemma cancel_all_overdue:
  assumes "duel_inv (uc_Secrets c) (w_db w)" "writable w" "uc_Turns c \<noteq> Some NilStore"
    and "\<And>m n. m \<le> n \<Longrightarrow> w_clock w m \<le> w_clock w n" "t \<le> w_clock w (w_nclock w)"
    and "distinct (map game_ID gs)" "set gs \<subseteq> set (db_games (w_db w))" "\<forall>g\<in>set gs. overdue c t g"
  shows "\<exists>w'. forEach gs (\<lambda>g. ignoreErr (CancelBySecretTimeout c (game_ID g))) w = (Inr (), w') \<and>
    (\<forall>g\<in>set (db_games (w_db w')). game_Status g = GameStatusWaitingSecret \<longrightarrow>
       g \<in> set (db_games (w_db w)) \<and> g \<notin> set gs)"
  using assms
proof (induction gs arbitrary: w)
  case (Cons g gs)
  have g: "g \<in> set (db_games (w_db w))" "overdue c (w_clock w (w_nclock w)) g"
    using Cons.prems(5,7,8) by (auto simp: overdue_def)
  obtain r w1 g' where run: "CancelBySecretTimeout c (game_ID g) w = (r, w1)" "r \<noteq> Inl Panic"
    and w1: "same_servers w w1" "game_ID g' = game_ID g" "game_Status g' = GameStatusFinished"
      "db_games (w_db w1) = save_row game_ID g' (db_games (w_db w))" "game_fits g' = game_fits g"
      "db_users (w_db w1) = db_users (w_db w)"
    using CancelBySecretTimeout_overdue [OF Cons.prems(1-3) g] by blast
  have keys: "distinct (map game_ID (db_games (w_db w)))"
    using Cons.prems(1) by (simp add: duel_inv_def games_inv_def)
  have games: "set (db_games (w_db w1)) = insert g' {x \<in> set (db_games (w_db w)). game_ID x \<noteq> game_ID g}"
    by (simp add: w1(2,4) set_save_row [OF keys])
  have inv1: "duel_inv (uc_Secrets c) (w_db w1)"
    using keepsD [OF game_txs.keeps_CancelBySecretTimeout [of c "game_ID g"], of w] Cons.prems(1) run(1) by simp
  have clock: "t \<le> w_clock w1 (w_nclock w1)"
    using Cons.prems(4) [of "w_nclock w" "w_nclock w1"] Cons.prems(5) w1(1) by (simp add: same_servers_def)
  have "writable w1"
    using Cons.prems(2) w1(1) g(1) by (auto simp: same_servers_def writable_def no_faults_def rows_fit_def games w1(5,6))
  moreover have "\<And>m n. m \<le> n \<Longrightarrow> w_clock w1 m \<le> w_clock w1 n"
    using Cons.prems(4) w1(1) by (simp add: same_servers_def)
  moreover have "set gs \<subseteq> set (db_games (w_db w1))" using Cons.prems(6,7) games by (auto simp: image_iff)
  ultimately obtain w' where rest: "forEach gs (\<lambda>g. ignoreErr (CancelBySecretTimeout c (game_ID g))) w1 = (Inr (), w')"
    "\<forall>g\<in>set (db_games (w_db w')). game_Status g = GameStatusWaitingSecret \<longrightarrow>
       g \<in> set (db_games (w_db w1)) \<and> g \<notin> set gs"
    using Cons.IH [OF inv1 _ Cons.prems(3) _ clock] Cons.prems(6,8) by auto
  have "ignoreErr (CancelBySecretTimeout c (game_ID g)) w = (Inr (), w1)"
    using run by (cases r) (auto simp: ignoreErr_def)
  with rest(1) have "forEach (g # gs) (\<lambda>g. ignoreErr (CancelBySecretTimeout c (game_ID g))) w = (Inr (), w')"
    by (simp add: andThen_run bindr_simps)
  moreover have "x \<in> set (db_games (w_db w)) \<and> x \<notin> set (g # gs)"
    if "x \<in> set (db_games (w_db w'))" "game_Status x = GameStatusWaitingSecret" for x
    using rest(2) that games w1(3) by auto
  ultimately show ?case by blast
qed (auto simp: ret_eval)

lemma secret_worker_cancels:
  assumes inv: "duel_inv (uc_Secrets c) (w_db w)" and w: "writable w" "uc_Turns c \<noteq> Some NilStore"
    and clock: "\<And>m n. m \<le> n \<Longrightarrow> w_clock w m \<le> w_clock w n" "t \<le> w_clock w (w_nclock w)"
    and "0 < uc_SecretSetup c"
  shows "\<exists>w'. SecretSetupTimeoutWorker_tick c t w = (Inr (), w') \<and>
    (\<forall>g\<in>set (db_games (w_db w')). \<not> overdue c t g)"
proof -
  let ?w = "w\<lparr>w_nio := Suc (w_nio w)\<rparr>" and ?gs = "filter (overdue c t) (db_games (w_db w))"
  have keys: "distinct (map game_ID (db_games (w_db w)))" using inv by (simp add: duel_inv_def games_inv_def)
  have gs: "distinct (map game_ID ?gs)" using keys by (rule distinct_map_filter)
  have w1: "duel_inv (uc_Secrets c) (w_db ?w)" "writable ?w" "t \<le> w_clock ?w (w_nclock ?w)"
    using inv w(1) clock(2) by (simp_all add: writable_def no_faults_def)
  have mono: "w_clock ?w m \<le> w_clock ?w n" if "m \<le> n" for m n using clock(1) [OF that] by simp
  have "\<exists>w'. forEach ?gs (\<lambda>g. ignoreErr (CancelBySecretTimeout c (game_ID g))) ?w = (Inr (), w') \<and>
    (\<forall>g\<in>set (db_games (w_db w')). game_Status g = GameStatusWaitingSecret \<longrightarrow>
       g \<in> set (db_games (w_db ?w)) \<and> g \<notin> set ?gs)"
    by (rule cancel_all_overdue [OF w1(1,2) w(2) mono w1(3) gs]) simp_all
  then obtain w' where run: "forEach ?gs (\<lambda>g. ignoreErr (CancelBySecretTimeout c (game_ID g))) ?w = (Inr (), w')"
    and none: "\<forall>g\<in>set (db_games (w_db w')). game_Status g = GameStatusWaitingSecret \<longrightarrow>
       g \<in> set (db_games (w_db ?w)) \<and> g \<notin> set ?gs" by (elim exE conjE)
  have "SecretSetupTimeoutWorker_tick c t w = (Inr (), w')"
    using run assms(6) w(1)
    by (simp add: SecretSetupTimeoutWorker_tick_def Let_def andThen_run attempt_def gameRepo_ListByStatusCreatedBefore_def
        dbQuery_eval bindr_simps writable_def no_faults_def overdue_def [abs_def])
  moreover have "\<not> overdue c t g" if "g \<in> set (db_games (w_db w'))" for g
    using none that by (auto simp: overdue_def)
  ultimately show ?thesis by blast
qed

text \<open>
  Without Redis the field \<open>Turns\<close> holds a \<open>nil\<close> pointer in an interface, which is not \<open>nil\<close>: the first
  game that waited too long ends the program.
\<close>

lemma secret_worker_panics:
  assumes inv: "duel_inv (uc_Secrets c) (w_db w)" and w: "writable w" "uc_Turns c = Some NilStore"
    and clock: "\<And>m n. m \<le> n \<Longrightarrow> w_clock w m \<le> w_clock w n" "t \<le> w_clock w (w_nclock w)"
    and g: "g \<in> set (db_games (w_db w))" "overdue c t g" and "0 < uc_SecretSetup c"
  shows "fst (SecretSetupTimeoutWorker_tick c t w) = Inl Panic"
proof -
  let ?w = "w\<lparr>w_nio := Suc (w_nio w)\<rparr>" and ?gs = "filter (overdue c t) (db_games (w_db w))"
  from g have "?gs \<noteq> []" by (auto simp: filter_empty_conv)
  then obtain g1 gs where gs: "?gs = g1 # gs" by (cases ?gs) auto
  have "g1 \<in> set ?gs" unfolding gs by simp
  then have g1: "g1 \<in> set (db_games (w_db w))" "overdue c (w_clock w (w_nclock w)) g1"
    using clock(2) by (auto simp: overdue_def)
  let ?t = "w_clock w (w_nclock w)"
  let ?v = "w\<lparr>w_nclock := Suc (w_nclock w), w_nio := Suc (Suc (w_nio w))\<rparr>"
  have "writable ?v" using w by (simp add: writable_def no_faults_def)
  from cancelTx_overdue [of "uc_Secrets c" ?v g1 c ?t, OF _ this] inv g1 obtain v where
    "WithTx (cancelTx c (game_ID g1) ?t) (w\<lparr>w_nio := Suc (w_nio w), w_nclock := Suc (w_nclock w)\<rparr>) =
      (Inr (Some (game_Player1ID g1, game_Player2ID g1)), v)"
    using w by (simp add: run_simps writable_def no_faults_def)
  then have run: "fst (CancelBySecretTimeout c (game_ID g1) ?w) = Inl Panic"
    using w by (simp add: CancelBySecretTimeout_def andThen_run now_eval bindr_simps ignoreErr_run DeleteTurn_def rdbCall_nil
        ignored_simps)
  obtain w1 where "CancelBySecretTimeout c (game_ID g1) ?w = (Inl Panic, w1)" using run by (metis prod.collapse)
  then have "fst (forEach ?gs (\<lambda>g. ignoreErr (CancelBySecretTimeout c (game_ID g))) ?w) = Inl Panic"
    unfolding gs by (simp add: andThen_run ignoreErr_run ignored_simps bindr_simps)
  then show ?thesis
    using w assms(8)
    by (simp add: SecretSetupTimeoutWorker_tick_def Let_def andThen_run attempt_def gameRepo_ListByStatusCreatedBefore_def
        dbQuery_eval bindr_simps writable_def no_faults_def overdue_def [abs_def])
qed

end
