(* ===== verification/Play.thy ===== *)
theory Play
  imports Liveness
begin

text \<open>
  A duel from its first secret to its end: the two secrets of a waiting game are accepted and start it,
  and the guess that is the opponent's secret wins it.
\<close>

subsection \<open>Calls that leave the servers as they are\<close>

definition tame :: "'a go \<Rightarrow> bool" where
  "tame m \<longleftrightarrow> (\<forall>w. same_servers w (snd (m w)) \<and> w_ids (snd (m w)) = w_ids w \<and> w_nids w \<le> w_nids (snd (m w)))"

lemma tame_andThen: "tame m \<Longrightarrow> (\<And>x. tame (k x)) \<Longrightarrow> tame (andThen m k)"
  unfolding tame_def
proof
  fix w
  assume m: "\<forall>w. same_servers w (snd (m w)) \<and> w_ids (snd (m w)) = w_ids w \<and> w_nids w \<le> w_nids (snd (m w))"
    and k: "\<And>x. \<forall>w. same_servers w (snd (k x w)) \<and> w_ids (snd (k x w)) = w_ids w \<and> w_nids w \<le> w_nids (snd (k x w))"
  obtain r v where run: "m w = (r, v)" by fastforce
  with m have v: "same_servers w v" "w_ids v = w_ids w" "w_nids w \<le> w_nids v" by (metis snd_conv)+
  show "same_servers w (snd (andThen m k w)) \<and> w_ids (snd (andThen m k w)) = w_ids w \<and>
      w_nids w \<le> w_nids (snd (andThen m k w))"
  proof (cases r)
    case (Inr x)
    have "same_servers v (snd (k x v))" "w_ids (snd (k x v)) = w_ids v" "w_nids v \<le> w_nids (snd (k x v))"
      using k by simp_all
    with run v Inr show ?thesis by (auto simp: andThen_def intro: same_servers_trans order_trans)
  qed (use run v in \<open>simp add: andThen_def\<close>)
qed

lemma tame_basic:
  "tame (ret x)" "tame (throw e)" "tame (lift_result r)" "tame (ensure b e)" "tame now" "tame newUUID"
  "tame (dbQuery f)" "tame (dbExec q)" "tame (require opt e)"
  by (auto simp: tame_def same_servers_def ret_def throw_def lift_result_def ensure_def now_eval newUUID_eval
      dbQuery_eval dbExec_eval require_def split: sum.split option.split)

lemma tame_setSecretTx: "tame (setSecretTx c u gid ds)"
  unfolding setSecretTx_def gameRepo_FindByIDForUpdate_def gameRepo_Update_def startGameInTx_def find_defs Let_def
  by (auto intro!: tame_andThen tame_basic split: if_splits)

subsection \<open>One secret\<close>

definition with_secret :: "duel \<Rightarrow> int \<Rightarrow> int list \<Rightarrow> duel" where
  "with_secret a slot ds = (if slot = 1 then a\<lparr>duel_secret1 := Some ds\<rparr> else a\<lparr>duel_secret2 := Some ds\<rparr>)"

definition ready_to_play :: "GameUseCase \<Rightarrow> world \<Rightarrow> game \<Rightarrow> duel \<Rightarrow> bool" where
  "ready_to_play c w g a \<longleftrightarrow> duel_inv (uc_Secrets c) (w_db w) \<and> writable w \<and> fresh_ids w \<and>
     hashes_fit (uc_Secrets c) (game_ID g) w \<and>
     g \<in> set (db_games (w_db w)) \<and> refines (uc_Secrets c) (game_guesses (w_db w) g) g a"

lemma setSecretTx_rows_fit:
  assumes "setSecretTx c u gid ds w = (Inr started, w')" "w_dialect w = Postgres" "rows_fit (w_db w)"
  shows "rows_fit (w_db w')"
proof -
  have saved: "rows_fit (d\<lparr>db_games := save_row game_ID g (db_games d)\<rparr>)" if "rows_fit d" "game_fits g" for d g
    using that by (auto simp: rows_fit_def save_row_def split: if_splits)
  from assms(1,2) obtain g where "game_fits g" "w_db w' = (w_db w)\<lparr>db_games := save_row game_ID g (db_games (w_db w))\<rparr> \<or>
      (\<exists>g'. game_fits g' \<and> w_db w' = (w_db w)\<lparr>db_games := save_row game_ID g' (save_row game_ID g (db_games (w_db w)))\<rparr>)"
    unfolding setSecretTx_def startGameInTx_def Let_def
    by (fastforce simp: success_iff find_defs secretAllowed_Inr split: if_splits)
  then show ?thesis
    using saved [OF assms(3), of g] saved [of "(w_db w)\<lparr>db_games := save_row game_ID g (db_games (w_db w))\<rparr>"] by auto
qed

lemma secret_played:
  assumes w: "ready_to_play c w g a" and ds: "four_distinct_digits ds"
    and g: "game_Status g = GameStatusWaitingSecret" "IsParticipant g u" "ownSecret g u = ''''"
  shows "\<exists>g' w'. setSecretTx c u (game_ID g) ds w = (Inr (duel_started (with_secret a (player_slot g u) ds)), w') \<and>
    ready_to_play c w' g' (with_secret a (player_slot g u) ds) \<and> same_game g g'"
proof -
  from w have inv: "duel_inv (uc_Secrets c) (w_db w)" and run: "writable w" "fresh_ids w"
    and fit: "hashes_fit (uc_Secrets c) (game_ID g) w"
    and in_db: "g \<in> set (db_games (w_db w))" and ref: "refines (uc_Secrets c) (game_guesses (w_db w) g) g a"
    by (simp_all add: ready_to_play_def)
  have keys: "distinct (map game_ID (db_games (w_db w)))" using inv by (simp add: duel_inv_def games_inv_def)
  from setSecretTx_accepted [OF inv run(1) in_db g fit] obtain started w' where
    tx: "setSecretTx c u (game_ID g) ds w = (Inr started, w')" by (metis prod.collapse)
  have "stored_duel (uc_Secrets c) (w_db w) (game_ID g) a" using ref in_db unfolding stored_duel_def by blast
  from setSecretTx_refines [OF inv ds tx this] obtain g0 a' where
    g0: "g0 \<in> set (db_games (w_db w))" "game_ID g0 = game_ID g"
    and a': "duel_set_secret a (player_slot g0 u) ds = Some a'" "stored_duel (uc_Secrets c) (w_db w') (game_ID g) a'"
      "started = duel_started a'" by blast
  have "g0 = g" using keys g0 in_db by (auto dest: distinct_key_eq)
  with a'(1) have a'_eq: "a' = with_secret a (player_slot g u) ds"
    by (auto simp: duel_set_secret_def with_secret_def split: if_splits)
  from tx obtain g1 where g1: "game_ID g1 = game_ID g" "same_game g g1"
    and db: "w_db w' = (w_db w)\<lparr>db_games := save_row game_ID g1 (db_games (w_db w))\<rparr>"
  proof (cases rule: setSecretTx_success)
    case (1 g2 g3)
    have "g2 = g" using keys 1(2,3) in_db by (auto dest: distinct_key_eq)
    with secret_step_same [OF 1(4)] 1(5) that [of g3] show thesis by (simp add: same_game_def)
  qed
  have inv': "duel_inv (uc_Secrets c) (w_db w')" by (rule duel_inv_setSecretTx [OF inv ds tx])
  have "g1 \<in> set (db_games (w_db w'))" using g1(1) in_db by (simp add: db set_save_row [OF keys])
  moreover from stored_duel_unique [OF inv' a'(2) this g1(1)]
  have "refines (uc_Secrets c) (game_guesses (w_db w') g1) g1 a'" .
  moreover have "same_servers w w' \<and> w_ids w' = w_ids w \<and> w_nids w \<le> w_nids w'"
    using tame_setSecretTx [of c u "game_ID g" ds] tx unfolding tame_def by (metis snd_conv)
  then have "writable w'" "fresh_ids w'" "hashes_fit (uc_Secrets c) (game_ID g1) w'"
    using run fit g1(1) setSecretTx_rows_fit [OF tx]
    by (simp_all add: same_servers_def writable_def no_faults_def fresh_ids_def hashes_fit_def db)
  ultimately show ?thesis using tx inv' a'(3) g1(2) unfolding ready_to_play_def a'_eq by blast
qed

subsection \<open>The whole duel\<close>

lemma winning_guess_effect:
  assumes inv: "duel_inv (uc_Secrets c) (w_db w)" and run: "submitGuessTx c u gid ds auto w = (Inr (result, True), w')"
  shows "\<exists>g\<in>set (db_games (w_db w')). game_ID g = gid \<and> game_Status g = GameStatusFinished \<and> game_WinnerID g = Some u"
  using run
proof (cases rule: submitGuessTx_success)
  case (1 g row g1 t)
  let ?d = "w_db w"
  from inv 1(2) have keys: "distinct (map game_ID (db_games ?d))" and ok: "game_ok g"
    and part: "\<forall>p. IsParticipant g p \<longrightarrow> p \<in> user_ID ` set (db_users ?d)"
    by (auto simp: duel_inv_def games_inv_def game_log_ok_def players_inv_def IsParticipant_def)
  note f = guess_step_facts [OF 1(4) ok]
  from 1(10) obtain g' w1 where fin: "finishGameService g1 u t w1 = (Inr g', w')"
    and w1: "w_db w1 = ?d\<lparr>db_guesses := db_guesses ?d @ [row]\<rparr>" by auto
  have "\<forall>p. IsParticipant g1 p \<longrightarrow> p \<in> user_ID ` set (db_users (w_db w1))"
    using part f(6) by (simp add: w1 IsParticipant_def same_game_def)
  with fin show ?thesis
  proof (cases rule: finishGameService_success)
    case (1 x y hist)
    have "db_games (w_db w') = save_row game_ID g' (db_games ?d)" by (simp add: 1(11) w1)
    then have "g' \<in> set (db_games (w_db w'))" by (simp add: set_save_row [OF keys])
    moreover have "game_ID g' = gid" using 1(4) f(6) \<open>game_ID g = gid\<close> by (auto simp: finishGame_Inr same_game_def)
    moreover have "game_Status g' = GameStatusFinished" "game_WinnerID g' = Some u"
      using 1(4) by (auto simp: finishGame_Inr)
    ultimately show ?thesis by blast
  qed
qed

text \<open>A waiting game without secrets is a duel that has not begun.\<close>

lemma waiting_game_is_new:
  assumes inv: "duel_inv (uc_Secrets c) (w_db w)" and w: "writable w" "fresh_ids w" "hashes_fit (uc_Secrets c) (game_ID g) w"
    and g: "g \<in> set (db_games (w_db w))" "game_Status g = GameStatusWaitingSecret"
      "game_Player1Secret g = ''''" "game_Player2Secret g = ''''"
    and differ: "digests_differ (uc_Secrets c) (game_ID g) 1" "digests_differ (uc_Secrets c) (game_ID g) 2"
  obtains a where "ready_to_play c w g a" "duel_secret1 a = None" "duel_secret2 a = None" "duel_moves a = []"
    "\<not> duel_cancelled a" "game_Player1ID g \<noteq> game_Player2ID g"
proof -
  let ?h = "uc_Secrets c"
  from stored_game_is_duel [OF inv g(1) differ] obtain a where "stored_duel ?h (w_db w) (game_ID g) a" by blast
  from stored_duel_unique [OF inv this g(1) HOL.refl] have ref: "refines ?h (game_guesses (w_db w) g) g a" .
  have "game_ok g" using inv g(1) by (auto simp: duel_inv_def games_inv_def game_log_ok_def)
  then have "game_Player1ID g \<noteq> game_Player2ID g" using g(2) by (simp add: game_ok_waiting)
  moreover have "duel_secret1 a = None" "duel_secret2 a = None" "duel_moves a = []" "\<not> duel_cancelled a"
    using ref g(2-4) by (auto simp: refines_def duel_started_def duel_status_def dest!: secret_refines_None split: if_splits)
  ultimately show thesis using that inv w g(1) ref by (simp add: ready_to_play_def)
qed

text \<open>With both secrets set and no guess made, the first player's guess of the other's secret wins.\<close>

lemma first_guess_wins:
  assumes w: "ready_to_play c w g a" and a: "duel_secret1 a = Some s1" "duel_secret2 a = Some s2" "duel_moves a = []"
      "\<not> duel_cancelled a"
    and ds: "four_distinct_digits s2" and p: "game_Player1ID g \<noteq> uuid_nil"
    and differ: "digests_differ (uc_Secrets c) (game_ID g) 1" "digests_differ (uc_Secrets c) (game_ID g) 2"
  shows "\<exists>result w'. submitGuessTx c (game_Player1ID g) (game_ID g) s2 auto w = (Inr (result, True), w') \<and>
    (\<exists>g'\<in>set (db_games (w_db w')). game_ID g' = game_ID g \<and> game_Status g' = GameStatusFinished \<and>
       game_WinnerID g' = Some (game_Player1ID g))"
proof -
  let ?h = "uc_Secrets c" and ?p = "game_Player1ID g"
  from w have inv: "duel_inv ?h (w_db w)" and run: "writable w" "fresh_ids w"
    and in_db: "g \<in> set (db_games (w_db w))" and ref: "refines ?h (game_guesses (w_db w) g) g a"
    by (simp_all add: ready_to_play_def)
  have log: "game_log_ok ?h (game_guesses (w_db w) g) g" using inv in_db by (simp add: duel_inv_def games_inv_def)
  have "game_Status g = GameStatusInProgress"
    using ref a by (simp add: refines_def duel_status_def duel_won_def duel_started_def)
  moreover have "turn_player g (game_CurrentTurn g) = ?p" using mover_player [OF ref log] a by (simp add: mover_def)
  ultimately have can: "CanGuess g ?p" "IsParticipant g ?p"
    using log by (simp_all add: game_ok_can_guess game_log_ok_def IsParticipant_def)
  obtain result finished where "fst (submitGuessTx c ?p (game_ID g) s2 auto w) = Inr (result, finished)"
    using submitGuessTx_accepted [OF inv run p in_db can, of s2 auto] ds
    by (auto simp: four_distinct_digits_length)
  then obtain w' where tx: "submitGuessTx c ?p (game_ID g) s2 auto w = (Inr (result, finished), w')"
    by (cases "submitGuessTx c ?p (game_ID g) s2 auto w") simp
  have "stored_duel ?h (w_db w) (game_ID g) a" using in_db ref by (auto simp: stored_duel_def)
  from submitGuessTx_refines [OF inv ds tx this differ] obtain g3 a' where
    a': "duel_guess a (player_slot g3 ?p) s2 = Some (a', gr_DigitResults result)" "finished = duel_won a'" by blast
  from a'(1) a have "a' = a\<lparr>duel_moves := [s2]\<rparr>" by (auto simp: duel_guess_def split: if_splits option.splits)
  with a'(2) a have "finished" by (simp add: duel_won_def target_def)
  with tx have won: "submitGuessTx c ?p (game_ID g) s2 auto w = (Inr (result, True), w')" by simp
  with winning_guess_effect [OF inv won] show ?thesis by blast
qed

lemma duel_played:
  assumes inv: "duel_inv (uc_Secrets c) (w_db w)" and w: "writable w" "fresh_ids w" "hashes_fit (uc_Secrets c) (game_ID g) w"
    and g: "g \<in> set (db_games (w_db w))" "game_Status g = GameStatusWaitingSecret"
      "game_Player1Secret g = ''''" "game_Player2Secret g = ''''" "game_Player1ID g \<noteq> uuid_nil"
    and ds: "four_distinct_digits s1" "four_distinct_digits s2"
    and differ: "digests_differ (uc_Secrets c) (game_ID g) 1" "digests_differ (uc_Secrets c) (game_ID g) 2"
  shows "\<exists>w1 w2 w3 result. setSecretTx c (game_Player1ID g) (game_ID g) s1 w = (Inr False, w1) \<and>
    setSecretTx c (game_Player2ID g) (game_ID g) s2 w1 = (Inr True, w2) \<and>
    submitGuessTx c (game_Player1ID g) (game_ID g) s2 auto w2 = (Inr (result, True), w3) \<and>
    (\<exists>g'\<in>set (db_games (w_db w3)). game_ID g' = game_ID g \<and> game_Status g' = GameStatusFinished \<and>
       game_WinnerID g' = Some (game_Player1ID g))"
proof -
  from waiting_game_is_new [OF inv w g(1-4) differ] obtain a where start: "ready_to_play c w g a"
    and a: "duel_secret1 a = None" "duel_secret2 a = None" "duel_moves a = []" "\<not> duel_cancelled a"
    and two: "game_Player1ID g \<noteq> game_Player2ID g" by blast
  let ?a1 = "a\<lparr>duel_secret1 := Some s1\<rparr>" and ?a2 = "a\<lparr>duel_secret1 := Some s1, duel_secret2 := Some s2\<rparr>"
  have "with_secret a (player_slot g (game_Player1ID g)) s1 = ?a1" "\<not> duel_started ?a1"
    using two a by (simp_all add: with_secret_def player_slot_def duel_started_def)
  moreover have "IsParticipant g (game_Player1ID g)" "ownSecret g (game_Player1ID g) = []"
    using g(3) by (simp_all add: IsParticipant_def ownSecret_def)
  ultimately obtain g1 w1 where tx1: "setSecretTx c (game_Player1ID g) (game_ID g) s1 w = (Inr False, w1)"
    and w1: "ready_to_play c w1 g1 ?a1" and g1: "same_game g g1"
    using secret_played [OF start ds(1) g(2)] by fastforce
  from w1 have "refines (uc_Secrets c) (game_guesses (w_db w1) g1) g1 ?a1" by (simp add: ready_to_play_def)
  then have status1: "game_Status g1 = GameStatusWaitingSecret" and "game_Player2Secret g1 = ''''"
    using a by (auto simp: refines_def duel_status_def duel_won_def duel_started_def dest!: secret_refines_None)
  then have second: "IsParticipant g1 (game_Player2ID g)" "ownSecret g1 (game_Player2ID g) = []"
    using g1 two by (simp_all add: same_game_def IsParticipant_def ownSecret_def)
  have both: "with_secret ?a1 (player_slot g1 (game_Player2ID g)) s2 = ?a2" "game_ID g1 = game_ID g" "duel_started ?a2 = True"
    using g1 by (simp_all add: with_secret_def player_slot_def same_game_def duel_started_def)
  obtain g2 w2 where tx2: "setSecretTx c (game_Player2ID g) (game_ID g) s2 w1 = (Inr True, w2)"
    and w2: "ready_to_play c w2 g2 ?a2" and "same_game g1 g2"
    using secret_played [OF w1 ds(2) status1 second, unfolded both] by (elim exE conjE)
  with g1 have same: "game_ID g2 = game_ID g" "game_Player1ID g2 = game_Player1ID g" by (simp_all add: same_game_def)
  from first_guess_wins [OF w2 _ _ _ _ ds(2), of s1 auto] a g(5) differ tx1 tx2 show ?thesis
    by (simp add: same) blast
qed

end
