(* ===== verification/Server.thy ===== *)
theory Server
  imports Wire
begin

text \<open>
  The running program: requests, the messages of WebSocket connections and the ticks of the workers,
  one after the other in any order, as a step relation; and the contract under which a property of
  the database survives every step. The steps are atomic; how the calls of several requests interleave
  is the matter of \<open>Tasks\<close> and the theories on it.
\<close>

subsection \<open>Steps\<close>

text \<open>
  Beside the world there are the open connections and the automatic logout, which changes its own
  state. A panic outside a request ends the program.
\<close>

record sys =
  sy_world :: world
  sy_conns :: "wsConn list"
  sy_autoLogout :: "AutoLogoutUseCase option"
  sy_up :: bool

definition ran :: "sys \<Rightarrow> (go_error + 'a) \<times> world \<Rightarrow> sys" where
  "ran y r = y\<lparr>sy_world := snd r, sy_up := (fst r \<noteq> Inl Panic)\<rparr>"

definition without :: "nat \<Rightarrow> 'x list \<Rightarrow> 'x list" where
  "without i xs = take i xs @ drop (Suc i) xs"

inductive server_step :: "Server \<Rightarrow> sys \<Rightarrow> sys \<Rightarrow> bool" for s :: Server where
  request: "sy_up y \<Longrightarrow> server_step s y (y\<lparr>sy_world := snd (serve_http (se_Deps s) rq (sy_world y))\<rparr>)"
| connect: "sy_up y \<Longrightarrow> CheckOrigin (hd_Allowed (se_WS s)) origin \<Longrightarrow> k \<notin> wc_conn ` set (sy_conns y) \<Longrightarrow>
    server_step s y (y\<lparr>sy_conns := sy_conns y @ [\<lparr>wc_conn = k, wc_connID = connID, wc_userID = uuid_nil,
      wc_wsLogID = uuid_nil, wc_authCh = False\<rparr>]\<rparr>)"
| message: "sy_up y \<Longrightarrow> i < length (sy_conns y) \<Longrightarrow>
    handleMessage (se_WS s) cookie raw (sy_conns y ! i) (sy_world y) = (Inr c, w) \<Longrightarrow>
    server_step s y (y\<lparr>sy_world := w, sy_conns := (sy_conns y)[i := c]\<rparr>)"
| message_panics: "sy_up y \<Longrightarrow> i < length (sy_conns y) \<Longrightarrow>
    handleMessage (se_WS s) cookie raw (sy_conns y ! i) (sy_world y) = (Inl e, w) \<Longrightarrow>
    server_step s y (y\<lparr>sy_world := conn_Close (wc_conn (sy_conns y ! i)) w, sy_conns := without i (sy_conns y)\<rparr>)"
| disconnect: "sy_up y \<Longrightarrow> i < length (sy_conns y) \<Longrightarrow>
    server_step s y (y\<lparr>sy_world := snd (handleEnd (se_WS s) (sy_conns y ! i) (sy_world y)),
      sy_conns := without i (sy_conns y)\<rparr>)"
| auth_timer: "sy_up y \<Longrightarrow> i < length (sy_conns y) \<Longrightarrow>
    server_step s y (y\<lparr>sy_world := snd (authTimer (sy_conns y ! i) (sy_world y))\<rparr>)"
| turn_worker: "sy_up y \<Longrightarrow> se_TurnWorker s \<Longrightarrow>
    server_step s y (ran y (TurnTimeoutWorker_tick (hd_Game (se_WS s)) (se_Store s) t (sy_world y)))"
| secret_worker: "sy_up y \<Longrightarrow> se_SecretWorker s \<Longrightarrow>
    server_step s y (ran y (SecretSetupTimeoutWorker_tick (hd_Game (se_WS s)) t (sy_world y)))"
| logout_worker: "sy_up y \<Longrightarrow> sy_autoLogout y = Some a \<Longrightarrow>
    AutoLogoutWorker_tick a t (sy_world y) = (r, w) \<Longrightarrow>
    server_step s y ((ran y (r, w))\<lparr>sy_autoLogout := Some (case r of Inr a' \<Rightarrow> a' | Inl _ \<Rightarrow> a)\<rparr>)"
| backup_worker: "sy_up y \<Longrightarrow> se_Backup s = Some b \<Longrightarrow>
    server_step s y (ran y (RunSync (se_Mergers s) b (sy_world y)))"
| ranking_worker: "sy_up y \<Longrightarrow> se_Ranking s = Some r \<Longrightarrow>
    server_step s y (ran y (RankingRebuildWorker_job r (sy_world y)))"
| retention_worker: "sy_up y \<Longrightarrow> se_Retention s = Some l \<Longrightarrow> Retention_Run dn l (sy_world y) = Some w \<Longrightarrow>
    server_step s y (y\<lparr>sy_world := w\<rparr>)"
| cleanup_worker: "sy_up y \<Longrightarrow> se_TokenCleanup s \<Longrightarrow>
    server_step s y (ran y (CleanupExpiredRefreshTokens (dp_Auth (se_Deps s)) (sy_world y)))"

inductive_cases server_stepE: "server_step s y y'"

definition booted :: "Server \<Rightarrow> world \<Rightarrow> sys" where
  "booted s w = ran \<lparr>sy_world = w, sy_conns = [], sy_autoLogout = se_AutoLogout s, sy_up = True\<rparr>
     (main_start s w)"

inductive reachable :: "Server \<Rightarrow> world \<Rightarrow> sys \<Rightarrow> bool" for s w where
  start: "reachable s w (booted s w)"
| step: "reachable s w y \<Longrightarrow> server_step s y y' \<Longrightarrow> reachable s w y'"

subsection \<open>Requests\<close>

lemma keeps_reply [keeps_intros]: "keeps I (reply c r)"
  unfolding reply_def by (intro keeps_intros)

lemma keeps_answer: "keeps I m \<Longrightarrow> keeps I (answer c m f)"
  unfolding answer_def by (intro keeps_intros)

lemma keeps_withAuth: "(\<And>auth. keeps I (k auth)) \<Longrightarrow> keeps I (withAuth c k)"
  unfolding withAuth_def by (intro keeps_intros)

lemma keeps_checkToken [keeps_intros]: "keeps (\<lambda>w. I (w_db w)) (checkToken cfg tok)"
  unfolding checkToken_def by (intro keeps_intros)

lemma keeps_ask [keeps_intros]:
  "keeps (\<lambda>w. I (w_db w)) (askPublic k l d)" "keeps (\<lambda>w. I (w_db w)) (askUser k l d)"
  unfolding askPublic_def askUser_def
  by (intro keeps_intros; auto simp: keeps_def split: prod.split)+

lemma keeps_RecoverMiddleware:
  "keeps I (k c) \<Longrightarrow> keeps I (RecoverMiddleware k c)"
  by (auto simp: keeps_def RecoverMiddleware_def split: prod.split sum.split)

lemma keeps_find_route:
  "find_route m p rs = Some k \<Longrightarrow> \<forall>(m, p, k)\<in>set rs. \<forall>c. keeps I (k c) \<Longrightarrow> keeps I (k c)"
  by (induction rs) (auto split: if_splits)

lemma keeps_ping: "keeps (\<lambda>w. I (w_db w)) (io (ret ()))"
  by (simp add: keeps_def io_def ret_def Let_def)

lemma keeps_logFilters [keeps_intros]: "keeps I (logFilters h rq)"
  unfolding logFilters_def by (intro keeps_intros)

lemma keeps_mapped_games [keeps_intros]: "keeps (\<lambda>w. I (w_db w)) (GetGameState c u g)"
  unfolding GetGameState_def by (intro keeps_intros)

subsection \<open>The contract\<close>

text \<open>
  A property of the database that every use case preserves, in terms of the contracts of the
  components, is preserved by every step of the program.
\<close>

locale server_contract =
  ws: ws_contract c I + games: game_transactions c I + matching: matching_transactions I +
  admin: admin_contract I
  for c :: GameUseCase and I :: "db \<Rightarrow> bool" +
  assumes active_closed: "I d \<Longrightarrow> I (d\<lparr>db_users := update_rows (\<lambda>u. user_ID u = i \<and> user_DeletedAt u = None)
      (\<lambda>u. touched u t) (db_users d)\<rparr>)"
begin

lemma keeps_touch: "keeps (\<lambda>w. I (w_db w)) (userRepo_TouchLastActivity i t)"
  unfolding userRepo_TouchLastActivity_def
  by (rule keeps_dbExec) (use active_closed in \<open>auto simp: touched_def\<close>)

lemma keeps_request_log: "keeps (\<lambda>w. I (w_db w)) (activityLogRepo_Create l)"
  unfolding activityLogRepo_Create_def
  by (rule keeps_dbExec) (auto intro: admin.actlog_closed split: option.splits)

lemma keeps_delete_logs:
  "keeps (\<lambda>w. I (w_db w)) (activityLogRepo_DeleteOlderThan t n)"
  "keeps (\<lambda>w. I (w_db w)) (loginLogRepo_DeleteOlderThan t n)"
  "keeps (\<lambda>w. I (w_db w)) (wsConnectionLogRepo_DeleteOlderThan t n)"
  unfolding activityLogRepo_DeleteOlderThan_def loginLogRepo_DeleteOlderThan_def
    wsConnectionLogRepo_DeleteOlderThan_def Let_def
  by (rule keeps_dbExec;
      auto intro: admin.actlog_closed ws.logins_closed ws.wslogs_closed)+

lemma keeps_public_handlers:
  "keeps (\<lambda>w. I (w_db w)) (ctl_Register h cx)" "keeps (\<lambda>w. I (w_db w)) (ctl_Login h cx)"
  "keeps (\<lambda>w. I (w_db w)) (ctl_Refresh h cx)"
  unfolding ctl_Register_def ctl_Login_def ctl_Refresh_def
  by (intro keeps_intros keeps_answer ws.keeps_Register ws.keeps_Login ws.keeps_Refresh)+

lemma keeps_user_handlers:
  "keeps (\<lambda>w. I (w_db w)) (ctl_Logout h cx)" "keeps (\<lambda>w. I (w_db w)) (ctl_Me cx)"
  "keeps (\<lambda>w. I (w_db w)) (ctl_GetProfile cx)" "keeps (\<lambda>w. I (w_db w)) (ctl_MatchHistory cx)"
  "keeps (\<lambda>w. I (w_db w)) (ctl_LoginHistory cx)" "keeps (\<lambda>w. I (w_db w)) (ctl_WSHistory cx)"
  "keeps (\<lambda>w. I (w_db w)) (ctl_StartMatching h cx)" "keeps (\<lambda>w. I (w_db w)) (ctl_CancelMatching cx)"
  "keeps (\<lambda>w. I (w_db w)) (ctl_MatchingStatus cx)" "keeps (\<lambda>w. I (w_db w)) (ctl_GetGame h cx)"
  "keeps (\<lambda>w. I (w_db w)) (ctl_Ranking cx)"
  unfolding ctl_Logout_def ctl_Me_def ctl_GetProfile_def ctl_MatchHistory_def ctl_LoginHistory_def
    ctl_WSHistory_def ctl_StartMatching_def ctl_CancelMatching_def ctl_MatchingStatus_def ctl_GetGame_def
    ctl_Ranking_def GetMe_def GetRanking_def Let_def
  by (intro keeps_intros keeps_answer keeps_withAuth ws.keeps_Logout matching.keeps_StartMatching
      matching.keeps_CancelMatching matching.keeps_MatchingStatus)+

lemma keeps_admin_handlers:
  "keeps (\<lambda>w. I (w_db w)) (ctl_ListUsers cx)" "keeps (\<lambda>w. I (w_db w)) (ctl_SearchUsers h cx)"
  "keeps (\<lambda>w. I (w_db w)) (ctl_DeleteUser h cx)" "keeps (\<lambda>w. I (w_db w)) (ctl_RebuildRanking h cx)"
  "keeps (\<lambda>w. I (w_db w)) (ctl_ListLogTypes cx)" "keeps (\<lambda>w. I (w_db w)) (ctl_SearchLogs h cx)"
  "keeps (\<lambda>w. I (w_db w)) (ctl_DownloadLogs h cx)" "keeps (\<lambda>w. I (w_db w)) (ctl_BackupStatus h cx)"
  unfolding ctl_ListUsers_def ctl_SearchUsers_def ctl_DeleteUser_def ctl_RebuildRanking_def ctl_ListLogTypes_def
    ctl_SearchLogs_def ctl_DownloadLogs_def ctl_BackupStatus_def Let_def
  by (intro keeps_intros keeps_answer keeps_withAuth admin.keeps_AdminDeleteUser admin.keeps_AdminRebuildRanking)+

lemma keeps_groups:
  assumes "\<And>cx. keeps (\<lambda>w. I (w_db w)) (k cx)"
  shows "keeps (\<lambda>w. I (w_db w)) (api k cx)" "keeps (\<lambda>w. I (w_db w)) (protected h k cx)"
    "keeps (\<lambda>w. I (w_db w)) (adminGroup h k cx)"
proof -
  have api: "keeps (\<lambda>w. I (w_db w)) (api k cx)" if "\<And>cx. keeps (\<lambda>w. I (w_db w)) (k cx)" for k cx
    unfolding api_def RateLimitPublic_def by (intro keeps_intros that)
  have protected: "keeps (\<lambda>w. I (w_db w)) (protected h k cx)" if "\<And>cx. keeps (\<lambda>w. I (w_db w)) (k cx)" for k cx
    unfolding protected_def
  proof (rule api)
    fix cx
    have "keeps (\<lambda>w. I (w_db w)) (ActivityUpdate (dp_Users h) k cx)" for cx
      unfolding ActivityUpdate_def by (intro keeps_intros that keeps_touch)
    then show "keeps (\<lambda>w. I (w_db w)) (AuthMiddleware (dp_AuthMW h) (UserRateLimit (dp_ustr h)
        (ActivityUpdate (dp_Users h) k)) cx)"
      unfolding AuthMiddleware_def UserRateLimit_def by (intro keeps_intros)
  qed
  have "keeps (\<lambda>w. I (w_db w)) (AdminMiddleware k cx)" for cx
    unfolding AdminMiddleware_def by (intro keeps_intros assms)
  then show "keeps (\<lambda>w. I (w_db w)) (adminGroup h k cx)" unfolding adminGroup_def by (rule protected)
  show "keeps (\<lambda>w. I (w_db w)) (api k cx)" by (rule api [OF assms])
  show "keeps (\<lambda>w. I (w_db w)) (protected h k cx)" by (rule protected [OF assms])
qed

lemma keeps_route: "keeps (\<lambda>w. I (w_db w)) (route h cx)"
proof -
  have "\<forall>(m, p, k)\<in>set ((''GET'', ''/health'', ctl_Health) # routes h). \<forall>cx. keeps (\<lambda>w. I (w_db w)) (k cx)"
    unfolding routes_def public_routes_def user_routes_def admin_routes_def ctl_Health_def
    by (auto intro!: keeps_groups keeps_public_handlers keeps_user_handlers keeps_admin_handlers keeps_intros
        keeps_ping)
  note all = keeps_find_route [OF _ this]
  show ?thesis
    unfolding route_def Let_def ctl_NotFound_def
    by (auto intro: keeps_intros all split: option.split)
qed

lemma keeps_serve_http: "keeps (\<lambda>w. I (w_db w)) (serve_http h rq)"
  unfolding serve_http_def
  by (intro keeps_andThen keeps_RecoverMiddleware)
    (auto simp: RequestLog_def Let_def intro!: keeps_intros keeps_route keeps_request_log)

lemma step_keeps:
  assumes step: "server_step s y y'" and c: "hd_Game (se_WS s) = c" and I: "I (w_db (sy_world y))"
  shows "I (w_db (sy_world y'))"
  using step
proof (cases rule: server_step.cases)
  case (request rq)
  then show ?thesis using keepsD [OF keeps_serve_http, of "sy_world y"] I by simp
next
  case (message i cookie raw cn w)
  then show ?thesis using keepsD [OF ws.keeps_handleMessage [OF c], of "sy_world y" cookie raw "sy_conns y ! i"] I by simp
next
  case (message_panics i cookie raw e w)
  then show ?thesis using keepsD [OF ws.keeps_handleMessage [OF c], of "sy_world y" cookie raw "sy_conns y ! i"] I
    by (simp add: conn_Close_def)
next
  case (disconnect i)
  then show ?thesis using keepsD [OF ws.keeps_handleEnd, of "sy_world y"] I by simp
next
  case (auth_timer i)
  then show ?thesis using keepsD [OF keeps_connection(1), of I "sy_world y"] I by simp
next
  case (turn_worker t)
  then show ?thesis using keepsD [OF games.keeps_TurnTimeoutWorker, of "sy_world y"] I by (simp add: ran_def c)
next
  case (secret_worker t)
  then show ?thesis using keepsD [OF games.keeps_SecretSetupTimeoutWorker, of "sy_world y"] I by (simp add: ran_def c)
next
  case (logout_worker a t r w)
  have "keeps (\<lambda>w. I (w_db w)) (AutoLogoutWorker_tick a t)"
    unfolding AutoLogoutWorker_tick_def Let_def by (intro keeps_intros ws.keeps_AutoLogout_Run)
  from keepsD [OF this, of "sy_world y"] I logout_worker show ?thesis by (simp add: ran_def)
next
  case (backup_worker b)
  then show ?thesis using keepsD [OF keeps_RunSync, of I "sy_world y"] I by (simp add: ran_def)
next
  case (ranking_worker r)
  then show ?thesis using keepsD [OF admin.keeps_RunScheduledRebuild, of "sy_world y"] I by (simp add: ran_def)
next
  case (retention_worker l dn w)
  then show ?thesis using Retention_Run_keeps [OF keeps_delete_logs] I by simp
next
  case cleanup_worker
  then show ?thesis using keepsD [OF ws.keeps_Cleanup, of "sy_world y"] I by (simp add: ran_def)
qed (use I in simp_all)

lemma reachable_keeps:
  assumes "reachable s w y" "hd_Game (se_WS s) = c" "I (w_db w)"
  shows "I (w_db (sy_world y))"
  using assms
proof (induction rule: reachable.induct)
  case start
  have "keeps (\<lambda>w. I (w_db w)) (main_start s)"
    unfolding main_start_def using start(1)
    by (intro keeps_intros ws.keeps_SeedMaster) (simp add: games.keeps_RecoverActiveGames)
  from keepsD [OF this, of w] start(2) show ?case by (simp add: booted_def ran_def)
next
  case (step y y')
  then show ?case using step_keeps by blast
qed

end

end
