(* ===== verification/Invariants.thy ===== *)
theory Invariants
  imports Server
begin

text \<open>
  The invariant of the database of the running program: stored games are legal duels, accounts stay
  apart, at most one player waits, and whoever has an active game can play. It fulfils the contract
  of the server, so it holds in every reachable state.
\<close>

subsection \<open>Active players\<close>

definition playable :: "db \<Rightarrow> uuid \<Rightarrow> bool" where
  "playable d p \<longleftrightarrow> (\<exists>u\<in>set (db_users d). user_ID u = p \<and> CanMatch u)"

definition active_player :: "db \<Rightarrow> uuid \<Rightarrow> bool" where
  "active_player d p \<longleftrightarrow> (\<exists>g\<in>set (db_games d). active_status (game_Status g) \<and> IsParticipant g p)"

definition players_can_play :: "db \<Rightarrow> bool" where
  "players_can_play d \<longleftrightarrow> (\<forall>p. active_player d p \<longrightarrow> playable d p)"

lemma players_can_play_mono:
  "players_can_play d \<Longrightarrow> (\<And>p. active_player d' p \<Longrightarrow> active_player d p \<or> playable d' p) \<Longrightarrow>
   (\<And>p. active_player d p \<Longrightarrow> playable d p \<Longrightarrow> playable d' p) \<Longrightarrow> players_can_play d'"
  unfolding players_can_play_def by blast

lemma active_player_frame [simp]:
  "active_player (d\<lparr>db_users := us\<rparr>) p = active_player d p"
  "active_player (d\<lparr>db_tokens := ts\<rparr>) p = active_player d p"
  "active_player (d\<lparr>db_queue := q\<rparr>) p = active_player d p"
  "active_player (d\<lparr>db_histories := hs\<rparr>) p = active_player d p"
  "active_player (d\<lparr>db_guesses := gs\<rparr>) p = active_player d p"
  by (simp_all add: active_player_def)

lemma playable_frame [simp]:
  "playable (d\<lparr>db_games := gm\<rparr>) p = playable d p" "playable (d\<lparr>db_tokens := ts\<rparr>) p = playable d p"
  "playable (d\<lparr>db_queue := q\<rparr>) p = playable d p" "playable (d\<lparr>db_histories := hs\<rparr>) p = playable d p"
  "playable (d\<lparr>db_guesses := gs\<rparr>) p = playable d p"
  by (simp_all add: playable_def)

lemma players_can_play_frame [simp]:
  "players_can_play (d\<lparr>db_queue := q\<rparr>) = players_can_play d"
  "players_can_play (d\<lparr>db_rankings := rk\<rparr>) = players_can_play d"
  "players_can_play (d\<lparr>db_tokens := tk\<rparr>) = players_can_play d"
  "players_can_play (d\<lparr>db_actlogs := al\<rparr>) = players_can_play d"
  "players_can_play (d\<lparr>db_loginlogs := ll\<rparr>) = players_can_play d"
  "players_can_play (d\<lparr>db_wslogs := wl\<rparr>) = players_can_play d"
  "players_can_play (d\<lparr>db_guesses := gl\<rparr>) = players_can_play d"
  "players_can_play (d\<lparr>db_histories := hl\<rparr>) = players_can_play d"
  by (simp_all add: players_can_play_def active_player_def playable_def)

lemma playable_save_user:
  assumes "distinct (map user_ID (db_users d))" "u \<in> set (db_users d)" "user_ID u' = user_ID u"
    and "CanMatch u \<Longrightarrow> CanMatch u' \<or> user_ID u \<noteq> p" "playable d p"
  shows "playable (d\<lparr>db_users := save_row user_ID u' (db_users d)\<rparr>) p"
proof -
  obtain v where v: "v \<in> set (db_users d)" "user_ID v = p" "CanMatch v" using assms(5) by (auto simp: playable_def)
  show ?thesis
  proof (cases "user_ID v = user_ID u")
    case True
    with v(1) assms(1,2) have "v = u" by (auto dest: distinct_key_eq)
    with v assms(3,4) show ?thesis by (auto simp: playable_def set_save_row [OF assms(1)])
  next
    case False
    with v assms(3) show ?thesis by (auto simp: playable_def set_save_row [OF assms(1)])
  qed
qed

lemma CanMatch_simps [simp]:
  "CanMatch (touched u t) = CanMatch u"
  "CanMatch (u\<lparr>user_WinCount := n, user_UpdatedAt := t\<rparr>) = CanMatch u"
  by (simp_all add: CanMatch_def IsDeleted_def IsMaster_def)

lemma players_can_play_save_user:
  assumes "players_can_play d" "distinct (map user_ID (db_users d))" "u \<in> set (db_users d)"
    and "user_ID u' = user_ID u" "CanMatch u \<Longrightarrow> CanMatch u' \<or> \<not> active_player d (user_ID u)"
  shows "players_can_play (d\<lparr>db_users := save_row user_ID u' (db_users d)\<rparr>)"
proof (rule players_can_play_mono [OF assms(1)])
  show "playable (d\<lparr>db_users := save_row user_ID u' (db_users d)\<rparr>) p" if "active_player d p" "playable d p" for p
    by (rule playable_save_user [OF assms(2-4)]) (use assms(5) that in auto)
qed simp

text \<open>Saving a game makes no player active who was not.\<close>

lemma active_player_save_game:
  assumes "distinct (map game_ID (db_games d))" "g \<in> set (db_games d)" "same_game g g'"
    and "active_status (game_Status g') \<Longrightarrow> active_status (game_Status g)"
    and "active_player (d\<lparr>db_games := save_row game_ID g' (db_games d)\<rparr>) p"
  shows "active_player d p"
proof -
  have "set (save_row game_ID g' (db_games d)) = insert g' {x \<in> set (db_games d). game_ID x \<noteq> game_ID g'}"
    by (rule set_save_row [OF assms(1)])
  with assms show ?thesis by (auto simp: active_player_def same_game_def IsParticipant_def)
qed

lemma players_can_play_save_game:
  assumes "players_can_play d" "distinct (map game_ID (db_games d))" "g \<in> set (db_games d)" "same_game g g'"
    and "active_status (game_Status g') \<Longrightarrow> active_status (game_Status g)"
  shows "players_can_play (d\<lparr>db_games := save_row game_ID g' (db_games d)\<rparr>)"
  by (rule players_can_play_mono [OF assms(1)])
    (use active_player_save_game [OF assms(2-5)] in auto)

subsection \<open>The invariant\<close>

definition server_inv :: "hasher \<Rightarrow> db \<Rightarrow> bool" where
  "server_inv h d \<longleftrightarrow> duel_inv h d \<and> accounts_inv d \<and> queue_inv d \<and> players_can_play d"

lemma accounts_inv_frame [simp]:
  "accounts_inv (d\<lparr>db_games := gm\<rparr>) = accounts_inv d" "accounts_inv (d\<lparr>db_guesses := gs\<rparr>) = accounts_inv d"
  "accounts_inv (d\<lparr>db_histories := hs\<rparr>) = accounts_inv d" "accounts_inv (d\<lparr>db_queue := q\<rparr>) = accounts_inv d"
  "accounts_inv (d\<lparr>db_tokens := ts\<rparr>) = accounts_inv d" "accounts_inv (d\<lparr>db_actlogs := al\<rparr>) = accounts_inv d"
  "accounts_inv (d\<lparr>db_loginlogs := ll\<rparr>) = accounts_inv d" "accounts_inv (d\<lparr>db_wslogs := wl\<rparr>) = accounts_inv d"
  "accounts_inv (d\<lparr>db_rankings := rk\<rparr>) = accounts_inv d"
  by (simp_all add: accounts_inv_def)

lemma queue_inv_frame [simp]:
  "queue_inv (d\<lparr>db_games := gm\<rparr>) = queue_inv d" "queue_inv (d\<lparr>db_guesses := gs\<rparr>) = queue_inv d"
  "queue_inv (d\<lparr>db_histories := hs\<rparr>) = queue_inv d" "queue_inv (d\<lparr>db_users := us\<rparr>) = queue_inv d"
  "queue_inv (d\<lparr>db_tokens := ts\<rparr>) = queue_inv d" "queue_inv (d\<lparr>db_actlogs := al\<rparr>) = queue_inv d"
  "queue_inv (d\<lparr>db_loginlogs := ll\<rparr>) = queue_inv d" "queue_inv (d\<lparr>db_wslogs := wl\<rparr>) = queue_inv d"
  "queue_inv (d\<lparr>db_rankings := rk\<rparr>) = queue_inv d"
  by (simp_all add: queue_inv_def)

lemma server_inv_parts:
  assumes "server_inv h d"
  shows "duel_inv h d" "accounts_inv d" "queue_inv d" "players_can_play d"
    "distinct (map game_ID (db_games d))" "distinct (map user_ID (db_users d))"
  using assms by (simp_all add: server_inv_def duel_inv_def games_inv_def accounts_inv_def)

lemma server_inv_setSecretTx:
  assumes inv: "server_inv (uc_Secrets c) (w_db w)" and ds: "four_distinct_digits ds"
    and run: "setSecretTx c u gid ds w = (Inr started, w')"
  shows "server_inv (uc_Secrets c) (w_db w')"
proof -
  note p = server_inv_parts [OF inv]
  have duel: "duel_inv (uc_Secrets c) (w_db w')" by (rule duel_inv_setSecretTx [OF p(1) ds run])
  from run show ?thesis
  proof (cases rule: setSecretTx_success)
    case (1 g g')
    have "game_Status g = GameStatusWaitingSecret" using 1(4) by (simp add: secret_step_def)
    then have "players_can_play (w_db w')"
      unfolding 1(5) by (intro players_can_play_save_game [OF p(4,5) 1(2) secret_step_same [OF 1(4)]]) simp
    with duel p(2,3) show ?thesis by (simp add: server_inv_def 1(5))
  qed
qed

text \<open>Finishing a game with a winner: the winner's count and the game are saved, so nobody leaves.\<close>

lemma server_inv_won:
  assumes inv: "server_inv h d" and duel: "duel_inv h (w_db w')"
    and g: "g \<in> set (db_games d)" "same_game g g1" "game_Status g = GameStatusInProgress"
    and w1: "w_db w1 = d\<lparr>db_guesses := rows\<rparr>" and fin: "finishGameService g1 u t w1 = (Inr g', w')"
  shows "server_inv h (w_db w')"
proof -
  note p = server_inv_parts [OF inv]
  have "\<forall>p. IsParticipant g1 p \<longrightarrow> p \<in> user_ID ` set (db_users (w_db w1))"
    using p(1) g(1,2) by (auto simp: w1 duel_inv_def players_inv_def IsParticipant_def same_game_def)
  with fin show ?thesis
  proof (cases rule: finishGameService_success)
    case (1 x y hist)
    let ?x = "x\<lparr>user_WinCount := user_WinCount x + 1, user_UpdatedAt := t\<rparr>"
    have same: "same_game g g'" using 1(4) g(2) by (auto simp: finishGame_Inr same_game_def)
    have x: "x \<in> set (db_users d)" using 1(2) by (simp add: w1)
    let ?e = "d\<lparr>db_users := save_row user_ID ?x (db_users d)\<rparr>"
    have "players_can_play ?e"
      by (rule players_can_play_save_user [OF p(4,6) x]) simp_all
    then have "players_can_play (?e\<lparr>db_games := save_row game_ID g' (db_games ?e)\<rparr>)"
      by (rule players_can_play_save_game [where g = g]) (use p(5) g(1,3) same in simp_all)
    then have "players_can_play (w_db w')"
      by (simp add: 1(11) w1 players_can_play_def active_player_def playable_def)
    moreover have "accounts_inv ?e" by (rule accounts_inv_save [OF p(2) x]) simp_all
    then have "accounts_inv (w_db w')" by (simp add: 1(11) w1 accounts_inv_def)
    moreover have "queue_inv (w_db w')" using p(3) by (simp add: 1(11) w1)
    ultimately show ?thesis using duel by (simp add: server_inv_def)
  qed
qed

lemma server_inv_submitGuessTx:
  assumes inv: "server_inv (uc_Secrets c) (w_db w)" and ds: "four_distinct_digits ds"
    and run: "submitGuessTx c u gid ds isAuto w = (Inr res, w')"
  shows "server_inv (uc_Secrets c) (w_db w')"
proof -
  note p = server_inv_parts [OF inv]
  obtain result finished where res: "res = (result, finished)" by (cases res)
  have duel: "duel_inv (uc_Secrets c) (w_db w')"
    by (rule duel_inv_submitGuessTx [OF p(1) ds run [unfolded res]])
  from run [unfolded res] show ?thesis
  proof (cases rule: submitGuessTx_success)
    case (1 g row g1 t)
    let ?d = "w_db w"
    from p(1) 1(2) have "game_ok g" by (auto simp: duel_inv_def games_inv_def game_log_ok_def)
    note f = guess_step_facts [OF 1(4) this]
    show ?thesis
    proof (cases finished)
      case False
      with 1(10) have db: "w_db w' = ?d\<lparr>db_guesses := db_guesses ?d @ [row],
          db_games := save_row game_ID g1 (db_games ?d)\<rparr>" by simp
      have "players_can_play (?d\<lparr>db_games := save_row game_ID g1 (db_games ?d)\<rparr>)"
        by (rule players_can_play_save_game [OF p(4,5) 1(2) f(6)]) (simp add: f(1))
      then have "players_can_play (w_db w')"
        by (simp add: db players_can_play_def active_player_def playable_def)
      with duel p(2,3) show ?thesis by (simp add: server_inv_def db)
    next
      case True
      with 1(10) obtain g' w1 where "finishGameService g1 u t w1 = (Inr g', w')"
        and "w_db w1 = ?d\<lparr>db_guesses := db_guesses ?d @ [row]\<rparr>" by auto
      with server_inv_won [OF inv duel 1(2) f(6,1)] show ?thesis by blast
    qed
  qed
qed

lemma server_inv_cancelTx:
  assumes inv: "server_inv h (w_db w)" and run: "cancelTx c gid t w = (Inr res, w')"
  shows "server_inv h (w_db w')"
proof -
  note p = server_inv_parts [OF inv]
  have duel: "duel_inv h (w_db w')" by (rule duel_inv_cancelTx [OF p(1) run])
  from run have "w_db w' = w_db w \<or> (\<exists>g g'. g \<in> set (db_games (w_db w)) \<and> cancelGameBySecretTimeout g t = Inr g' \<and>
      w_db w' = (w_db w)\<lparr>db_games := save_row game_ID g' (db_games (w_db w))\<rparr>)"
    by (auto simp: cancelTx_def Let_def success_iff find_defs cancelGame_Inr cancelGameBySecretTimeout_def
        split: option.splits if_splits dest: first_row_Some)
  then show ?thesis
  proof (elim disjE exE conjE)
    fix g g'
    assume g: "g \<in> set (db_games (w_db w))" and g': "cancelGameBySecretTimeout g t = Inr g'"
      and db: "w_db w' = (w_db w)\<lparr>db_games := save_row game_ID g' (db_games (w_db w))\<rparr>"
    have "players_can_play (w_db w')"
      unfolding db by (rule players_can_play_save_game [OF p(4,5) g same_game_rules(5) [OF g']])
        (use g' in \<open>simp add: cancelGame_Inr\<close>)
    with duel p(2,3) show ?thesis by (simp add: server_inv_def db)
  qed (simp add: inv)
qed

lemma server_inv_startMatchingTx:
  assumes inv: "server_inv h (w_db w)" and run: "startMatchingTx u t w = (Inr res, w')"
  shows "server_inv h (w_db w')"
proof -
  note p = server_inv_parts [OF inv]
  have duel: "duel_inv h (w_db w')" by (rule duel_inv_startMatchingTx [OF p(1) run])
  have queue: "queue_inv (w_db w')" by (rule queue_inv_startMatchingTx [OF p(3) run])
  have ready: "playable d p" if "player_ready d p" for d p
    using that by (auto simp: player_ready_def playable_def split: option.splits dest: first_row_Some)
  from run have "accounts_inv (w_db w') \<and> players_can_play (w_db w')"
  proof (cases rule: startMatchingTx_success)
    case (1 e i t')
    let ?d = "(w_db w)\<lparr>db_queue := db_queue (w_db w) @ [e]\<rparr>"
    from 1(5) show ?thesis
    proof (cases rule: match_step_cases)
      case (3 p1 p2 more)
      let ?g = "new_game i (entry_UserID p1) (entry_UserID p2) t'"
      have "players_can_play (?d\<lparr>db_games := db_games ?d @ [?g]\<rparr>)"
      proof (rule players_can_play_mono [of ?d])
        show "players_can_play ?d" using p(4) by simp
        show "active_player ?d p \<or> playable (?d\<lparr>db_games := db_games ?d @ [?g]\<rparr>) p"
          if "active_player (?d\<lparr>db_games := db_games ?d @ [?g]\<rparr>) p" for p
          using that ready [OF 3(3)] ready [OF 3(4)]
          by (auto simp: active_player_def IsParticipant_def playable_def)
      qed simp
      then have "players_can_play (w_db w')"
        by (simp add: 3(7) players_can_play_def active_player_def playable_def)
      then show ?thesis using p(2) by (simp add: 3(7))
    qed (use p in simp_all)
  qed
  with duel queue show ?thesis by (simp add: server_inv_def)
qed

text \<open>Every user's row rewritten, the identity, names and eligibility kept.\<close>

lemma map_update_rows:
  "(\<And>r. f (g r) = f r) \<Longrightarrow> map f (update_rows P g t) = map f t"
  by (induction t) (auto simp: update_rows_def)

lemma keys_touch_rows:
  "(\<And>u. f (touched u t) = f u) \<Longrightarrow> map f (update_rows P (\<lambda>u. touched u t) us) = map f us"
  by (rule map_update_rows)

lemma accounts_inv_touch_rows:
  "accounts_inv d \<Longrightarrow> accounts_inv (d\<lparr>db_users := update_rows P (\<lambda>u. touched u t) (db_users d)\<rparr>)"
  by (simp add: accounts_inv_def keys_touch_rows)

lemma duels_inv_touch_rows:
  assumes "duels_inv R h d"
  shows "duels_inv R h (d\<lparr>db_users := update_rows P (\<lambda>u. touched u t) (db_users d)\<rparr>)" (is "duels_inv R h ?d")
proof -
  have keys: "map user_ID (db_users ?d) = map user_ID (db_users d)" by (simp add: keys_touch_rows)
  have "user_ID ` set (db_users ?d) = user_ID ` set (db_users d)"
    using arg_cong [OF keys, of set] by (simp only: set_map)
  then have "players_inv ?d" using assms keys by (simp only: duels_inv_def players_inv_def) simp
  moreover have "wins_upto R ?d"
    using assms by (auto simp: duels_inv_def wins_upto_def update_rows_def)
  ultimately show ?thesis using assms by (simp add: duels_inv_def)
qed

lemma server_inv_touch_rows:
  assumes "server_inv h d"
  shows "server_inv h (d\<lparr>db_users := update_rows P (\<lambda>u. touched u t) (db_users d)\<rparr>)" (is "server_inv h ?d")
proof -
  note p = server_inv_parts [OF assms]
  have "players_can_play ?d"
  proof (rule players_can_play_mono [OF p(4)])
    show "playable ?d q" if play: "playable d q" for q
    proof -
      obtain u where u: "u \<in> set (db_users d)" "user_ID u = q" "CanMatch u"
        using play by (auto simp: playable_def)
      let ?u = "if P u then touched u t else u"
      have "?u \<in> set (db_users ?d)" using u(1) by (auto simp: update_rows_def)
      moreover have "user_ID ?u = q" "CanMatch ?u" using u by simp_all
      ultimately show ?thesis unfolding playable_def by blast
    qed
  qed simp
  moreover have "duel_inv h ?d" using duels_inv_touch_rows p(1) unfolding duel_inv_eq .
  ultimately show ?thesis using p(3) accounts_inv_touch_rows [OF p(2)] by (simp add: server_inv_def)
qed

subsection \<open>The contract of the server is fulfilled\<close>

lemma server_inv_frame [simp]:
  "server_inv h (d\<lparr>db_rankings := rk\<rparr>) = server_inv h d" "server_inv h (d\<lparr>db_tokens := tk\<rparr>) = server_inv h d"
  "server_inv h (d\<lparr>db_actlogs := al\<rparr>) = server_inv h d" "server_inv h (d\<lparr>db_loginlogs := ll\<rparr>) = server_inv h d"
  "server_inv h (d\<lparr>db_wslogs := wl\<rparr>) = server_inv h d"
  by (simp_all add: server_inv_def)

lemma server_inv_touch:
  assumes "server_inv h d" "u \<in> set (db_users d)"
  shows "server_inv h (d\<lparr>db_users := save_row user_ID (touched u t) (db_users d)\<rparr>)"
proof -
  note p = server_inv_parts [OF assms(1)]
  have "players_can_play (d\<lparr>db_users := save_row user_ID (touched u t) (db_users d)\<rparr>)"
    by (rule players_can_play_save_user [OF p(4,6) assms(2)]) simp_all
  then show ?thesis
    using p account_duels.touch_closed [OF p(1) assms(2), of t] account_names.touch_closed [OF p(2) assms(2), of t]
    by (simp add: server_inv_def)
qed

lemma server_inv_create:
  assumes "server_inv h d" "\<forall>x\<in>set (db_users d). \<not> user_conflict x (new_user i n e p r t)"
  shows "server_inv h (d\<lparr>db_users := db_users d @ [new_user i n e p r t]\<rparr>)"
proof -
  note q = server_inv_parts [OF assms(1)]
  have "players_can_play (d\<lparr>db_users := db_users d @ [new_user i n e p r t]\<rparr>)"
    by (rule players_can_play_mono [OF q(4)]) (auto simp: playable_def)
  then show ?thesis
    using q account_duels.create_closed [OF q(1) assms(2)] account_names.create_closed [OF q(2) assms(2)]
    by (simp add: server_inv_def)
qed

lemma server_inv_delete:
  assumes "server_inv h d" "deletable d i u"
  shows "server_inv h (deleted_db adm i u t d)"
proof -
  note p = server_inv_parts [OF assms(1)]
  have u: "u \<in> set (db_users d)" "user_ID u = i" using deletable_row [OF assms(2)] by simp_all
  have "players_can_play (d\<lparr>db_users := save_row user_ID (deleted_user u adm t) (db_users d)\<rparr>)"
    by (rule players_can_play_save_user [OF p(4,6) u(1)])
      (use assms(2) u(2) in \<open>auto simp: deletable_def active_player_def\<close>)
  then have "players_can_play (deleted_db adm i u t d)"
    by (simp add: deleted_db_def players_can_play_def active_player_def playable_def)
  then show ?thesis
    using p admin_duels.delete_closed [OF p(1) assms(2)] admin_names.delete_closed [OF p(2) assms(2)]
      admin_queue.delete_closed [OF p(3) assms(2)]
    by (simp add: server_inv_def)
qed

interpretation server: server_contract c "server_inv (uc_Secrets c)" for c
proof unfold_locales
  show "server_inv (uc_Secrets c) (d\<lparr>db_queue := delete_rows (\<lambda>e. entry_UserID e = u) (db_queue d)\<rparr>)"
    if "server_inv (uc_Secrets c) d" for d u
    using server_inv_parts [OF that] match_queue.leave_closed [of d u] by (simp add: server_inv_def)
  show "server_inv (uc_Secrets c) (d\<lparr>db_users := update_rows (\<lambda>u. user_ID u = i \<and> user_DeletedAt u = None)
      (\<lambda>u. touched u t) (db_users d)\<rparr>)" if "server_inv (uc_Secrets c) d" for d i t
    using that by (rule server_inv_touch_rows)
qed (auto intro: server_inv_setSecretTx server_inv_submitGuessTx server_inv_cancelTx server_inv_startMatchingTx
    server_inv_touch server_inv_create server_inv_delete)

subsection \<open>Every reachable state\<close>

lemma reachable_server_inv:
  assumes "reachable s w y" "server_inv (uc_Secrets (hd_Game (se_WS s))) (w_db w)"
  shows "server_inv (uc_Secrets (hd_Game (se_WS s))) (w_db (sy_world y))"
  using server.reachable_keeps [OF assms(1) refl] assms(2) by blast

definition empty_db :: db where
  "empty_db = \<lparr>db_users = [], db_games = [], db_guesses = [], db_histories = [], db_queue = [],
     db_rankings = [], db_tokens = [], db_actlogs = [], db_loginlogs = [], db_wslogs = []\<rparr>"

lemma server_inv_empty: "server_inv h empty_db"
  by (simp add: server_inv_def inv_defs accounts_inv_def queue_inv_def players_can_play_def active_player_def
      empty_db_def game_results_def)

text \<open>A deleted account has no active game, and its owner no waiting place after the deletion.\<close>

lemma deleted_user_idle:
  assumes "server_inv h d" "u \<in> set (db_users d)" "IsDeleted u" "g \<in> set (db_games d)"
    "active_status (game_Status g)"
  shows "\<not> IsParticipant g (user_ID u)"
proof
  assume "IsParticipant g (user_ID u)"
  note p = server_inv_parts [OF assms(1)]
  have "playable d (user_ID u)"
    using p(4) assms(4,5) \<open>IsParticipant g (user_ID u)\<close> unfolding players_can_play_def active_player_def by blast
  then obtain v where "v \<in> set (db_users d)" "user_ID v = user_ID u" "CanMatch v" by (auto simp: playable_def)
  with p(6) assms(2) have "v = u" by (auto dest: distinct_key_eq)
  with \<open>CanMatch v\<close> assms(3) show False by (simp add: CanMatch_def)
qed

end
