(* ===== verification/History.thy ===== *)
theory History
  imports Invariants
begin

text \<open>
  Nothing is lost: whatever the running program does, accounts, guesses and results stay, a game only
  goes forward, and what is over (a finished game, a deleted account) stays as it is.
\<close>

subsection \<open>Forward only\<close>

fun status_rank :: "GameStatus \<Rightarrow> nat" where
  "status_rank GameStatusWaitingSecret = 0"
| "status_rank GameStatusInProgress = 1"
| "status_rank GameStatusFinished = 2"

definition game_later :: "game \<Rightarrow> game \<Rightarrow> bool" where
  "game_later g g' \<longleftrightarrow> same_game g g' \<and>
     (game_Player1Secret g \<noteq> '''' \<longrightarrow> game_Player1Secret g' = game_Player1Secret g) \<and>
     (game_Player2Secret g \<noteq> '''' \<longrightarrow> game_Player2Secret g' = game_Player2Secret g) \<and>
     status_rank (game_Status g) \<le> status_rank (game_Status g') \<and> game_CurrentTurn g \<le> game_CurrentTurn g' \<and>
     (game_Status g = GameStatusFinished \<longrightarrow> g' = g)"

definition user_later :: "user \<Rightarrow> user \<Rightarrow> bool" where
  "user_later u u' \<longleftrightarrow> user_ID u' = user_ID u \<and> user_Username u' = user_Username u \<and>
     user_Email u' = user_Email u \<and> user_Role u' = user_Role u \<and> user_WinCount u \<le> user_WinCount u' \<and>
     (IsDeleted u \<longrightarrow> IsDeleted u')"

definition nothing_lost :: "db \<Rightarrow> db \<Rightarrow> bool" where
  "nothing_lost d d' \<longleftrightarrow> (\<forall>g\<in>set (db_games d). \<exists>g'\<in>set (db_games d'). game_later g g') \<and>
     (\<forall>u\<in>set (db_users d). \<exists>u'\<in>set (db_users d'). user_later u u') \<and>
     set (db_guesses d) \<subseteq> set (db_guesses d') \<and> set (db_histories d) \<subseteq> set (db_histories d')"

lemma game_later_refl [simp]: "game_later g g" by (simp add: game_later_def same_game_def)
lemma user_later_refl [simp]: "user_later u u" by (simp add: user_later_def)

lemma game_later_trans: "game_later a b \<Longrightarrow> game_later b c \<Longrightarrow> game_later a c"
  by (auto simp: game_later_def same_game_def)

lemma user_later_trans: "user_later a b \<Longrightarrow> user_later b c \<Longrightarrow> user_later a c"
  by (auto simp: user_later_def)

lemma nothing_lost_mono:
  assumes "set (db_games d) \<subseteq> set (db_games d')" "set (db_users d) \<subseteq> set (db_users d')"
    "set (db_guesses d) \<subseteq> set (db_guesses d')" "set (db_histories d) \<subseteq> set (db_histories d')"
  shows "nothing_lost d d'"
  unfolding nothing_lost_def using assms by (meson game_later_refl user_later_refl subsetD)

lemma nothing_lost_refl [simp]: "nothing_lost d d"
  by (rule nothing_lost_mono) simp_all

lemma nothing_lost_trans: "nothing_lost a b \<Longrightarrow> nothing_lost b c \<Longrightarrow> nothing_lost a c"
  unfolding nothing_lost_def by (meson game_later_trans user_later_trans subset_trans)

lemma nothing_lost_frame [simp]:
  "nothing_lost d (d'\<lparr>db_queue := q\<rparr>) = nothing_lost d d'" "nothing_lost d (d'\<lparr>db_rankings := rk\<rparr>) = nothing_lost d d'"
  "nothing_lost d (d'\<lparr>db_tokens := tk\<rparr>) = nothing_lost d d'" "nothing_lost d (d'\<lparr>db_actlogs := al\<rparr>) = nothing_lost d d'"
  "nothing_lost d (d'\<lparr>db_loginlogs := ll\<rparr>) = nothing_lost d d'" "nothing_lost d (d'\<lparr>db_wslogs := wl\<rparr>) = nothing_lost d d'"
  by (simp_all add: nothing_lost_def)

subsection \<open>One row\<close>

lemma later_save_row:
  assumes "distinct (map pk t)" "r \<in> set t" "pk r' = pk r" "R r r'" "\<And>x. R x x" "x \<in> set t"
  shows "\<exists>x'\<in>set (save_row pk r' t). R x x'"
proof (cases "pk x = pk r")
  case True
  with assms have "x = r" by (auto dest: distinct_key_eq)
  with assms show ?thesis by (auto simp: set_save_row)
next
  case False
  with assms show ?thesis by (auto simp: set_save_row)
qed

lemma lost_save_game:
  assumes "distinct (map game_ID (db_games d))" "g \<in> set (db_games d)" "game_later g g'"
  shows "nothing_lost d (d\<lparr>db_games := save_row game_ID g' (db_games d)\<rparr>)"
  using later_save_row [where R = game_later, OF assms(1,2) _ assms(3) game_later_refl] assms(3)
  unfolding nothing_lost_def by (auto simp: game_later_def [of g g'] same_game_def intro: user_later_refl)

lemma lost_save_user:
  assumes "distinct (map user_ID (db_users d))" "u \<in> set (db_users d)" "user_later u u'"
  shows "nothing_lost d (d\<lparr>db_users := save_row user_ID u' (db_users d)\<rparr>)"
  using later_save_row [where R = user_later, OF assms(1,2) _ assms(3) user_later_refl] assms(3)
  unfolding nothing_lost_def by (auto simp: user_later_def [of u u'] intro: game_later_refl)

subsection \<open>The transactions\<close>

text \<open>They need the duels to be sound only, whatever the accounts count as wins.\<close>

lemma duels_inv_keys:
  assumes "duels_inv R h d"
  shows "distinct (map game_ID (db_games d))" "distinct (map user_ID (db_users d))"
    "g \<in> set (db_games d) \<Longrightarrow> game_ok g"
    "g \<in> set (db_games d) \<Longrightarrow> IsParticipant g p \<Longrightarrow> p \<in> user_ID ` set (db_users d)"
  using assms by (auto simp: duels_inv_def games_inv_def players_inv_def game_log_ok_def IsParticipant_def)

lemma lost_setSecretTx:
  assumes inv: "duels_inv R (uc_Secrets c) (w_db w)" and run: "setSecretTx c u gid ds w = (Inr started, w')"
  shows "nothing_lost (w_db w) (w_db w')"
  using run
proof (cases rule: setSecretTx_success)
  case (1 g g')
  note p = duels_inv_keys [OF inv]
  have status: "game_Status g = GameStatusWaitingSecret" using 1(4) by (simp add: secret_step_def)
  have "game_ok g" by (rule p(3) [OF 1(2)])
  then have turn: "game_CurrentTurn g = 1" using status by (simp add: game_ok_waiting waiting_ok_def)
  have "game_later g g'"
    using 1(4) secret_step_same [OF 1(4)] turn
    by (auto simp: game_later_def secret_step_def startGame_Inr elim!: setGameSecretHash_cases split: if_splits)
  then show ?thesis unfolding 1(5) by (rule lost_save_game [OF p(1) 1(2)])
qed

lemma lost_won:
  assumes inv: "duels_inv R h d" and g: "g \<in> set (db_games d)" "same_game g g1"
    and w1: "w_db w1 = d\<lparr>db_guesses := rows\<rparr>" and later: "game_later g g1"
    and fin: "finishGameService g1 u t w1 = (Inr g', w')"
  shows "nothing_lost (w_db w1) (w_db w')"
proof -
  note p = duels_inv_keys [OF inv]
  have "\<forall>p. IsParticipant g1 p \<longrightarrow> p \<in> user_ID ` set (db_users (w_db w1))"
    using p(4) [OF g(1)] g(2) by (simp add: w1 IsParticipant_def same_game_def)
  with fin show ?thesis
  proof (cases rule: finishGameService_success)
    case (1 x y hist)
    let ?e = "d\<lparr>db_guesses := rows\<rparr>"
      and ?x = "x\<lparr>user_WinCount := user_WinCount x + 1, user_UpdatedAt := t\<rparr>"
    have "game_later g1 g'" using 1(4) by (auto simp: finishGame_Inr game_later_def same_game_def)
    with later have "game_later g g'" by (rule game_later_trans)
    then have "nothing_lost ?e (?e\<lparr>db_games := save_row game_ID g' (db_games ?e)\<rparr>)" (is "nothing_lost _ ?f")
      by (intro lost_save_game) (use p(1) g(1) in simp_all)
    moreover have "nothing_lost ?f (?f\<lparr>db_histories := db_histories ?f @ [hist]\<rparr>)" (is "nothing_lost _ ?h")
      by (rule nothing_lost_mono) auto
    moreover have "nothing_lost ?h (?h\<lparr>db_users := save_row user_ID ?x (db_users ?h)\<rparr>)"
      by (rule lost_save_user [where u = x]) (use p(2) 1(2) w1 in \<open>auto simp: user_later_def IsDeleted_def\<close>)
    ultimately have "nothing_lost ?e (?h\<lparr>db_users := save_row user_ID ?x (db_users ?h)\<rparr>)"
      by (blast intro: nothing_lost_trans)
    then show ?thesis by (simp add: 1(11) w1)
  qed
qed

lemma lost_submitGuessTx:
  assumes inv: "duels_inv R (uc_Secrets c) (w_db w)" and run: "submitGuessTx c u gid ds auto w = (Inr res, w')"
  shows "nothing_lost (w_db w) (w_db w')"
proof -
  note p = duels_inv_keys [OF inv]
  let ?d = "w_db w"
  obtain result finished where res: "res = (result, finished)" by (cases res)
  from run [unfolded res] show ?thesis
  proof (cases rule: submitGuessTx_success)
    case (1 g row g1 t)
    note f = guess_step_facts [OF 1(4) p(3) [OF 1(2)]]
    then have g1: "game_later g g1" by (simp add: game_later_def)
    let ?e = "?d\<lparr>db_guesses := db_guesses ?d @ [row]\<rparr>"
    have row: "nothing_lost ?d ?e" by (rule nothing_lost_mono) auto
    show ?thesis
    proof (cases finished)
      case False
      with 1(10) have "w_db w' = ?e\<lparr>db_games := save_row game_ID g1 (db_games ?e)\<rparr>" by simp
      then show ?thesis
        using nothing_lost_trans [OF row lost_save_game [of ?e g g1]] p(1) 1(2) g1 by simp
    next
      case True
      with 1(10) obtain g' w1 where fin: "finishGameService g1 u t w1 = (Inr g', w')" and w1: "w_db w1 = ?e" by auto
      from lost_won [OF inv 1(2) f(6) w1 g1 fin] w1 show ?thesis using nothing_lost_trans [OF row] by simp
    qed
  qed
qed

lemma lost_cancelTx:
  assumes inv: "duels_inv R h (w_db w)" and run: "cancelTx c gid t w = (Inr res, w')"
  shows "nothing_lost (w_db w) (w_db w')"
proof -
  from run have "w_db w' = w_db w \<or> (\<exists>g g'. g \<in> set (db_games (w_db w)) \<and> cancelGameBySecretTimeout g t = Inr g' \<and>
      w_db w' = (w_db w)\<lparr>db_games := save_row game_ID g' (db_games (w_db w))\<rparr>)"
    by (auto simp: cancelTx_def Let_def success_iff find_defs cancelGame_Inr cancelGameBySecretTimeout_def
        split: option.splits if_splits dest: first_row_Some)
  moreover have "game_later g g'" if "cancelGameBySecretTimeout g t = Inr g'" for g g'
    using that by (auto simp: cancelGame_Inr game_later_def same_game_def)
  ultimately show ?thesis using lost_save_game [OF duels_inv_keys(1) [OF inv]] by auto
qed

lemma server_inv_duels: "server_inv h d \<Longrightarrow> duels_inv (=) h d"
  by (simp add: server_inv_def duel_inv_eq)

lemma lost_startMatchingTx:
  assumes "startMatchingTx u t w = (Inr res, w')"
  shows "nothing_lost (w_db w) (w_db w')"
  using assms
proof (cases rule: startMatchingTx_success)
  case (1 e i t')
  from 1(5) show ?thesis by (cases rule: match_step_cases) (auto intro!: nothing_lost_mono)
qed

lemma user_later_touched [simp]: "user_later u (touched u t)"
  by (simp add: user_later_def touched_def IsDeleted_def)

lemma lost_touch_rows:
  "nothing_lost d (d\<lparr>db_users := update_rows P (\<lambda>u. touched u t) (db_users d)\<rparr>)"
proof -
  have "user_later u (if P u then touched u t else u)" for u by simp
  then have "\<exists>u'\<in>set (update_rows P (\<lambda>u. touched u t) (db_users d)). user_later u u'" if "u \<in> set (db_users d)" for u
    using that \<open>user_later u (if P u then touched u t else u)\<close> unfolding update_rows_def set_map by blast
  then show ?thesis unfolding nothing_lost_def by (auto intro: game_later_refl)
qed

lemma lost_delete:
  assumes inv: "server_inv h d" and u: "deletable d i u"
  shows "nothing_lost d (deleted_db adm i u t d)"
proof -
  have "nothing_lost d (d\<lparr>db_users := save_row user_ID (deleted_user u adm t) (db_users d)\<rparr>)"
    by (rule lost_save_user [OF server_inv_parts(6) [OF inv] conjunct1 [OF deletable_row [OF u]]])
      (simp add: user_later_def deleted_user_def IsDeleted_def)
  then show ?thesis by (simp add: nothing_lost_def deleted_db_def)
qed

subsection \<open>The running program\<close>

interpretation history: server_contract c "\<lambda>d. server_inv (uc_Secrets c) d \<and> nothing_lost d0 d" for c d0
proof unfold_locales
  fix d i t
  assume "server_inv (uc_Secrets c) d \<and> nothing_lost d0 d"
  then show "server_inv (uc_Secrets c) (d\<lparr>db_users := update_rows (\<lambda>u. user_ID u = i \<and> user_DeletedAt u = None)
      (\<lambda>u. touched u t) (db_users d)\<rparr>) \<and> nothing_lost d0 (d\<lparr>db_users := update_rows (\<lambda>u. user_ID u = i \<and>
      user_DeletedAt u = None) (\<lambda>u. touched u t) (db_users d)\<rparr>)"
    using server_inv_touch_rows lost_touch_rows by (blast intro: nothing_lost_trans)
next
  fix d u t
  assume "server_inv (uc_Secrets c) d \<and> nothing_lost d0 d" "u \<in> set (db_users d)"
  then show "server_inv (uc_Secrets c) (d\<lparr>db_users := save_row user_ID (touched u t) (db_users d)\<rparr>) \<and>
      nothing_lost d0 (d\<lparr>db_users := save_row user_ID (touched u t) (db_users d)\<rparr>)"
    using server_inv_touch nothing_lost_trans [OF _ lost_save_user] server_inv_parts(6) by (meson user_later_touched)
next
  fix d i n e p r t
  assume "server_inv (uc_Secrets c) d \<and> nothing_lost d0 d" "\<forall>x\<in>set (db_users d). \<not> user_conflict x (new_user i n e p r t)"
  moreover have "nothing_lost d (d\<lparr>db_users := db_users d @ [v]\<rparr>)" for v by (rule nothing_lost_mono) auto
  ultimately show "server_inv (uc_Secrets c) (d\<lparr>db_users := db_users d @ [new_user i n e p r t]\<rparr>) \<and>
      nothing_lost d0 (d\<lparr>db_users := db_users d @ [new_user i n e p r t]\<rparr>)"
    using server_inv_create by (blast intro: nothing_lost_trans)
next
  fix d u
  assume "server_inv (uc_Secrets c) d \<and> nothing_lost d0 d"
  then show "server_inv (uc_Secrets c) (d\<lparr>db_queue := delete_rows (\<lambda>e. entry_UserID e = u) (db_queue d)\<rparr>) \<and>
      nothing_lost d0 (d\<lparr>db_queue := delete_rows (\<lambda>e. entry_UserID e = u) (db_queue d)\<rparr>)"
    using server.matching.leave_closed by simp
qed (auto intro: server_inv_setSecretTx server_inv_submitGuessTx server_inv_cancelTx server_inv_startMatchingTx
    server_inv_delete nothing_lost_trans [OF _ lost_setSecretTx [OF server_inv_duels]]
    nothing_lost_trans [OF _ lost_submitGuessTx [OF server_inv_duels]] nothing_lost_trans [OF _ lost_cancelTx [OF server_inv_duels]] nothing_lost_trans [OF _ lost_startMatchingTx]
    nothing_lost_trans [OF _ lost_delete])

text \<open>From one reachable state to a later one.\<close>

inductive runs :: "Server \<Rightarrow> sys \<Rightarrow> sys \<Rightarrow> bool" for s where
  refl: "runs s y y"
| step: "runs s y z \<Longrightarrow> server_step s z z' \<Longrightarrow> runs s y z'"

lemma runs_nothing_lost:
  assumes "runs s y z" "server_inv (uc_Secrets (hd_Game (se_WS s))) (w_db (sy_world y))"
  shows "nothing_lost (w_db (sy_world y)) (w_db (sy_world z))"
proof -
  from assms(1) have "server_inv (uc_Secrets (hd_Game (se_WS s))) (w_db (sy_world z)) \<and>
      nothing_lost (w_db (sy_world y)) (w_db (sy_world z))"
    using assms(2)
  proof (induction rule: runs.induct)
    case (step y z z')
    then show ?case using history.step_keeps [OF step.hyps(2) HOL.refl] by blast
  qed simp
  then show ?thesis ..
qed

end
