(* ===== verification/Workers.thy ===== *)
theory Workers
  imports History
begin

text \<open>
  The workers of \<open>worker/*.go\<close>: the \<open>Run\<close> methods, which return at once when something they need is
  missing and else do their work again and again until the program stops. What comes from outside is
  a parameter: the times a ticker delivers, whether the scheduler can read a schedule (\<open>cron\<close>), and
  how often it starts the job. Errors are logged; a panic ends the program. A run is shown to be a
  sequence of steps of the running program.
\<close>

subsection \<open>Workers with a ticker\<close>

fun ticker :: "(time \<Rightarrow> unit go) \<Rightarrow> time list \<Rightarrow> unit go" where
  "ticker tick [] = ret ()"
| "ticker tick (t # ts) = andThen (tick t) (\<lambda>_. ticker tick ts)"

definition TurnTimeoutWorker_Run :: "store \<Rightarrow> GameUseCase option \<Rightarrow> duration \<Rightarrow> time list \<Rightarrow> unit go" where
  "TurnTimeoutWorker_Run s game interval ts = (case game of
     None \<Rightarrow> ret ()
   | Some c \<Rightarrow> if s = NilStore \<or> interval \<le> 0 then ret () else ticker (TurnTimeoutWorker_tick c s) ts)"

definition SecretSetupTimeoutWorker_Run :: "GameUseCase option \<Rightarrow> duration \<Rightarrow> time list \<Rightarrow> unit go" where
  "SecretSetupTimeoutWorker_Run game interval ts = (case game of
     None \<Rightarrow> ret ()
   | Some c \<Rightarrow> if interval \<le> 0 then ret () else ticker (SecretSetupTimeoutWorker_tick c) ts)"

text \<open>The automatic logout changes its use case, which the result holds.\<close>

definition AutoLogoutWorker_Run ::
  "AutoLogoutUseCase option \<Rightarrow> duration \<Rightarrow> time list \<Rightarrow> AutoLogoutUseCase option go" where
  "AutoLogoutWorker_Run autoLogout interval ts = (case autoLogout of
     None \<Rightarrow> ret None
   | Some a \<Rightarrow> if interval \<le> 0 then ret (Some a)
       else andThen (AutoLogoutWorker_ticks a ts) (\<lambda>a. ret (Some a)))"

subsection \<open>Workers with a schedule\<close>

fun firings :: "nat \<Rightarrow> unit go \<Rightarrow> unit go" where
  "firings 0 job = ret ()"
| "firings (Suc n) job = andThen job (\<lambda>_. firings n job)"

text \<open>\<open>AddFunc\<close> refuses a schedule that it cannot read; the error is logged and the worker returns.\<close>

definition scheduled :: "(string \<Rightarrow> bool) \<Rightarrow> string \<Rightarrow> nat \<Rightarrow> unit go \<Rightarrow> unit go" where
  "scheduled cronOK spec n job = (if cronOK spec then firings n job else ret ())"

definition BackupWorker_Run ::
  "(string \<Rightarrow> bool) \<Rightarrow> mergers \<Rightarrow> BackupUseCase option \<Rightarrow> string \<Rightarrow> nat \<Rightarrow> unit go" where
  "BackupWorker_Run cronOK g backup spec n = (case backup of
     None \<Rightarrow> ret ()
   | Some b \<Rightarrow> if spec = '''' then ret () else scheduled cronOK spec n (ignoreErr (RunSync g b)))"

definition RankingRebuildWorker_Run ::
  "(string \<Rightarrow> bool) \<Rightarrow> RankingUseCase option \<Rightarrow> string \<Rightarrow> nat \<Rightarrow> unit go" where
  "RankingRebuildWorker_Run cronOK ranking spec n = (case ranking of
     None \<Rightarrow> ret ()
   | Some r \<Rightarrow> if spec = '''' then ret () else scheduled cronOK spec n (RankingRebuildWorker_job r))"

definition RefreshTokenCleanupWorker_Run ::
  "(string \<Rightarrow> bool) \<Rightarrow> AuthUseCase option \<Rightarrow> string \<Rightarrow> nat \<Rightarrow> unit go" where
  "RefreshTokenCleanupWorker_Run cronOK auth spec n = (case auth of
     None \<Rightarrow> ret ()
   | Some a \<Rightarrow> if spec = '''' then ret () else scheduled cronOK spec n (CleanupExpiredRefreshTokens a))"

text \<open>
  The job of the retention may in principle not end (\<open>None\<close>); \<open>dns\<close> has, for every time the job is
  started, when its context is done.
\<close>

fun retention_firings :: "LogRetentionUseCase \<Rightarrow> (nat \<Rightarrow> bool) list \<Rightarrow> world \<Rightarrow> world option" where
  "retention_firings l [] w = Some w"
| "retention_firings l (dn # dns) w = (case Retention_Run dn l w of
     None \<Rightarrow> None
   | Some w' \<Rightarrow> retention_firings l dns w')"

definition LogRetentionWorker_Run ::
  "(string \<Rightarrow> bool) \<Rightarrow> LogRetentionUseCase option \<Rightarrow> string \<Rightarrow> (nat \<Rightarrow> bool) list \<Rightarrow> world \<Rightarrow> world option" where
  "LogRetentionWorker_Run cronOK retention spec dns w = (case retention of
     None \<Rightarrow> Some w
   | Some l \<Rightarrow> if spec = '''' \<or> \<not> cronOK spec then Some w else retention_firings l dns w)"

subsection \<open>A run is a sequence of steps\<close>

lemma ran_again [simp]: "ran (ran y r) r' = ran y r'" "sy_world (ran y r) = snd r"
  "sy_up (ran y r) \<longleftrightarrow> fst r \<noteq> Inl Panic" "sy_autoLogout (ran y r) = sy_autoLogout y"
  by (simp_all add: ran_def)

lemma ran_ret [simp]: "sy_up y \<Longrightarrow> ran y (ret x (sy_world y)) = y"
  by (simp add: ran_def ret_def)

lemma ran_ignoreErr [simp]: "ran y (ignoreErr m w) = ran y (m w)"
  by (auto simp: ran_def ignoreErr_def split: prod.split sum.split)

lemma runs_trans: "runs s y z \<Longrightarrow> runs s x y \<Longrightarrow> runs s x z"
  by (induction rule: runs.induct) (auto intro: runs.step)

lemma runs_one: "server_step s y z \<Longrightarrow> runs s y z"
  by (rule runs.step [OF runs.refl])

text \<open>A computation whose effect is a step, followed by one whose effect is a sequence of steps.\<close>

lemma runs_andThen:
  assumes "server_step s y (ran y (m (sy_world y)))"
    and "\<And>x w. m (sy_world y) = (Inr x, w) \<Longrightarrow> runs s (ran y (Inr x, w)) (ran y (k x w))"
  shows "runs s y (ran y (andThen m k (sy_world y)))"
proof (cases "m (sy_world y)")
  case (Pair r w)
  show ?thesis
  proof (cases r)
    case (Inl e)
    with Pair runs_one [OF assms(1)] show ?thesis by (simp add: andThen_def ran_def)
  next
    case (Inr x)
    have "runs s y (ran y (Inr x, w))" using runs_one [OF assms(1)] Pair Inr by simp
    moreover have "runs s (ran y (Inr x, w)) (ran y (k x w))" using assms(2) Pair Inr by simp
    ultimately show ?thesis using Pair Inr by (simp add: andThen_def runs_trans)
  qed
qed

lemma ticker_runs:
  assumes "\<And>y t. sy_up y \<Longrightarrow> server_step s y (ran y (tick t (sy_world y)))" "sy_up y"
  shows "runs s y (ran y (ticker tick ts (sy_world y)))"
  using assms(2)
proof (induction ts arbitrary: y)
  case (Cons t ts)
  have "runs s (ran y (Inr x, w)) (ran y (ticker tick ts w))" for x :: unit and w
    using Cons.IH [of "ran y (Inr x, w)"] by simp
  then show ?case
    using runs_andThen [where m = "tick t" and k = "\<lambda>_. ticker tick ts" and s = s, OF assms(1) [OF Cons.prems]]
    by simp
qed (simp add: runs.refl)

lemma firings_runs:
  assumes "\<And>y. sy_up y \<Longrightarrow> server_step s y (ran y (job (sy_world y)))" "sy_up y"
  shows "runs s y (ran y (scheduled cronOK spec n job (sy_world y)))"
proof -
  have "runs s y (ran y (firings n job (sy_world y)))"
    using assms(2)
  proof (induction n arbitrary: y)
    case (Suc n)
    have "runs s (ran y (Inr x, w)) (ran y (firings n job w))" for x :: unit and w
      using Suc.IH [of "ran y (Inr x, w)"] by simp
    then show ?case
      using runs_andThen [where m = job and k = "\<lambda>_. firings n job" and s = s, OF assms(1) [OF Suc.prems]]
      by simp
  qed (simp add: runs.refl)
  then show ?thesis using assms(2) by (simp add: scheduled_def runs.refl)
qed

subsection \<open>The workers of the program\<close>

definition worker_runs :: "Server \<Rightarrow> sys \<Rightarrow> unit go \<Rightarrow> bool" where
  "worker_runs s y m \<longleftrightarrow> runs s y (ran y (m (sy_world y)))"

lemma worker_runs_ret [simp]: "sy_up y \<Longrightarrow> worker_runs s y (ret ())"
  by (simp add: worker_runs_def runs.refl)

lemma TurnTimeoutWorker_runs:
  assumes "se_TurnWorker s" "sy_up y"
  shows "worker_runs s y (TurnTimeoutWorker_Run (se_Store s) (Some (hd_Game (se_WS s))) interval ts)"
  using assms ticker_runs [where tick = "TurnTimeoutWorker_tick (hd_Game (se_WS s)) (se_Store s)" and s = s and ts = ts]
      server_step.turn_worker
  by (simp add: TurnTimeoutWorker_Run_def worker_runs_def runs.refl)

lemma SecretSetupTimeoutWorker_runs:
  assumes "se_SecretWorker s" "sy_up y"
  shows "worker_runs s y (SecretSetupTimeoutWorker_Run (Some (hd_Game (se_WS s))) interval ts)"
  using assms ticker_runs [where tick = "SecretSetupTimeoutWorker_tick (hd_Game (se_WS s))" and s = s and ts = ts]
      server_step.secret_worker
  by (simp add: SecretSetupTimeoutWorker_Run_def worker_runs_def runs.refl)

lemma BackupWorker_runs:
  assumes "sy_up y"
  shows "worker_runs s y (BackupWorker_Run cronOK (se_Mergers s) (se_Backup s) spec n)"
  using assms firings_runs [of s "ignoreErr (RunSync (se_Mergers s) (the (se_Backup s)))" y cronOK spec n]
  by (auto simp: BackupWorker_Run_def worker_runs_def runs.refl server_step.backup_worker split: option.splits)

lemma RankingRebuildWorker_runs:
  assumes "sy_up y"
  shows "worker_runs s y (RankingRebuildWorker_Run cronOK (se_Ranking s) spec n)"
  using assms firings_runs [of s "RankingRebuildWorker_job (the (se_Ranking s))" y cronOK spec n]
  by (auto simp: RankingRebuildWorker_Run_def worker_runs_def runs.refl server_step.ranking_worker
      split: option.splits)

lemma RefreshTokenCleanupWorker_runs:
  assumes "se_TokenCleanup s" "sy_up y"
  shows "worker_runs s y (RefreshTokenCleanupWorker_Run cronOK (Some (dp_Auth (se_Deps s))) spec n)"
  using assms server_step.cleanup_worker
      firings_runs [where job = "CleanupExpiredRefreshTokens (dp_Auth (se_Deps s))" and s = s and n = n and spec = spec]
  by (simp add: RefreshTokenCleanupWorker_Run_def worker_runs_def runs.refl)

lemma AutoLogoutWorker_ticks_runs:
  assumes "sy_up y" "sy_autoLogout y = Some a" "AutoLogoutWorker_ticks a ts (sy_world y) = (r, w)"
  shows "\<exists>a'. runs s y ((ran y (r, w))\<lparr>sy_autoLogout := Some a'\<rparr>) \<and> (\<forall>b. r = Inr b \<longrightarrow> a' = b)"
  using assms
proof (induction ts arbitrary: y a)
  case Nil
  then have r: "r = Inr a" "w = sy_world y" by (simp_all add: ret_def)
  have "(ran y (r, w))\<lparr>sy_autoLogout := Some a\<rparr> = y"
    using Nil.prems(1,2) by (cases y) (simp add: ran_def r)
  then have "runs s y ((ran y (r, w))\<lparr>sy_autoLogout := Some a\<rparr>)" by (simp only: runs.refl)
  with r(1) show ?case by blast
next
  case (Cons t ts)
  obtain r1 w1 where tick: "AutoLogoutWorker_tick a t (sy_world y) = (r1, w1)" by fastforce
  let ?a1 = "case r1 of Inr a' \<Rightarrow> a' | Inl _ \<Rightarrow> a"
  let ?y1 = "(ran y (r1, w1))\<lparr>sy_autoLogout := Some ?a1\<rparr>"
  have step: "runs s y ?y1"
    using runs_one [OF server_step.logout_worker [OF Cons.prems(1,2) tick]] by simp
  show ?case
  proof (cases r1)
    case (Inl e)
    with Cons.prems(3) tick have "r = Inl e" "w = w1" by (auto simp: andThen_def)
    with step Inl show ?thesis by (intro exI [of _ ?a1]) (simp add: ran_def)
  next
    case (Inr a1)
    with Cons.prems(3) tick have rest: "AutoLogoutWorker_ticks a1 ts w1 = (r, w)" by (simp add: andThen_def)
    with Cons.IH [of ?y1 a1] Inr obtain a' where "runs s ?y1 ((ran ?y1 (r, w))\<lparr>sy_autoLogout := Some a'\<rparr>)"
      and a': "\<forall>b. r = Inr b \<longrightarrow> a' = b" by (auto simp: ran_def)
    then have "runs s y ((ran y (r, w))\<lparr>sy_autoLogout := Some a'\<rparr>)"
      using runs_trans [OF _ step] Inr by (simp add: ran_def)
    with a' show ?thesis by blast
  qed
qed

lemma AutoLogoutWorker_runs:
  assumes "sy_up y" "sy_autoLogout y = Some a" "AutoLogoutWorker_Run (Some a) interval ts (sy_world y) = (r, w)"
  shows "\<exists>a'. runs s y ((ran y (r, w))\<lparr>sy_autoLogout := Some a'\<rparr>) \<and> (\<forall>b. r = Inr b \<longrightarrow> b = Some a')"
proof (cases "interval \<le> 0")
  case True
  with assms(3) have r: "r = Inr (Some a)" "w = sy_world y" by (simp_all add: AutoLogoutWorker_Run_def ret_def)
  have "(ran y (r, w))\<lparr>sy_autoLogout := Some a\<rparr> = y"
    using assms(1,2) by (cases y) (simp add: ran_def r)
  then have "runs s y ((ran y (r, w))\<lparr>sy_autoLogout := Some a\<rparr>)" by (simp only: runs.refl)
  with r(1) show ?thesis by blast
next
  case False
  obtain r1 w1 where ticks: "AutoLogoutWorker_ticks a ts (sy_world y) = (r1, w1)" by fastforce
  with assms(3) False have r: "r = (case r1 of Inl e \<Rightarrow> Inl e | Inr b \<Rightarrow> Inr (Some b))" "w = w1"
    by (auto simp: AutoLogoutWorker_Run_def andThen_def ret_def split: sum.splits)
  from AutoLogoutWorker_ticks_runs [OF assms(1,2) ticks, of s] obtain a' where
    run: "runs s y ((ran y (r1, w1))\<lparr>sy_autoLogout := Some a'\<rparr>)" and a': "\<forall>b. r1 = Inr b \<longrightarrow> a' = b" by blast
  have "ran y (r, w) = ran y (r1, w1)" by (auto simp: r ran_def split: sum.split)
  with run a' show ?thesis by (intro exI [of _ a']) (auto simp: r split: sum.split)
qed

text \<open>The retention ends, however often it is started.\<close>

lemma retention_firings_runs:
  assumes "sy_up y" "se_Retention s = Some l" "retention_firings l dns (sy_world y) = Some w"
  shows "runs s y (y\<lparr>sy_world := w\<rparr>)"
  using assms
proof (induction dns arbitrary: y)
  case (Cons dn dns)
  then obtain w1 where w1: "Retention_Run dn l (sy_world y) = Some w1" and rest: "retention_firings l dns w1 = Some w"
    by (auto split: option.splits)
  have "runs s y (y\<lparr>sy_world := w1\<rparr>)"
    by (rule runs_one [OF server_step.retention_worker [OF Cons.prems(1,2) w1]])
  moreover have "runs s (y\<lparr>sy_world := w1\<rparr>) (y\<lparr>sy_world := w\<rparr>)"
    using Cons.IH [of "y\<lparr>sy_world := w1\<rparr>"] Cons.prems(1,2) rest by simp
  ultimately show ?case by (rule runs_trans [rotated])
qed (auto intro: runs.refl)

lemma retention_firings_end: "\<exists>w'. retention_firings l dns w = Some w'"
  by (induction dns arbitrary: w) (use Retention_Run_ends in \<open>auto split: option.split\<close>)

lemma LogRetentionWorker_runs:
  assumes "sy_up y"
  shows "\<exists>w. LogRetentionWorker_Run cronOK (se_Retention s) spec dns (sy_world y) = Some w \<and>
    runs s y (y\<lparr>sy_world := w\<rparr>)"
proof (cases "se_Retention s")
  case (Some l)
  obtain w where "retention_firings l dns (sy_world y) = Some w" using retention_firings_end by blast
  with retention_firings_runs [OF assms Some this] Some show ?thesis
    by (auto simp: LogRetentionWorker_Run_def runs.refl)
qed (simp add: LogRetentionWorker_Run_def runs.refl)

end
