(* ===== verification/Access.thy ===== *)
theory Access
  imports Invariants
begin

text \<open>
  Who may do what: what a token that is accepted has passed, what a request or a message without one
  can change, and that a deleted account stays out.
\<close>

subsection \<open>Tokens\<close>

lemma Parse_frame:
  "Parse sv tok w = (r, w') \<Longrightarrow> w' = w\<lparr>w_nclock := Suc (w_nclock w)\<rparr>"
  by (auto simp: Parse_def andThen_def now_def lift_result_def)

lemma checkRevoked_success:
  "checkRevoked (Some s) jti w = (Inr x, w') \<Longrightarrow>
     r_get (JwtRevokedKey jti) (w_clock w (w_nclock w)) (w_redis w) = None"
  by (auto simp: checkRevoked_def IsRevoked_jti_def success_iff)

lemma findUser_success:
  "userRepo_FindByID i w = (Inr (Some u), w') \<Longrightarrow> u \<in> set (db_users (w_db w)) \<and> user_ID u = i"
  by (auto simp: success_iff find_defs dest: first_row_Some [OF sym])

text \<open>An accepted token: it parses, it is not revoked, and its owner has an account.\<close>

lemma checkToken_success:
  assumes "checkToken cfg tok w = (Inr info, w')"
  obtains tk w1 where "Parse (ac_JWT cfg) tok w = (Inr tk, w1)" "an_UserID info = at_UserID tk"
    "an_Role info = at_Role tk" "an_JTI info = at_JTI tk" "an_ExpiresAt info = at_ExpiresAt tk"
    "\<forall>s. ac_Revoker cfg = Some s \<longrightarrow> r_get (JwtRevokedKey (at_JTI tk)) (w_clock w (Suc (w_nclock w))) (w_redis w) = None"
    "ac_Users cfg \<longrightarrow> (\<exists>u\<in>set (db_users (w_db w)). user_ID u = at_UserID tk \<and> \<not> IsDeleted u)"
    "w_db w' = w_db w"
proof -
  have db: "w_db w' = w_db w" by (rule silent [OF keeps_checkToken assms])
  from assms obtain tk w1 w2 w3 x y where parse: "Parse (ac_JWT cfg) tok w = (Inr tk, w1)"
    and rev: "checkRevoked (ac_Revoker cfg) (at_JTI tk) w1 = (Inr x, w2)"
    and out: "checkForcedLogout (ac_ForceLogout cfg) (at_UserID tk) (at_IssuedAt tk) w2 = (Inr y, w3)"
    and user: "\<exists>w4 z. (if ac_Users cfg
       then andThen (userRepo_FindByID (at_UserID tk)) (\<lambda>found. case found of
         None \<Rightarrow> throw ErrUnauthorized
       | Some u \<Rightarrow> if IsDeleted u then throw ErrUnauthorized else ret ())
       else ret ()) w3 = (Inr z, w4)"
    and info: "info = \<lparr>an_UserID = at_UserID tk, an_Role = at_Role tk, an_JTI = at_JTI tk,
          an_ExpiresAt = at_ExpiresAt tk\<rparr>"
    unfolding checkToken_def by (auto simp: andThen_success ret_success)
  have "w_db w1 = w_db w" by (rule silent [OF keeps_Parse parse])
  moreover have "w_db w2 = w_db w1" by (rule silent [OF keeps_wsChecks(1) rev])
  moreover have "w_db w3 = w_db w2" by (rule silent [OF keeps_wsChecks(2) out])
  ultimately have w3: "w_db w3 = w_db w" by simp
  show thesis
  proof (rule that [OF parse])
    show "\<forall>s. ac_Revoker cfg = Some s \<longrightarrow>
        r_get (JwtRevokedKey (at_JTI tk)) (w_clock w (Suc (w_nclock w))) (w_redis w) = None"
      using rev Parse_frame [OF parse] by (auto dest!: checkRevoked_success)
    show "ac_Users cfg \<longrightarrow> (\<exists>u\<in>set (db_users (w_db w)). user_ID u = at_UserID tk \<and> \<not> IsDeleted u)"
      using user w3 by (fastforce simp: andThen_success throw_success dest: findUser_success split: if_splits option.splits)
  qed (simp_all add: info db)
qed

subsection \<open>Requests without a token\<close>

text \<open>What the chain of a protected route does: it answers with an error, or runs the handler for the owner of a token.\<close>

lemma AuthMiddleware_cases:
  assumes "AuthMiddleware cfg k cx w = (r, w')"
  obtains e where "r = Inr (cx, WriteError e)" "w_db w' = w_db w"
    | "r = Inl Panic" "w_db w' = w_db w"
    | tok info w1 where "map_of (rq_Cookies (cx_Request cx)) ''access_token'' = Some tok" "tok \<noteq> ''''"
      "checkToken cfg tok w = (Inr info, w1)" "k (SetAuth cx info) w1 = (r, w')"
proof (cases "map_of (rq_Cookies (cx_Request cx)) ''access_token''")
  case None
  with assms that(1) show thesis by (auto simp: AuthMiddleware_def reply_def ret_def)
next
  case (Some tok)
  show thesis
  proof (cases "tok = ''''")
    case True
    with Some assms that(1) show thesis by (auto simp: AuthMiddleware_def reply_def ret_def)
  next
    case False
    obtain res w1 where check: "checkToken cfg tok w = (res, w1)" by (cases "checkToken cfg tok w")
    have db: "w_db w1 = w_db w" by (rule silent [OF keeps_checkToken check])
    show thesis
    proof (cases res)
      case (Inl e)
      with Some False assms check db that(1,2) show thesis
        by (cases "e = Panic") (auto simp: AuthMiddleware_def attempt_def andThen_def reply_def ret_def)
    next
      case (Inr info)
      with Some False assms check that(3) show thesis
        by (auto simp: AuthMiddleware_def attempt_def andThen_def)
    qed
  qed
qed

definition no_cookie :: "request \<Rightarrow> bool" where
  "no_cookie rq \<longleftrightarrow> (case map_of (rq_Cookies rq) ''access_token'' of None \<Rightarrow> True | Some v \<Rightarrow> v = '''')"

lemma AuthMiddleware_no_cookie:
  "no_cookie (cx_Request cx) \<Longrightarrow> AuthMiddleware cfg k cx w = (Inr (cx, WriteError ErrUnauthorized), w)"
  by (auto simp: no_cookie_def AuthMiddleware_def reply_def ret_def split: option.splits)

definition is_protected :: "Deps \<Rightarrow> request \<Rightarrow> bool" where
  "is_protected h rq \<longleftrightarrow> (rq_Method rq, rq_Path rq) \<in>
     (\<lambda>(m, p, k). (m, p)) ` (set (user_routes h) \<union> set (admin_routes h))"

text \<open>The handler behind a protected path; the public paths and the health check are other paths.\<close>

lemma find_route_append:
  "find_route m p (xs @ ys) = (case find_route m p xs of None \<Rightarrow> find_route m p ys | Some k \<Rightarrow> Some k)"
  by (induction m p xs rule: find_route.induct) auto

lemma find_route_map:
  "find_route m p (map (\<lambda>(m, p, k). (m, p, f k)) rs) = map_option f (find_route m p rs)"
  by (induction m p rs rule: find_route.induct) auto

lemma find_route_in:
  "(m, p) \<in> (\<lambda>(m, p, k). (m, p)) ` set rs \<longleftrightarrow> find_route m p rs \<noteq> None"
  by (induction m p rs rule: find_route.induct) auto

lemma find_route_path:
  "find_route m p rs = Some k \<Longrightarrow> p \<in> (\<lambda>(m, p, k). p) ` set rs"
  by (induction m p rs rule: find_route.induct) (auto split: if_splits)

lemma protected_path:
  assumes "is_protected h rq"
  shows "publicRateLimitForPath (rq_Path rq) = (0, 60 * second, False)" "rq_Path rq \<noteq> ''/health''"
    "find_route (rq_Method rq) (rq_Path rq) (public_routes h) = None"
proof -
  have "rq_Path rq \<in> {''/api/auth/logout'', ''/api/me'', ''/api/me/profile'', ''/api/me/match-history'',
      ''/api/me/login-history'', ''/api/me/ws-history'', ''/api/matching/start'', ''/api/matching/cancel'',
      ''/api/matching/status'', ''/api/games/:id'', ''/api/ranking'', ''/api/admin/users'',
      ''/api/admin/users/search'', ''/api/admin/users/:id'', ''/api/admin/ranking/rebuild'',
      ''/api/admin/logs/types'', ''/api/admin/logs'', ''/api/admin/logs/download'', ''/api/admin/backup/status''}"
    using assms by (auto simp: is_protected_def user_routes_def admin_routes_def)
  then show "publicRateLimitForPath (rq_Path rq) = (0, 60 * second, False)" "rq_Path rq \<noteq> ''/health''"
    "find_route (rq_Method rq) (rq_Path rq) (public_routes h) = None"
    by (auto simp: publicRateLimitForPath_def public_routes_def)
qed

lemma protected_route:
  assumes "is_protected h rq" "cx_Request cx = rq"
  obtains k where "route h cx = AuthMiddleware (dp_AuthMW h) (UserRateLimit (dp_ustr h) (ActivityUpdate (dp_Users h) k)) cx"
    "find_route (rq_Method rq) (rq_Path rq) (user_routes h) = Some k \<or>
     (\<exists>k'. find_route (rq_Method rq) (rq_Path rq) (admin_routes h) = Some k' \<and> k = AdminMiddleware k')"
proof -
  note path = protected_path [OF assms(1)]
  let ?m = "rq_Method rq" and ?p = "rq_Path rq"
  have found: "find_route ?m ?p ((''GET'', ''/health'', ctl_Health) # routes h) =
      (case find_route ?m ?p (user_routes h) of
         Some k \<Rightarrow> Some (protected h k)
       | None \<Rightarrow> map_option (adminGroup h) (find_route ?m ?p (admin_routes h)))"
    using path(2,3) by (simp add: routes_def find_route_append find_route_map split: option.split)
  have run: "protected h k cx = AuthMiddleware (dp_AuthMW h) (UserRateLimit (dp_ustr h) (ActivityUpdate (dp_Users h) k)) cx" for k
    by (simp add: protected_def api_def RateLimitPublic_def path(1) assms(2))
  show thesis
  proof (cases "find_route ?m ?p (user_routes h)")
    case (Some k)
    with found assms(2) show thesis by (intro that [of k]) (simp_all add: route_def Let_def run)
  next
    case None
    with assms(1) obtain k where k: "find_route ?m ?p (admin_routes h) = Some k"
      unfolding is_protected_def image_Un Un_iff find_route_in by auto
    with None found assms(2) show thesis
      by (intro that [of "AdminMiddleware k"]) (simp_all add: route_def Let_def run adminGroup_def)
  qed
qed

subsection \<open>The request log\<close>

definition only_logs :: "db \<Rightarrow> db \<Rightarrow> bool" where
  "only_logs d d' \<longleftrightarrow> (\<exists>ls. d' = d\<lparr>db_actlogs := ls\<rparr>)"

lemma only_logs_refl [simp]: "only_logs d d"
  unfolding only_logs_def by (rule exI [of _ "db_actlogs d"]) simp

lemma only_logs_frame:
  "only_logs d d' \<Longrightarrow> db_users d' = db_users d \<and> db_games d' = db_games d \<and> db_tokens d' = db_tokens d \<and>
     db_queue d' = db_queue d \<and> db_guesses d' = db_guesses d"
  by (auto simp: only_logs_def)

lemma activityLogRepo_Create_effect:
  "ignoreErr (activityLogRepo_Create l) w = (r, w') \<Longrightarrow> r = Inr () \<and> only_logs (w_db w) (w_db w')"
  by (auto simp: ignoreErr_def activityLogRepo_Create_def dbExec_eval insert_row_def only_logs_def
      intro: exI [of _ "db_actlogs (w_db w)"] split: if_splits option.splits)

lemma RequestLog_effect:
  assumes "RequestLog users k cx w = (r, w')"
  obtains r0 w1 where "k cx (w\<lparr>w_nclock := Suc (w_nclock w)\<rparr>) = (r0, w1)" "r = r0" "only_logs (w_db w1) (w_db w')"
proof -
  obtain r0 w1 where run: "k cx (w\<lparr>w_nclock := Suc (w_nclock w)\<rparr>) = (r0, w1)"
    by (cases "k cx (w\<lparr>w_nclock := Suc (w_nclock w)\<rparr>)")
  have "r = r0 \<and> only_logs (w_db w1) (w_db w')"
  proof (cases r0)
    case (Inl e)
    with assms run show ?thesis by (simp add: RequestLog_def andThen_def now_def)
  next
    case (Inr cr)
    with assms run show ?thesis
      by (cases cr) (auto simp: RequestLog_def andThen_def now_def newUUID_def ret_def Let_def
          split: if_splits prod.splits sum.splits dest!: activityLogRepo_Create_effect)
  qed
  with run that show thesis by blast
qed

lemma serve_http_effect:
  assumes "serve_http h rq w = (r, w')"
  obtains r0 w1 where
    "route h \<lparr>cx_Request = rq, cx_Auth = None\<rparr> (w\<lparr>w_nclock := Suc (w_nclock w)\<rparr>) = (r0, w1)"
    "only_logs (w_db w1) (w_db w')"
    "r = (case r0 of Inr (cx, resp) \<Rightarrow> Inr resp | Inl e \<Rightarrow> if e = Panic then Inr (WriteError ErrInternal) else Inl e)"
proof -
  obtain r1 w2 where log: "RequestLog (dp_Users h) (route h) \<lparr>cx_Request = rq, cx_Auth = None\<rparr> w = (r1, w2)"
    by (cases "RequestLog (dp_Users h) (route h) \<lparr>cx_Request = rq, cx_Auth = None\<rparr> w")
  from log show thesis
  proof (cases rule: RequestLog_effect)
    case (1 r0 w1)
    with assms log that [OF 1(1)] show thesis
      by (auto simp: serve_http_def andThen_def RecoverMiddleware_def ret_def split: sum.splits if_splits prod.splits)
  qed
qed

subsection \<open>What a request needs\<close>

text \<open>The answer of a protected route: an error, or what happens for an accepted token.\<close>

lemma serve_http_protected:
  assumes "is_protected h rq" "serve_http h rq w = (r, w')"
  obtains e where "r = Inr (WriteError e)" "only_logs (w_db w) (w_db w')"
    | tok info w1 where "map_of (rq_Cookies rq) ''access_token'' = Some tok"
      "checkToken (dp_AuthMW h) tok (w\<lparr>w_nclock := Suc (w_nclock w)\<rparr>) = (Inr info, w1)"
  using assms(2)
proof (cases rule: serve_http_effect)
  case (1 r0 w1)
  let ?cx = "\<lparr>cx_Request = rq, cx_Auth = None\<rparr>"
  obtain k where k: "route h ?cx =
      AuthMiddleware (dp_AuthMW h) (UserRateLimit (dp_ustr h) (ActivityUpdate (dp_Users h) k)) ?cx"
    by (rule protected_route [OF assms(1), of ?cx]) auto
  from 1(1) [unfolded k] show thesis
  proof (cases rule: AuthMiddleware_cases)
    case (1 e)
    with \<open>only_logs (w_db w1) (w_db w')\<close> \<open>r = _\<close> that(1) [of e] show thesis by simp
  next
    case 2
    with \<open>only_logs (w_db w1) (w_db w')\<close> \<open>r = _\<close> that(1) [of ErrInternal] show thesis by simp
  next
    case (3 tok info v)
    with that(2) show thesis by simp
  qed
qed

lemma serve_http_no_cookie:
  assumes "is_protected h rq" "no_cookie rq"
  shows "fst (serve_http h rq w) = Inr (WriteError ErrUnauthorized) \<and>
    only_logs (w_db w) (w_db (snd (serve_http h rq w)))"
proof -
  obtain r w' where run: "serve_http h rq w = (r, w')" by (cases "serve_http h rq w")
  let ?cx = "\<lparr>cx_Request = rq, cx_Auth = None\<rparr>"
  obtain k where k: "route h ?cx =
      AuthMiddleware (dp_AuthMW h) (UserRateLimit (dp_ustr h) (ActivityUpdate (dp_Users h) k)) ?cx"
    by (rule protected_route [OF assms(1), of ?cx]) auto
  from run show ?thesis
  proof (cases rule: serve_http_effect)
    case (1 r0 w1)
    then show ?thesis using run by (auto simp: k AuthMiddleware_no_cookie assms(2))
  qed
qed

subsection \<open>Administration\<close>

text \<open>The last activity of the account \<open>i\<close> is set, or nothing is.\<close>

definition quiet :: "uuid \<Rightarrow> db \<Rightarrow> db \<Rightarrow> bool" where
  "quiet i d d' \<longleftrightarrow> only_logs d d' \<or> (\<exists>t. only_logs (d\<lparr>db_users :=
     update_rows (\<lambda>u. user_ID u = i \<and> user_DeletedAt u = None) (\<lambda>u. touched u t) (db_users d)\<rparr>) d')"

lemma quiet_refl: "quiet i d d"
  by (simp add: quiet_def)

lemma only_logs_trans: "only_logs d d' \<Longrightarrow> only_logs d' d'' \<Longrightarrow> only_logs d d''"
  by (auto simp: only_logs_def)

lemma quiet_logs: "quiet i d d' \<Longrightarrow> only_logs d' d'' \<Longrightarrow> quiet i d d''"
  unfolding quiet_def using only_logs_trans by blast

lemma TouchLastActivity_quiet:
  "ignoreErr (userRepo_TouchLastActivity i t) w = (r, w') \<Longrightarrow> r = Inr () \<and> quiet i (w_db w) (w_db w')"
proof (cases "w_faults w (w_nio w)")
  case False
  assume "ignoreErr (userRepo_TouchLastActivity i t) w = (r, w')"
  with False have "r = Inr ()" and db: "w_db w' = (w_db w)\<lparr>db_users :=
      update_rows (\<lambda>u. user_ID u = i \<and> user_DeletedAt u = None) (\<lambda>u. touched u t) (db_users (w_db w))\<rparr>"
    by (auto simp: ignoreErr_def userRepo_TouchLastActivity_def dbExec_eval touched_def)
  moreover have "quiet i (w_db w) (w_db w')" unfolding quiet_def db using only_logs_refl by blast
  ultimately show ?thesis by simp
qed (auto simp: ignoreErr_def userRepo_TouchLastActivity_def dbExec_eval quiet_refl)

lemma askUser_effect: "askUser key limit window w = (ok, v) \<Longrightarrow> (\<exists>b. ok = Inr b) \<and> w_db v = w_db w"
  by (cases "allow key limit window (w_clock w (w_nclock w)) (w_userLimiter w)")
    (simp add: askUser_def andThen_def now_def, auto)

lemma AdminMiddleware_refused:
  assumes "cx_Auth cx = Some auth" "an_Role auth \<noteq> RoleMaster"
    and "UserRateLimit us (ActivityUpdate users (AdminMiddleware k)) cx w = (r, w')"
  shows "\<exists>e. r = Inr (cx, WriteError e) \<and> quiet (an_UserID auth) (w_db w) (w_db w')"
proof -
  have act: "\<exists>e. r = Inr (cx, WriteError e) \<and> quiet (an_UserID auth) (w_db w) (w_db w')"
    if "ActivityUpdate users (AdminMiddleware k) cx w = (r, w')" for w r w'
    using that assms(1,2)
    by (auto simp: ActivityUpdate_def AdminMiddleware_def AuthFrom_def andThen_def reply_def ret_def now_def quiet_refl
        split: if_splits prod.splits sum.splits dest!: TouchLastActivity_quiet)
  obtain ok v where ask: "askUser (us (an_UserID auth)) 120 (60 * second) w = (ok, v)"
    by (cases "askUser (us (an_UserID auth)) 120 (60 * second) w")
  from askUser_effect [OF this] obtain b where b: "ok = Inr b" and v: "w_db v = w_db w" by blast
  show ?thesis
  proof (cases b)
    case True
    with assms(3) ask b have "ActivityUpdate users (AdminMiddleware k) cx v = (r, w')"
      by (simp add: UserRateLimit_def AuthFrom_def assms(1) andThen_def)
    from act [OF this] v show ?thesis by simp
  next
    case False
    with assms(3) ask b v show ?thesis
      by (auto simp: UserRateLimit_def AuthFrom_def assms(1) andThen_def reply_def ret_def quiet_refl)
  qed
qed

definition is_admin_route :: "Deps \<Rightarrow> request \<Rightarrow> bool" where
  "is_admin_route h rq \<longleftrightarrow> (rq_Method rq, rq_Path rq) \<in> (\<lambda>(m, p, k). (m, p)) ` set (admin_routes h)"

lemma user_route_not_admin:
  "is_admin_route h rq \<Longrightarrow> find_route (rq_Method rq) (rq_Path rq) (user_routes h) = None"
proof (rule ccontr)
  assume "is_admin_route h rq" and "find_route (rq_Method rq) (rq_Path rq) (user_routes h) \<noteq> None"
  then obtain k where user: "rq_Path rq \<in> (\<lambda>(m, p, k). p) ` set (user_routes h)"
    using find_route_path by blast
  have admin: "rq_Path rq \<in> (\<lambda>(m, p, k). p) ` set (admin_routes h)"
    using \<open>is_admin_route h rq\<close> unfolding is_admin_route_def by force
  have "take 11 p = ''/api/admin/''" if "p \<in> (\<lambda>(m, p, k). p) ` set (admin_routes h)" for p
    using that unfolding admin_routes_def by (simp, elim disjE) simp_all
  moreover have "take 11 p \<noteq> ''/api/admin/''" if "p \<in> (\<lambda>(m, p, k). p) ` set (user_routes h)" for p
    using that unfolding user_routes_def by (simp, elim disjE) simp_all
  ultimately show False using user admin by blast
qed

text \<open>The token of a request is accepted, as that of \<open>info\<close>.\<close>

definition accepted_as :: "Deps \<Rightarrow> request \<Rightarrow> world \<Rightarrow> AuthInfo \<Rightarrow> bool" where
  "accepted_as h rq w info \<longleftrightarrow> (\<exists>tok w'. map_of (rq_Cookies rq) ''access_token'' = Some tok \<and>
     checkToken (dp_AuthMW h) tok (w\<lparr>w_nclock := Suc (w_nclock w)\<rparr>) = (Inr info, w'))"

text \<open>
  Without the token of a master an administrator's route does nothing but set the time of the caller's activity,
  and that only when the token is accepted.
\<close>

lemma admin_route_needs_master:
  assumes route: "is_admin_route h rq" and run: "serve_http h rq w = (r, w')"
    and role: "\<And>info. accepted_as h rq w info \<Longrightarrow> an_Role info \<noteq> RoleMaster"
  shows "\<exists>e. r = Inr (WriteError e) \<and> (only_logs (w_db w) (w_db w') \<or>
    (\<exists>info. accepted_as h rq w info \<and> quiet (an_UserID info) (w_db w) (w_db w')))"
proof -
  let ?cx = "\<lparr>cx_Request = rq, cx_Auth = None\<rparr>"
  have "is_protected h rq" using route unfolding is_protected_def is_admin_route_def image_Un by blast
  then obtain k where k: "route h ?cx =
      AuthMiddleware (dp_AuthMW h) (UserRateLimit (dp_ustr h) (ActivityUpdate (dp_Users h) (AdminMiddleware k))) ?cx"
    by (rule protected_route [of h rq ?cx]) (use user_route_not_admin [OF route] in auto)
  from run show ?thesis
  proof (cases rule: serve_http_effect)
    case (1 r0 w1)
    from 1(1) [unfolded k] show ?thesis
    proof (cases rule: AuthMiddleware_cases)
      case (1 e)
      with \<open>only_logs (w_db w1) (w_db w')\<close> \<open>r = _\<close> show ?thesis by auto
    next
      case 2
      with \<open>only_logs (w_db w1) (w_db w')\<close> \<open>r = _\<close> show ?thesis by auto
    next
      case (3 tok info v)
      have accepted: "accepted_as h rq w info" using 3(1,3) unfolding accepted_as_def by auto
      have v: "w_db v = w_db w" using silent [OF keeps_checkToken 3(3)] by simp
      from AdminMiddleware_refused [OF _ role [OF accepted] 3(4)] obtain e where
        "r0 = Inr (SetAuth ?cx info, WriteError e)" "quiet (an_UserID info) (w_db v) (w_db w1)" by (auto simp: SetAuth_def)
      with \<open>only_logs (w_db w1) (w_db w')\<close> \<open>r = _\<close> v accepted show ?thesis by (auto intro: quiet_logs)
    qed
  qed
qed

end
