(* ===== verification/Lockout.thy ===== *)
theory Lockout
  imports Access
begin

text \<open>
  Who stays out: the owner of a deleted account, whoever logged out, and a connection that has not
  authenticated; and two things the code does not mean to do: the end of an old connection closes
  the new one of its user, and without Redis every request with a token fails.
\<close>

subsection \<open>Deleted accounts\<close>

definition account_deleted :: "db \<Rightarrow> uuid \<Rightarrow> bool" where
  "account_deleted d i \<longleftrightarrow> (\<forall>u\<in>set (db_users d). user_ID u = i \<longrightarrow> IsDeleted u)"

lemma deleted_no_token:
  "account_deleted (w_db w) (an_UserID info) \<Longrightarrow> ac_Users cfg \<Longrightarrow> checkToken cfg tok w \<noteq> (Inr info, w')"
proof
  assume del: "account_deleted (w_db w) (an_UserID info)" "ac_Users cfg" and run: "checkToken cfg tok w = (Inr info, w')"
  from run show False
  proof (cases rule: checkToken_success)
    case (1 tk w1)
    with del show False by (auto simp: account_deleted_def)
  qed
qed

lemma Authenticate_success:
  assumes "Authenticate a tok w = (Inr i, w')"
  shows "\<exists>u\<in>set (db_users (w_db w)). user_ID u = i \<and> \<not> IsDeleted u"
proof -
  from assms obtain tk w1 w2 w3 x y where parse: "Parse (wa_Services a) tok w = (Inr tk, w1)"
    and rev: "checkRevoked (wa_Revoker a) (at_JTI tk) w1 = (Inr x, w2)"
    and out: "checkForcedLogout (wa_ForceLogout a) (at_UserID tk) (at_IssuedAt tk) w2 = (Inr y, w3)"
    and user: "\<exists>u w4. userRepo_FindByID (at_UserID tk) w3 = (Inr (Some u), w4) \<and> \<not> IsDeleted u \<and> i = at_UserID tk"
    unfolding Authenticate_def
    by (auto simp: andThen_success throw_success ret_success split: if_splits option.splits)
  have "w_db w1 = w_db w" by (rule silent [OF keeps_Parse parse])
  moreover have "w_db w2 = w_db w1" by (rule silent [OF keeps_wsChecks(1) rev])
  moreover have "w_db w3 = w_db w2" by (rule silent [OF keeps_wsChecks(2) out])
  ultimately show ?thesis using user by (auto dest!: findUser_success)
qed

lemma mapped_frame: "mapped r w = (x, w') \<Longrightarrow> w' = w"
  by (cases r) (auto simp: mapped_def mapErr_def lift_result_def)

lemma Login_success_user:
  assumes "Login a email p w = (Inr res, w')"
  shows "\<exists>u\<in>set (db_users (w_db w)). user_Email u = email \<and> user_ID u = lr_ID res \<and> \<not> IsDeleted u"
proof -
  from assms obtain found w2 where find: "findUserByEmailActive email w = (Inr found, w2)"
    and rest: "(case found of None \<Rightarrow> throw ErrUnauthorized | Some u \<Rightarrow>
         if \<not> PasswordVerify (au_Services a) (user_PasswordHash u) p then throw ErrUnauthorized
         else andThen now (\<lambda>t. andThen (WithTx (loginTx a u t)) (\<lambda>tokens.
         ret \<lparr>lr_AccessToken = st_AccessToken tokens, lr_RefreshToken = st_RefreshToken tokens,
              lr_ID = user_ID u, lr_Username = user_Username u,
              lr_Role = Role_string (user_Role u)\<rparr>))) w2 = (Inr res, w')"
    unfolding Login_def by (auto simp: andThen_success dest!: mapped_frame)
  from rest obtain u where "found = Some u" "user_ID u = lr_ID res"
    by (cases found) (auto simp: andThen_success throw_success ret_success split: if_splits)
  with account_names.findUserByEmailActive_success [OF find] show ?thesis by auto
qed

text \<open>Once the account is deleted, no token, password or message opens a session for it.\<close>

lemma deleted_account_stays_out:
  assumes "account_deleted (w_db w) i"
  shows "ac_Users cfg \<Longrightarrow> checkToken cfg tok w = (Inr info, w1) \<Longrightarrow> an_UserID info \<noteq> i"
    and "Authenticate wa tok w \<noteq> (Inr i, w2)"
    and "Login au email p w = (Inr res, w3) \<Longrightarrow> lr_ID res \<noteq> i"
  using deleted_no_token [of w info cfg tok w1] Authenticate_success [of wa tok w i w2]
    Login_success_user [of au email p w res w3] assms
  by (auto simp: account_deleted_def)

subsection \<open>Deleting an account\<close>

lemma AdminDeleteUser_effect:
  assumes "AdminDeleteUser a adm i w = (Inr x, w')" "accounts_inv (w_db w)"
  shows "account_deleted (w_db w') i" "\<forall>r\<in>set (db_tokens (w_db w')). token_UserID r = i \<longrightarrow> \<not> token_revocable r"
    "\<forall>e\<in>set (db_queue (w_db w')). entry_UserID e \<noteq> i" "adm \<noteq> i"
    "\<exists>v\<in>set (db_users (w_db w)). user_ID v = i \<and> CanMatch v"
proof -
  from assms(1) show "account_deleted (w_db w') i"
    "\<forall>r\<in>set (db_tokens (w_db w')). token_UserID r = i \<longrightarrow> \<not> token_revocable r"
    "\<forall>e\<in>set (db_queue (w_db w')). entry_UserID e \<noteq> i" "adm \<noteq> i"
    "\<exists>v\<in>set (db_users (w_db w)). user_ID v = i \<and> CanMatch v"
    by (cases rule: AdminDeleteUser_success;
        use deleted_db_effect [OF _ assms(2)] deletable_row in \<open>fastforce simp: account_deleted_def\<close>)+
qed

subsection \<open>A token that is used again\<close>

text \<open>Whatever a replay answers: no tokens; and if it is refused, the family was revoked before.\<close>

lemma Refresh_replay:
  assumes tok: "TrimSpace tok \<noteq> ''''" "Refresh a tok w = (r, w')"
    and old: "first_row token_ID (\<lambda>x. token_TokenHash x = RefreshHash (au_Services a) (TrimSpace tok))
      (db_tokens (w_db w)) = Some old" "token_Status old = RefreshTokenRevoked"
  shows "\<exists>e. r = Inl e \<and> (e = ErrUnauthorized \<longrightarrow> (\<exists>t. w_db w' = (w_db w)\<lparr>db_tokens :=
       update_rows (\<lambda>x. token_FamilyID x = token_FamilyID old \<and> token_revocable x) (token_revoke t)
         (db_tokens (w_db w))\<rparr>))"
proof -
  let ?t = "w_clock w (w_nclock w)" and ?w0 = "w\<lparr>w_nclock := Suc (w_nclock w)\<rparr>"
  show ?thesis
  proof (cases "w_faults w (w_nio w)")
    case True
    with tok show ?thesis
      by (auto simp: Refresh_def Let_def andThen_def now_def find_defs dbQuery_eval)
  next
    case False
    let ?w1 = "?w0\<lparr>w_nio := Suc (w_nio w)\<rparr>"
    obtain y v where run: "handleReusedRefreshToken a old ?t ?w1 = (y, v)" by fastforce
    have r: "r = (case y of Inl e \<Rightarrow> Inl e | Inr _ \<Rightarrow> Inl ErrUnauthorized)" "w' = v"
      using tok old False run
      by (auto simp: Refresh_def Let_def andThen_def now_def find_defs dbQuery_eval throw_def split: sum.splits)
    have tx: "(\<exists>e. fst (WithTx (revokeRefreshTokenFamily (token_FamilyID old) ?t) ?w1) = Inl e \<and> e = ErrIO) \<or>
        (\<exists>w2. WithTx (revokeRefreshTokenFamily (token_FamilyID old) ?t) ?w1 = (Inr (), w2) \<and>
          w_db w2 = (w_db w)\<lparr>db_tokens := update_rows (\<lambda>x. token_FamilyID x = token_FamilyID old \<and> token_revocable x)
            (token_revoke ?t) (db_tokens (w_db w))\<rparr>)"
      by (auto simp: WithTx_run commit_def revokeRefreshTokenFamily_def refreshTokenRepo_RevokeByFamilyID_def
          update_tokens_def andThen_def ret_def dbExec_eval)
    show ?thesis
    proof (cases "WithTx (revokeRefreshTokenFamily (token_FamilyID old) ?t) ?w1")
      case (Pair x w2)
      show ?thesis
      proof (cases x)
        case (Inl e)
        with tx Pair run r show ?thesis by (auto simp: handleReusedRefreshToken_def andThen_def)
      next
        case (Inr u)
        have "w_db v = w_db w2 \<and> y \<noteq> Inl ErrUnauthorized"
        proof (cases "au_WSSessions a")
          case None
          with run Pair Inr show ?thesis by (auto simp: handleReusedRefreshToken_def andThen_def ret_def)
        next
          case (Some ws)
          with run Pair Inr have del: "ignoreErr (SessionStore_DeleteUser ws (token_UserID old)) w2 = (y, v)"
            by (simp add: handleReusedRefreshToken_def andThen_def)
          have "\<And>I. keeps (\<lambda>w. I (w_db w)) (ignoreErr (SessionStore_DeleteUser ws (token_UserID old)))"
            by (intro keeps_ignoreErr keeps_sessions)
          from silent [OF this del] have "w_db v = w_db w2" .
          moreover have "y \<noteq> Inl ErrUnauthorized"
            using del by (auto simp: ignoreErr_def split: prod.splits sum.splits if_splits)
          ultimately show ?thesis ..
        qed
        with tx Pair Inr r show ?thesis by (auto split: sum.splits)
      qed
    qed
  qed
qed

subsection \<open>After a logout\<close>

lemma DeleteUser_redis:
  "ignoreErr (SessionStore_DeleteUser ws u) w = (r, w') \<Longrightarrow>
     r_get (JwtRevokedKey jti) t (w_redis w') = r_get (JwtRevokedKey jti) t (w_redis w)"
proof -
  have hub: "Hub_Disconnect u w = (Inr (), snd (Hub_Disconnect u w)) \<and> w_redis (snd (Hub_Disconnect u w)) = w_redis w" for w
    by (simp add: Hub_Disconnect_def close_client_def conn_Close_def Let_def split: option.split)
  have del: "r_get (JwtRevokedKey jti) t (w_redis (snd (DeleteUser s u v))) = r_get (JwtRevokedKey jti) t (w_redis v)" for s v
    by (cases s) (simp_all add: DeleteUser_def rdbCall_eval rdbCall_nil)
  assume run: "ignoreErr (SessionStore_DeleteUser ws u) w = (r, w')"
  then have "w' = snd (SessionStore_DeleteUser ws u w)"
    by (auto simp: ignoreErr_def split: prod.splits sum.splits if_splits)
  also have "r_get (JwtRevokedKey jti) t (w_redis \<dots>) = r_get (JwtRevokedKey jti) t (w_redis w)"
    using hub [of w] del [of _ "snd (Hub_Disconnect u w)"]
    by (cases ws) (auto simp: SessionStore_DeleteUser_def andThen_def ret_def split: prod.splits sum.splits)
  finally show ?thesis .
qed

lemma logoutTx_redis: "logoutTx u t w = (Inr x, w') \<Longrightarrow> w_redis w' = w_redis w"
  by (auto simp: logoutTx_def revokeRefreshTokensByUserID_def refreshTokenRepo_RevokeByUserID_def
      createLoginLog_def touchUserActivity_def success_iff find_defs split: option.splits if_splits)

lemma Logout_revokes:
  assumes run: "Logout a u jti exp w = (Inr x, w')" and rev: "au_JWTRevoker a = Some s"
    and mono: "\<And>m n. m \<le> n \<Longrightarrow> w_clock w m \<le> w_clock w n" and t: "t + 1000000 \<le> exp"
  shows "r_get (JwtRevokedKey jti) t (w_redis w') \<noteq> None"
proof -
  let ?t0 = "w_clock w (w_nclock w)" and ?t1 = "w_clock w (Suc (w_nclock w))"
  from run obtain w1 w2 y z v where pre: "jti \<noteq> ''''" "?t0 < exp"
    and revoke: "Revoke s jti (exp - ?t0) (w\<lparr>w_nclock := Suc (w_nclock w)\<rparr>) = (Inr y, w1)"
    and sess: "(case au_WSSessions a of None \<Rightarrow> ret () | Some ws \<Rightarrow> ignoreErr (SessionStore_DeleteUser ws u)) w1 = (Inr z, w2)"
    and tx: "WithTx (logoutTx u ?t0) w2 = (Inr v, w')"
    unfolding Logout_def by (auto simp: andThen_success ensure_success now_success rev)
  from revoke pre have "w_redis w1 = r_set (JwtRevokedKey jti) (RStr ''1'') (Some (?t1 + redis_ttl (exp - ?t0))) (w_redis w)"
    by (auto simp: Revoke_def rdbCall_success)
  moreover have "?t0 \<le> ?t1" by (rule mono) simp
  moreover have "exp - ?t0 < redis_ttl (exp - ?t0) + 1000000" by (rule redis_ttl_bounds)
  ultimately have "r_get (JwtRevokedKey jti) t (w_redis w1) \<noteq> None" using t by simp
  moreover have "r_get (JwtRevokedKey jti) t (w_redis w2) = r_get (JwtRevokedKey jti) t (w_redis w1)"
    using sess DeleteUser_redis by (auto simp: ret_success split: option.splits)
  moreover have "w_redis w' = w_redis w2"
    using tx by (auto simp: WithTx_success dest!: logoutTx_redis)
  ultimately show ?thesis by simp
qed

text \<open>
  Everything the program writes to Redis, it writes by one of these calls. A history of the store is what any
  requests and workers make of it one after the other, with anything in between that leaves Redis alone; where the
  token is revoked once more, the new entry lasts as long.
\<close>

datatype store_write =
    RevokeToken string duration
  | SetSession uuid string duration
  | DeleteSession uuid
  | TakeLock rkey duration
  | StartTurn uuid int uuid time time
  | EndTurn uuid
  | ForceLogout uuid time
  | WriteBackupStatus string time

fun store_call :: "store_write \<Rightarrow> unit go" where
  "store_call (RevokeToken jti ttl) = Revoke LiveStore jti ttl"
| "store_call (SetSession u c ttl) = SetUser LiveStore u c ttl"
| "store_call (DeleteSession u) = DeleteUser LiveStore u"
| "store_call (TakeLock k ttl) = andThen (AcquireLock LiveStore k ttl) (\<lambda>_. ret ())"
| "store_call (StartTurn g n p t e) = SetTurn LiveStore g n p t e"
| "store_call (EndTurn g) = DeleteTurn LiveStore g"
| "store_call (ForceLogout u t) = SetForceLogoutBefore LiveStore u t"
| "store_call (WriteBackupStatus st t) = SetBackupStatus LiveStore st t"

text \<open>A call that leaves a revocation in place until a time \<open>t\<close>.\<close>

fun leaves_revoked :: "string \<Rightarrow> time \<Rightarrow> world \<Rightarrow> store_write \<Rightarrow> bool" where
  "leaves_revoked jti t w (RevokeToken j ttl) \<longleftrightarrow> j = jti \<longrightarrow> t < w_clock w (w_nclock w) + redis_ttl ttl"
| "leaves_revoked jti t w (TakeLock k ttl) \<longleftrightarrow> k \<noteq> JwtRevokedKey jti"
| "leaves_revoked jti t w _ \<longleftrightarrow> True"

inductive store_history :: "string \<Rightarrow> time \<Rightarrow> world \<Rightarrow> world \<Rightarrow> bool" for jti t where
  start: "store_history jti t w w"
| other: "store_history jti t w v \<Longrightarrow> w_redis v' = w_redis v \<Longrightarrow> store_history jti t w v'"
| written: "store_history jti t w v \<Longrightarrow> leaves_revoked jti t v c \<Longrightarrow> store_call c v = (r, v') \<Longrightarrow>
     store_history jti t w v'"

lemma store_call_revoked:
  assumes "r_get (JwtRevokedKey jti) t (w_redis w) \<noteq> None" "leaves_revoked jti t w c"
  shows "r_get (JwtRevokedKey jti) t (w_redis (snd (store_call c w))) \<noteq> None"
  using assms
  by (cases c) (auto simp: Revoke_def SetUser_def DeleteUser_def AcquireLock_def SetTurn_def DeleteTurn_def
      SetForceLogoutBefore_def SetBackupStatus_def lockAcquireScript_def andThen_def ret_def rdbCall_eval Let_def
      split: option.splits)

lemma store_history_revoked:
  assumes "store_history jti t w v" "r_get (JwtRevokedKey jti) t (w_redis w) \<noteq> None"
  shows "r_get (JwtRevokedKey jti) t (w_redis v) \<noteq> None"
  using assms
proof (induction rule: store_history.induct)
  case (written w v c r v')
  with store_call_revoked [OF _ written.hyps(2)] show ?case by (metis snd_conv)
qed simp_all

subsection \<open>Messages\<close>

text \<open>
  A connection without a user: whatever it sends, the database stays but for the log of the
  connections, and it gets a user only through a token that is accepted.
\<close>

lemma writeError_frame: "writeError k co m w = (r, w') \<Longrightarrow> r = Inr () \<and> w_db w' = w_db w"
  by (auto simp: writeError_def writeJSON_def WriteMessage_def ignoreErr_def split: if_splits)

lemma writeUseCaseError_frame: "writeUseCaseError k e w = (r, w') \<Longrightarrow> r = Inr () \<and> w_db w' = w_db w"
  by (cases "wsErrorCode e") (auto simp: writeUseCaseError_def dest: writeError_frame)

lemma message_without_user:
  assumes "wc_userID c = uuid_nil" "handleMessage h cookie raw c w = (Inr c', w')"
    and "\<And>i w1. Authenticate (hd_WSAuth h) cookie w \<noteq> (Inr i, w1)"
  shows "c' = c \<and> w_db w' = w_db w"
proof (cases raw)
  case None
  with assms show ?thesis by (simp add: handleMessage_def ret_def)
next
  case (Some msg)
  let ?ty = "ToUpper (TrimSpace (msg_Type msg))"
  from assms(1,2) Some have auth: "handleAuth h cookie ?ty c w = (Inr c', w')"
    by (simp add: handleMessage_def Let_def)
  obtain res w1 where run: "Authenticate (hd_WSAuth h) cookie w = (res, w1)"
    by (cases "Authenticate (hd_WSAuth h) cookie w")
  with assms(3) obtain e where res: "res = Inl e" by (cases res) auto
  have "w_db w1 = w_db w" by (rule silent [OF keeps_Authenticate run])
  with auth run show ?thesis
    by (auto simp: handleAuth_def res andThen_def ret_def attempt_def split: if_splits prod.splits sum.splits
        dest!: writeError_frame writeUseCaseError_frame)
qed

subsection \<open>The end of an old connection\<close>

text \<open>
  Hub and session are looked up by user, so the end of a connection that has been replaced closes
  the connection that replaced it.
\<close>

lemma Hub_Disconnect_conn:
  "hub_conn w u = Some k \<Longrightarrow> Hub_Disconnect u w = (r, w') \<Longrightarrow>
     r = Inr () \<and> k \<in> w_closed w' \<and> hub_conn w' u = None"
  by (auto simp: hub_conn_def Hub_Disconnect_def close_client_def conn_Close_def Let_def delete_conv
      bind_eq_Some_conv split: option.splits)

definition hub_frame :: "world \<Rightarrow> world \<Rightarrow> bool" where
  "hub_frame w w' \<longleftrightarrow> w_hub w' = w_hub w \<and> w_closed w \<subseteq> w_closed w'"

lemma hub_frame_trans: "hub_frame w w' \<Longrightarrow> hub_frame w' w'' \<Longrightarrow> hub_frame w w''"
  by (auto simp: hub_frame_def)

lemma hub_frame_rdbCall: "hub_frame w (snd (rdbCall s f w))"
  by (cases s) (simp_all add: rdbCall_eval rdbCall_nil hub_frame_def)

lemma hub_frame_andThen:
  "(\<And>w. hub_frame w (snd (m w))) \<Longrightarrow> (\<And>x w. hub_frame w (snd (k x w))) \<Longrightarrow> hub_frame w (snd (andThen m k w))"
  by (auto simp: andThen_def split: prod.splits sum.splits)
    (metis hub_frame_trans snd_conv)+

lemma hub_frame_ignore: "hub_frame w (snd (m w)) \<Longrightarrow> hub_frame w (snd (ignoreErr m w))"
  by (auto simp: ignoreErr_def split: prod.splits sum.splits)

lemma hub_frame_attempt: "hub_frame w (snd (m w)) \<Longrightarrow> hub_frame w (snd (attempt m w))"
  by (auto simp: attempt_def split: prod.splits sum.splits)

lemma hub_frame_basic:
  "hub_frame w (snd (ret x w))" "hub_frame w (snd (throw e w))" "hub_frame w (snd (now w))"
  "hub_frame w (snd (dbQuery f w))" "hub_frame w (snd (dbExec g w))"
  "hub_frame w (snd (SendToUser u ty p w))"
  by (simp_all add: hub_frame_def ret_def throw_def now_def dbQuery_eval dbExec_eval SendToUser_def SendRaw_def
      WriteMessage_def split: option.split prod.split)

lemmas hub_frames = hub_frame_andThen hub_frame_ignore hub_frame_attempt hub_frame_basic hub_frame_rdbCall

lemma hub_frame_onDisconnect_rest:
  "hub_frame w (snd (andThen (case hd_Redis h of None \<Rightarrow> ret () | Some s \<Rightarrow> ignoreErr (DeleteUser s u)) (\<lambda>_.
     andThen (CloseConnectionLog i) (\<lambda>_. NotifyOpponentDisconnected (hd_WSAuth h) u)) w))"
  unfolding DeleteUser_def CloseConnectionLog_def wsConnectionLogRepo_UpdateDisconnected_def
    NotifyOpponentDisconnected_def notifyOpponent_def findActiveGameForUser_def gameRepo_ListByPlayerID_def
  by (auto intro!: hub_frames split: option.split sum.split)

lemma old_end_closes_new:
  assumes "wc_userID c = u" "u \<noteq> uuid_nil" "hub_conn w u = Some k" "handleEnd h c w = (Inr (), w')"
  shows "k \<in> w_closed w' \<and> hub_conn w' u = None"
proof -
  obtain w1 where dis: "Hub_Disconnect u w = (Inr (), w1)" "k \<in> w_closed w1" "hub_conn w1 u = None"
    using Hub_Disconnect_conn [OF assms(3)] by (cases "Hub_Disconnect u w") auto
  have "hub_frame w1 w'"
  proof -
    from assms(1,2,4) dis obtain w2 where
      rest: "andThen (case hd_Redis h of None \<Rightarrow> ret () | Some s \<Rightarrow> ignoreErr (DeleteUser s u)) (\<lambda>_.
        andThen (CloseConnectionLog (wc_wsLogID c)) (\<lambda>_. NotifyOpponentDisconnected (hd_WSAuth h) u)) w1 = (Inr (), w2)"
      and w': "w' = conn_Close (wc_conn c) w2"
      by (auto simp: handleEnd_def onDisconnect_def andThen_success)
    from hub_frame_onDisconnect_rest [where w = w1 and h = h and u = u and i = "wc_wsLogID c"] rest have "hub_frame w1 w2" by simp
    then show ?thesis by (auto simp: w' conn_Close_def hub_frame_def)
  qed
  with dis show ?thesis by (auto simp: hub_frame_def hub_conn_def)
qed

subsection \<open>Without Redis\<close>

text \<open>
  The configuration allows a program without Redis outside of production. Its store is the nil
  pointer in fields of interface types, which the code tests against \<open>nil\<close> in vain.
\<close>

lemma checkToken_nil_store:
  assumes "ac_Revoker cfg = Some NilStore" "Parse (ac_JWT cfg) tok w = (Inr tk, w1)"
  shows "checkToken cfg tok w = (Inl Panic, w1)"
  using assms by (simp add: checkToken_def andThen_def checkRevoked_def IsRevoked_jti_def rdbCall_def throw_def)

lemma no_redis_request_fails:
  assumes server: "main_server lib False backup cfg = Inr s" and route: "is_protected (se_Deps s) rq"
    and cookie: "map_of (rq_Cookies rq) ''access_token'' = Some tok" "tok \<noteq> ''''"
    and parses: "Parse (ac_JWT (dp_AuthMW (se_Deps s))) tok (w\<lparr>w_nclock := Suc (w_nclock w)\<rparr>) = (Inr tk, w1)"
  shows "fst (serve_http (se_Deps s) rq w) = Inr (WriteError ErrInternal)"
proof -
  let ?h = "se_Deps s" and ?cx = "\<lparr>cx_Request = rq, cx_Auth = None\<rparr>"
  have rev: "ac_Revoker (dp_AuthMW ?h) = Some NilStore"
    using server by (auto simp: main_server_def Let_def main_deps_def NewStore_def split: sum.splits)
  obtain k where k: "route ?h ?cx =
      AuthMiddleware (dp_AuthMW ?h) (UserRateLimit (dp_ustr ?h) (ActivityUpdate (dp_Users ?h) k)) ?cx"
    by (rule protected_route [OF route, of ?cx]) auto
  have panic: "fst (route ?h ?cx (w\<lparr>w_nclock := Suc (w_nclock w)\<rparr>)) = Inl Panic"
    using checkToken_nil_store [OF rev parses] by (simp add: k AuthMiddleware_def cookie andThen_def attempt_def)
  obtain r w' where run: "serve_http ?h rq w = (r, w')" by (cases "serve_http ?h rq w")
  from run show ?thesis
  proof (cases rule: serve_http_effect)
    case (1 r0 w1)
    with panic have "r0 = Inl Panic" by simp
    with 1(3) run show ?thesis by simp
  qed
qed

end
