(* ===== verification/SampleServer.thy ===== *)
theory SampleServer
  imports Scenario Setup Play Workers Lockout Findings
begin

text \<open>
  The whole program on the libraries of \<open>Samples\<close>: an environment, drivers that work, and the server
  they start. The witnesses of the properties of the whole program run it.
\<close>

definition sample_drivers :: "unit Drivers" where
  "sample_drivers = \<lparr>dr_open = (\<lambda>_. Inr ()), dr_DB = (\<lambda>_. Inr ()), dr_autoMigrate = (\<lambda>_. None),
     dr_exec = (\<lambda>_ _. None), dr_parseURL = (\<lambda>u. Inr \<lparr>ro_Addr = u, ro_Password = [], ro_DB = 0\<rparr>),
     dr_ping = (\<lambda>_. None)\<rparr>"

definition sample_mergers :: mergers where
  "sample_mergers = \<lparr>mg_user = (\<lambda>_ r. r), mg_game = (\<lambda>_ r. r), mg_guess = (\<lambda>_ r. r),
     mg_history = (\<lambda>_ r. r), mg_ranking = (\<lambda>_ r. r), mg_actlog = (\<lambda>_ r. r), mg_loginlog = (\<lambda>_ r. r)\<rparr>"

definition sample_libraries :: Libraries where
  "sample_libraries = \<lparr>lb_services = sample_services, lb_hmac = (\<lambda>k m. [last m]), lb_ustr = (\<lambda>u. ''g''),
     lb_ilike = (\<lambda>_ _. True), lb_jtext = (\<lambda>_. ''{}''), lb_parseTime = (\<lambda>_. None),
     lb_mergers = sample_mergers\<rparr>"

text \<open>An environment with the address of Redis, which may be empty.\<close>

definition sample_env :: "string \<Rightarrow> env" where
  "sample_env addr key =
     (if key = ''DATABASE_URL'' then ''postgres://db''
      else if key = ''JWT_SECRET'' then ''secret-secret-secret-secret-secret-secret''
      else if key = ''GAME_SECRET_PEPPER'' then ''pepper-pepper-pepper-pepper-pepper-pepper''
      else if key = ''REDIS_ADDR'' then addr else [])"

definition sample_config :: "string \<Rightarrow> Config" where
  "sample_config addr = read_config (sample_env addr)"

definition sample_server :: "string \<Rightarrow> Server" where
  "sample_server addr = projr (program sample_drivers sample_libraries (sample_env addr))"

lemma TrimSpace_Nil: "TrimSpace [] = []"
proof -
  have "trim_left ws [] = []" for ws by (subst trim_left.simps) (auto simp: find_Some_iff split: option.split)
  then show ?thesis by (simp add: TrimSpace_def)
qed

lemma sample_env_loads: "LoadFromEnv (sample_env addr) = Inr (sample_config addr)"
  by (simp add: LoadFromEnv_def read_config_def sample_config_def sample_env_def Let_def envInt_def
      envBool_def envString_def TrimSpace_Nil)

lemma sample_settings: "settings_valid (sample_env addr)"
  using LoadFromEnv_valid sample_env_loads by blast

lemma sample_drivers_open: "database_opens sample_drivers m dsn" "redis_answers sample_drivers getenv"
  by (simp_all add: database_opens_def redis_answers_def sample_drivers_def Let_def)

lemma sample_program: "program sample_drivers sample_libraries (sample_env addr) = Inr (sample_server addr)"
  using program_starts [of sample_drivers sample_libraries "sample_env addr"] sample_settings sample_drivers_open
  by (auto simp: sample_server_def Let_def)

lemma sample_server_main:
  "\<exists>redis backup. main_server sample_libraries redis backup (sample_config addr) = Inr (sample_server addr)"
  using program_Inr [OF sample_program, of addr] sample_env_loads by auto

lemma main_server_parts:
  assumes "main_server lib redis backup cfg = Inr s"
  shows "uc_Secrets (hd_Game (se_WS s)) =
      \<lparr>h_hmac = lb_hmac lib, h_pepper = cf_GameSecretPepper cfg, h_ustr = lb_ustr lib\<rparr>"
    "ac_JWT (dp_AuthMW (se_Deps s)) = main_services lib (cf_JWTSecret cfg, cf_JWTExpiryMinutes cfg)"
    "uc_Turns (hd_Game (se_WS s)) = Some (NewStore redis)"
    "uc_SecretSetup (hd_Game (se_WS s)) = cf_SecretSetupDuration cfg"
  using assms
  by (auto simp: main_server_def main_ws_def main_deps_def main_game_def NewGameUseCase_def NewSecretHashService_def
      NewJWTService_def Let_def split: sum.splits if_splits)

lemma sample_server_hasher: "uc_Secrets (hd_Game (se_WS (sample_server addr))) = sample_hasher"
proof -
  have "cf_GameSecretPepper (sample_config addr) = ''pepper-pepper-pepper-pepper-pepper-pepper''"
    by (simp add: sample_config_def read_config_def sample_env_def)
  with sample_server_main [of addr] show ?thesis
    by (auto simp: main_server_parts(1) sample_libraries_def sample_hasher_def)
qed

subsection \<open>Requests\<close>

definition sample_request :: "string \<Rightarrow> string \<Rightarrow> (string \<times> string) list \<Rightarrow> request" where
  "sample_request m p cookies = \<lparr>rq_Method = m, rq_Path = p, rq_RealIP = ''10.0.0.1'', rq_Params = [],
     rq_Query = [], rq_Cookies = cookies, rq_Body = None\<rparr>"

lemma sample_protected:
  "is_protected h (sample_request ''GET'' ''/api/me'' cookies)"
  "is_admin_route h (sample_request ''GET'' ''/api/admin/users'' cookies)"
  by (simp_all add: is_protected_def is_admin_route_def sample_request_def user_routes_def admin_routes_def)

text \<open>What evaluating an operation on the sample world unfolds.\<close>

lemmas sample_eval = find_defs first_row_def redis_ttl_def userRepo_Update_def save_row_def update_rows_def delete_rows_def
  insert_row_def Let_def sample_world_simps IsDeleted_def IsMaster_def r_get_def r_set_def rdbCall_eval
  refreshTokenRepo_RevokeByUserID_def update_tokens_def revokeRefreshTokensByUserID_def createLoginLog_def
  loginLogRepo_Create_def recordActivityLog_def activityLogRepo_Create_def mapErr_def

subsection \<open>States\<close>

lemma running_server_inv: "server_inv sample_hasher (w_db running_world)"
proof -
  have "players_can_play (w_db running_world)"
    by (auto simp: players_can_play_def active_player_def playable_def IsParticipant_def CanMatch_def
        IsDeleted_def IsMaster_def scenario_simps)
  then show ?thesis
    by (simp add: server_inv_def duel_inv_running accounts_inv_def queue_inv_def)
      (simp add: scenario_simps)
qed

definition sample_sys :: "world \<Rightarrow> sys" where
  "sample_sys w = \<lparr>sy_world = w, sy_conns = [], sy_autoLogout = None, sy_up = True\<rparr>"

text \<open>After the first guess of the running game, and after a start of the program on that database.\<close>

definition played_world :: world where
  "played_world = snd (submitGuessTx sample_uc 1 50 [1, 2, 3, 4] False running_world)"

lemma played_world_facts:
  "server_inv sample_hasher (w_db played_world)"
  "\<exists>g\<in>set (db_games (w_db played_world)). game_guesses (w_db played_world) g \<noteq> []"
proof -
  obtain result finished where
    "fst (submitGuessTx sample_uc 1 50 [1, 2, 3, 4] False running_world) = Inr (result, finished)"
    using submitGuessTx_accepted [of sample_uc running_world 1 sample_running "[1, 2, 3, 4]" False] duel_inv_running
      sample_writable sample_fresh running_facts by auto
  then have run: "submitGuessTx sample_uc 1 50 [1, 2, 3, 4] False running_world = (Inr (result, finished), played_world)"
    by (simp add: played_world_def prod_eq_iff)
  show "server_inv sample_hasher (w_db played_world)"
    using server_inv_submitGuessTx [OF _ _ run] running_server_inv sample_digits by simp
  obtain a where a: "stored_duel sample_hasher (w_db running_world) 50 a" using running_stored by blast
  from submitGuessTx_refines [OF _ sample_digits(1) run, of a] a duel_inv_running sample_digests_differ
  obtain slot a' where moved: "duel_guess a slot [1, 2, 3, 4] = Some (a', gr_DigitResults result)"
    and stored: "stored_duel sample_hasher (w_db played_world) 50 a'" by fastforce
  have "duel_moves a' \<noteq> []" using moved by (auto simp: duel_guess_def split: if_splits option.splits)
  moreover from stored obtain g where "g \<in> set (db_games (w_db played_world))"
    "map guess_GuessNumber (game_guesses (w_db played_world) g) = map format_digits (duel_moves a')"
    by (auto simp: stored_duel_def refines_def)
  moreover have "game_guesses (w_db played_world) g \<noteq> []"
    using \<open>map guess_GuessNumber _ = _\<close> \<open>duel_moves a' \<noteq> []\<close> by (metis Nil_is_map_conv)
  ultimately show "\<exists>g\<in>set (db_games (w_db played_world)). game_guesses (w_db played_world) g \<noteq> []" by blast
qed

lemma booted_guess:
  "\<exists>g r. g \<in> set (db_games (w_db (sy_world (booted (sample_server addr) played_world)))) \<and>
     r \<in> set (game_guesses (w_db (sy_world (booted (sample_server addr) played_world))) g)"
proof -
  let ?d = "w_db played_world" and ?d' = "w_db (sy_world (booted (sample_server addr) played_world))"
  obtain g r where g: "g \<in> set (db_games ?d)" "r \<in> set (db_guesses ?d)" "guess_GameID r = game_ID g"
    using played_world_facts(2) by (fastforce simp: game_guesses_def filter_empty_conv)
  have "nothing_lost ?d ?d'"
    using history.reachable_keeps [OF reachable.start HOL.refl, where ?d0.0 = ?d and w = played_world and s = "sample_server addr"]
      played_world_facts(1) by (simp add: sample_server_hasher)
  with g(1,2) obtain g' where "g' \<in> set (db_games ?d')" "game_later g g'" "r \<in> set (db_guesses ?d')"
    unfolding nothing_lost_def by blast
  with g(3) have "g' \<in> set (db_games ?d') \<and> r \<in> set (game_guesses ?d' g')"
    by (simp add: game_guesses_def game_later_def same_game_def)
  then show ?thesis by blast
qed

subsection \<open>Data of the use cases\<close>

definition sample_entry :: queue_entry where
  "sample_entry = \<lparr>entry_ID = 60, entry_UserID = 2, entry_Status = MatchingQueueWaiting, entry_CreatedAt = 0\<rparr>"

definition sample_admin :: AdminUseCase where
  "sample_admin = \<lparr>ad_Ranking = True, ad_WSSessions = None, ad_ForceLogout = None, ad_BackupStatus = None,
     ad_Locks = None, ad_AdminLockTTL = 0\<rparr>"

definition sample_authmw :: AuthConfig where
  "sample_authmw = \<lparr>ac_JWT = sample_services, ac_Revoker = Some LiveStore, ac_ForceLogout = None, ac_Users = False\<rparr>"

definition sample_handler :: Handler where
  "sample_handler = \<lparr>hd_WSAuth = \<lparr>wa_Services = sample_services, wa_Revoker = None, wa_ForceLogout = None,
     wa_Notifier = False\<rparr>, hd_Game = sample_uc, hd_Allowed = [], hd_Redis = None, hd_JWTMin = 60\<rparr>"

definition sample_backup :: BackupUseCase where
  "sample_backup = \<lparr>bu_Syncer = True, bu_BackupStatus = Some LiveStore, bu_MaxRetries = 0\<rparr>"

definition sample_retention :: LogRetentionUseCase where
  "sample_retention = \<lparr>lr_ActivityDays = 90, lr_LoginDays = 0, lr_WSDays = 30, lr_BatchSize = 0, lr_BatchSleep = 0\<rparr>"

definition sample_log :: activity_log where
  "sample_log = \<lparr>actlog_ID = 7, actlog_UserID = None, actlog_LogType = ''=cmd'', actlog_Detail = [],
     actlog_CreatedAt = 0, actlog_UpdatedAt = 0\<rparr>"

definition sample_result :: "time \<Rightarrow> match_history" where
  "sample_result t = \<lparr>history_ID = 80 + of_int t, history_GameID = 90 + of_int t, history_WinnerID = 1, history_LoserID = 2,
     history_WinnerUsername = ''alice'', history_LoserUsername = ''bob'', history_FinishedAt = t,
     history_CreatedAt = t, history_UpdatedAt = t\<rparr>"

lemma sample_mergers_update: "updates_all sample_mergers"
  by (simp add: updates_all_def overwrites_def sample_mergers_def copy_of_user_def copy_of_game_def
      copy_of_guess_def copy_of_history_def copy_of_ranking_def copy_of_actlog_def copy_of_loginlog_def)

lemma sample_server_parses:
  assumes "tok \<noteq> []"
  shows "\<exists>tk w1. Parse (ac_JWT (dp_AuthMW (se_Deps (sample_server addr)))) tok w = (Inr tk, w1) \<and> at_Role tk = RoleUser"
proof -
  obtain redis backup where "main_server sample_libraries redis backup (sample_config addr) = Inr (sample_server addr)"
    using sample_server_main by blast
  from main_server_parts(2) [OF this] assms show ?thesis
    by (simp add: Parse_def main_services_def sample_libraries_def sample_services_def run_simps Role_of_def)
qed

lemma sample_server_setup: "uc_SecretSetup (hd_Game (se_WS (sample_server addr))) = 60 * second"
proof -
  have "cf_SecretSetupSeconds (sample_config addr) = 60"
    by (simp add: sample_config_def read_config_def sample_env_def envInt_def)
  then have "cf_SecretSetupDuration (sample_config addr) = 60 * second"
    using go_duration_positive [of 60 second] by (simp add: cf_SecretSetupDuration_def)
  then show ?thesis using sample_server_main [of addr] main_server_parts(4) by metis
qed

text \<open>A hundred seconds later, a game that waits for its secrets is overdue.\<close>

definition late_world :: world where
  "late_world = (on_postgres waiting_world)\<lparr>w_nclock := 100\<rparr>"

lemma late_world_facts:
  "writable late_world" "m \<le> n \<Longrightarrow> w_clock late_world m \<le> w_clock late_world n"
  "100 * second \<le> w_clock late_world (w_nclock late_world)" "w_db late_world = w_db waiting_world"
  "uc_SecretSetup c = 60 * second \<Longrightarrow> overdue c (100 * second) sample_waiting"
  using sample_postgres(1)
  by (simp_all add: late_world_def writable_def no_faults_def overdue_def scenario_simps)

end
