(* ===== verification/Tasks.thy ===== *)
theory Tasks
  imports Store
begin

text \<open>
  Requests that run at the same time. Between two calls to a server (a statement, a command of Redis,
  a message to a client) another request can run, so a handler is here a task: it is over, or its next
  call changes the world and says how the task goes on. A transaction is one call: the model takes
  the transactions of the database to be serializable. Run alone, a task is the program the other
  theories speak about (\<open>alone\<close>). A pool of tasks interleaves by the relation \<open>interleave\<close>; what
  every call preserves, whatever the others have done since the task's last one, is preserved by
  every interleaving (the locale \<open>rely_guarantee\<close>).
\<close>

subsection \<open>Tasks\<close>

datatype ('s, 'a) task =
    Done "go_error + 'a"
  | Call "'s \<Rightarrow> ('s, 'a) task \<times> 's"

definition call :: "('s, go_error, 'a) prog \<Rightarrow> ('s, 'a) task" where
  "call m = Call (\<lambda>w. case m w of (r, w') \<Rightarrow> (Done r, w'))"

text \<open>A pure computation that may fail, and \<open>if !b { return e }\<close>.\<close>

definition liftT :: "go_error + 'a \<Rightarrow> ('s, 'a) task" where
  "liftT r = Done r"

abbreviation retT :: "'a \<Rightarrow> ('s, 'a) task" where
  "retT x \<equiv> Done (Inr x)"

abbreviation throwT :: "go_error \<Rightarrow> ('s, 'a) task" where
  "throwT e \<equiv> Done (Inl e)"

definition ensureT :: "bool \<Rightarrow> go_error \<Rightarrow> ('s, unit) task" where
  "ensureT b e = (if b then retT () else throwT e)"

definition requireT :: "'a option \<Rightarrow> go_error \<Rightarrow> ('s, 'a) task" where
  "requireT found e = (case found of None \<Rightarrow> throwT e | Some x \<Rightarrow> retT x)"

primrec thenT :: "('s, 'a) task \<Rightarrow> ('a \<Rightarrow> ('s, 'b) task) \<Rightarrow> ('s, 'b) task" where
  "thenT (Done r) k = (case r of Inl e \<Rightarrow> Done (Inl e) | Inr x \<Rightarrow> k x)"
| "thenT (Call f) k = Call (map_prod (\<lambda>t. thenT t k) id \<circ> f)"

text \<open>\<open>x, err := f()\<close> whose error the caller inspects itself, and \<open>_ = f()\<close>.\<close>

primrec attemptT :: "('s, 'a) task \<Rightarrow> ('s, go_error + 'a) task" where
  "attemptT (Done r) = Done (case r of
     Inl e \<Rightarrow> if e = Panic then Inl Panic else Inr (Inl e) | Inr x \<Rightarrow> Inr (Inr x))"
| "attemptT (Call f) = Call (map_prod attemptT id \<circ> f)"

definition ignoreT :: "('s, 'a) task \<Rightarrow> ('s, unit) task" where
  "ignoreT t = thenT (attemptT t) (\<lambda>_. retT ())"

fun forEachT :: "'x list \<Rightarrow> ('x \<Rightarrow> ('s, unit) task) \<Rightarrow> ('s, unit) task" where
  "forEachT [] body = retT ()"
| "forEachT (x # xs) body = thenT (body x) (\<lambda>_. forEachT xs body)"

subsection \<open>A task alone\<close>

primrec alone :: "('s, 'a) task \<Rightarrow> ('s, go_error, 'a) prog" where
  "alone (Done r) = lift_result r"
| "alone (Call f) = (\<lambda>w. case (map_prod alone id \<circ> f) w of (m, w') \<Rightarrow> m w')"

named_theorems alone_simps \<open>what tasks do alone\<close>

lemma alone_Done [alone_simps]: "alone (retT x) = ret x" "alone (throwT e) = throw e"
  "alone (liftT r) = lift_result r" "alone (ensureT b e) = ensure b e"
  by (simp_all add: liftT_def ensureT_def ensure_def lift_result_def ret_def throw_def)

lemma alone_requireT [alone_simps]: "alone (requireT x e) = require x e" for x :: "'a option"
  by (cases x) (simp_all only: requireT_def require_def alone_Done option.case)

declare alone.simps(1) [simp del]

lemma alone_call [alone_simps]: "alone (call m) = m"
  by (rule ext) (simp add: call_def alone.simps lift_result_def split: prod.split)

lemma fst_in_fsts: "fst p \<in> Basic_BNFs.fsts p"
  by (cases p) simp

lemma alone_Call: "alone (Call f) w = alone (fst (f w)) (snd (f w))"
  by (simp add: case_prod_beta)

lemma alone_thenT [alone_simps]: "alone (thenT t k) = andThen (alone t) (\<lambda>x. alone (k x))"
proof (induction t)
  case (Done r)
  show ?case by (cases r) (simp_all add: alone.simps lift_result_def andThen_def fun_eq_iff)
next
  case (Call f)
  have "alone (thenT (fst (f w)) k) = andThen (alone (fst (f w))) (\<lambda>x. alone (k x))" for w
    by (rule Call.IH [OF rangeI [of f w] fst_in_fsts])
  then show ?case by (simp add: fun_eq_iff alone_Call andThen_def del: alone.simps)
qed

lemma alone_attemptT [alone_simps]: "alone (attemptT t) = attempt (alone t)" for t :: "(world, 'a) task"
proof (induction t)
  case (Done r)
  show ?case by (cases r) (simp_all add: alone.simps lift_result_def attempt_def fun_eq_iff)
next
  case (Call f)
  have "alone (attemptT (fst (f w))) = attempt (alone (fst (f w)))" for w
    by (rule Call.IH [OF rangeI [of f w] fst_in_fsts])
  then show ?case by (simp add: fun_eq_iff alone_Call attempt_def del: alone.simps)
qed

lemma alone_ignoreT [alone_simps]: "alone (ignoreT t) = ignoreErr (alone t)" for t :: "(world, 'a) task"
  by (rule ext) (simp add: ignoreT_def alone_simps attempt_def ignoreErr_def andThen_def ret_def
      split: prod.split sum.split)

lemma alone_forEachT [alone_simps]: "alone (forEachT xs body) = forEach xs (\<lambda>x. alone (body x))"
  by (induction xs) (simp_all add: alone_simps)

lemma alone_if [alone_simps]: "alone (if b then t else u) = (if b then alone t else alone u)"
  by simp

lemma alone_case_option [alone_simps]:
  "alone (case x of None \<Rightarrow> t | Some y \<Rightarrow> u y) = (case x of None \<Rightarrow> alone t | Some y \<Rightarrow> alone (u y))"
  by (simp split: option.split)

lemma alone_case_sum [alone_simps]:
  "alone (case x of Inl e \<Rightarrow> t e | Inr y \<Rightarrow> u y) = (case x of Inl e \<Rightarrow> alone (t e) | Inr y \<Rightarrow> alone (u y))"
  by (simp split: sum.split)

lemma alone_case_prod [alone_simps]:
  "alone (case x of (a, b) \<Rightarrow> t a b) = (case x of (a, b) \<Rightarrow> alone (t a b))"
  by (simp split: prod.split)

text \<open>The first calls of a task, for runs that another request interrupts.\<close>

fun advance :: "nat \<Rightarrow> ('s, 'a) task \<times> 's \<Rightarrow> ('s, 'a) task \<times> 's" where
  "advance 0 s = s"
| "advance (Suc n) (Done r, w) = (Done r, w)"
| "advance (Suc n) (Call f, w) = advance n (f w)"

lemma advance_call: "m w = (Inr x, w') \<Longrightarrow> advance (Suc n) (thenT (call m) k, w) = advance n (k x, w')"
  by (simp add: call_def)

subsection \<open>Pools of tasks\<close>

text \<open>
  A request arrives, or one of the requests that are there makes its next call. Which one is open: every
  schedule is possible.
\<close>

type_synonym 's pool = "'s \<times> ('s, unit) task list"

inductive interleave :: "(('s, unit) task \<Rightarrow> bool) \<Rightarrow> 's pool \<Rightarrow> 's pool \<Rightarrow> bool" for P where
  arrive: "P t \<Longrightarrow> interleave P (w, ts) (w, ts @ [t])"
| call: "i < length ts \<Longrightarrow> ts ! i = Call f \<Longrightarrow> f w = (t, w') \<Longrightarrow> interleave P (w, ts) (w', ts[i := t])"

inductive_cases interleaveE: "interleave P s s'"

inductive interleaved :: "(('s, unit) task \<Rightarrow> bool) \<Rightarrow> 's pool \<Rightarrow> 's pool \<Rightarrow> bool" for P where
  none: "interleaved P s s"
| more: "interleaved P s s' \<Longrightarrow> interleave P s' s'' \<Longrightarrow> interleaved P s s''"

subsection \<open>What every interleaving preserves\<close>

text \<open>
  A task is safe from a world on when each of its calls, made in any later sound world, leaves a
  sound and later world. \<open>J\<close> says which worlds are sound, \<open>R\<close> which come later.
\<close>

primrec safe :: "('s \<Rightarrow> bool) \<Rightarrow> ('s \<Rightarrow> 's \<Rightarrow> bool) \<Rightarrow> ('s, 'a) task \<Rightarrow> 's \<Rightarrow> bool" where
  "safe J R (Done r) = (\<lambda>w. True)"
| "safe J R (Call f) = (\<lambda>w. \<forall>v. J v \<longrightarrow> R w v \<longrightarrow>
     (case (map_prod (safe J R) id \<circ> f) v of (s, v') \<Rightarrow> J v' \<and> R v v' \<and> s v'))"

named_theorems safe_intros \<open>rules for safe tasks, syntax directed\<close>

declare safe.simps(2) [simp del]

lemma safe_Call:
  "safe J R (Call f) w \<longleftrightarrow> (\<forall>v. J v \<longrightarrow> R w v \<longrightarrow>
     J (snd (f v)) \<and> R v (snd (f v)) \<and> safe J R (fst (f v)) (snd (f v)))"
  unfolding safe.simps(2) by (simp add: case_prod_beta)

lemma safe_Done [safe_intros]: "safe J R (Done r) w" "safe J R (liftT x) w" "safe J R (ensureT b e) w"
  "safe J R (requireT y e) w"
  by (simp_all add: liftT_def ensureT_def requireT_def split: option.split)

lemma call_eq: "call m = Call (\<lambda>v. (Done (fst (m v)), snd (m v)))"
  by (simp add: call_def case_prod_beta)

lemma then_call_eq:
  "thenT (call m) k = Call (\<lambda>v. (case fst (m v) of Inl e \<Rightarrow> Done (Inl e) | Inr x \<Rightarrow> k x, snd (m v)))"
  by (simp add: call_eq comp_def)

locale rely_guarantee =
  fixes J :: "'s \<Rightarrow> bool" and R :: "'s \<Rightarrow> 's \<Rightarrow> bool"
  assumes later_refl: "J w \<Longrightarrow> R w w"
    and later_trans: "R u v \<Longrightarrow> R v w \<Longrightarrow> R u w"
begin

lemma safe_later:
  assumes "safe J R t w" "R w w'"
  shows "safe J R t w'"
proof (cases t)
  case (Call f)
  have "R w v" if "R w' v" for v using assms(2) that by (rule later_trans)
  with assms(1) show ?thesis by (simp add: Call safe_Call)
qed simp

text \<open>A call that is sound in every sound world.\<close>

definition steady :: "('s, go_error, 'a) prog \<Rightarrow> bool" where
  "steady m \<longleftrightarrow> (\<forall>v. J v \<longrightarrow> J (snd (m v)) \<and> R v (snd (m v)))"

lemma safe_then_call:
  assumes "\<And>v r v'. J v \<Longrightarrow> R w v \<Longrightarrow> m v = (r, v') \<Longrightarrow>
    J v' \<and> R v v' \<and> (case r of Inl e \<Rightarrow> True | Inr x \<Rightarrow> safe J R (k x) v')"
  shows "safe J R (thenT (call m) k) w"
  unfolding then_call_eq safe_Call
proof (intro allI impI, unfold fst_conv snd_conv)
  fix v assume "J v" "R w v"
  from assms [OF this prod.collapse [symmetric]]
  show "J (snd (m v)) \<and> R v (snd (m v)) \<and>
      safe J R (case fst (m v) of Inl e \<Rightarrow> Done (Inl e) | Inr x \<Rightarrow> k x) (snd (m v))"
    by (cases "fst (m v)") simp_all
qed

lemma safe_call:
  assumes "\<And>v. J v \<Longrightarrow> R w v \<Longrightarrow> J (snd (m v)) \<and> R v (snd (m v))"
  shows "safe J R (call m) w"
  using assms by (simp add: call_eq safe_Call)

lemma safe_steady: "steady m \<Longrightarrow> safe J R (call m) w"
  by (rule safe_call) (simp add: steady_def)

lemma safe_then:
  assumes "safe J R t w" "\<And>x v. R w v \<Longrightarrow> J v \<Longrightarrow> safe J R (k x) v" "J w"
  shows "safe J R (thenT t k) w"
  using assms
proof (induction t arbitrary: w)
  case (Done r)
  then show ?case by (cases r) (simp_all add: later_refl)
next
  case (Call f)
  have "J (snd (f v)) \<and> R v (snd (f v)) \<and> safe J R (thenT (fst (f v)) k) (snd (f v))"
    if v: "J v" "R w v" for v
  proof -
    from Call.prems(1) v have ok: "J (snd (f v))" "R v (snd (f v))" "safe J R (fst (f v)) (snd (f v))"
      by (simp_all add: safe_Call)
    have "R w (snd (f v))" by (rule later_trans [OF v(2) ok(2)])
    then have k: "R (snd (f v)) u \<Longrightarrow> J u \<Longrightarrow> safe J R (k x) u" for x u
      by (intro Call.prems(2)) (erule later_trans)
    have "safe J R (thenT (fst (f v)) k) (snd (f v))"
      by (rule Call.IH [OF rangeI [of f v] fst_in_fsts ok(3) k ok(1)])
    with ok show ?thesis by simp
  qed
  then show ?case by (simp add: safe_Call)
qed

lemma safe_attemptT: "safe J R t w \<Longrightarrow> safe J R (attemptT t) w"
proof (induction t arbitrary: w)
  case (Call f)
  have "safe J R (attemptT (fst (f v))) (snd (f v))" if "safe J R (fst (f v)) (snd (f v))" for v
    by (rule Call.IH [OF rangeI [of f v] fst_in_fsts that])
  with Call.prems show ?case by (simp add: safe_Call)
qed simp

lemma safe_ignoreT: "safe J R t w \<Longrightarrow> J w \<Longrightarrow> safe J R (ignoreT t) w"
  unfolding ignoreT_def by (rule safe_then) (simp_all add: safe_attemptT)

lemma safe_forEachT:
  assumes "\<And>x v. J v \<Longrightarrow> R w v \<Longrightarrow> safe J R (body x) v" "J w"
  shows "safe J R (forEachT xs body) w"
  using assms
proof (induction xs arbitrary: w)
  case (Cons x xs)
  have "safe J R (forEachT xs body) v" if "R w v" "J v" for v
    by (rule Cons.IH) (use Cons.prems(1) later_trans [OF that(1)] that(2) in auto)
  with Cons.prems later_refl show ?case by (auto intro: safe_then)
qed simp

text \<open>A task that is safe from every sound world on. The rules follow its syntax.\<close>

definition ok :: "('s, 'a) task \<Rightarrow> bool" where
  "ok t \<longleftrightarrow> (\<forall>w. J w \<longrightarrow> safe J R t w)"

lemma ok_Done [safe_intros]: "ok (Done r)" "ok (liftT x)" "ok (ensureT b e)" "ok (requireT y e)"
  by (simp_all add: ok_def safe_Done)

lemma ok_call: "steady m \<Longrightarrow> ok (call m)"
  by (simp add: ok_def safe_steady)

lemma ok_then [safe_intros]: "ok t \<Longrightarrow> (\<And>x. ok (k x)) \<Longrightarrow> ok (thenT t k)"
  by (auto simp: ok_def intro: safe_then)

lemma ok_then_lift: "(\<And>x. r = Inr x \<Longrightarrow> ok (k x)) \<Longrightarrow> ok (thenT (liftT r) k)"
  by (cases r) (auto simp: liftT_def ok_Done)

lemma ok_attempt [safe_intros]: "ok t \<Longrightarrow> ok (attemptT t)" "ok t \<Longrightarrow> ok (ignoreT t)"
  by (auto simp: ok_def intro: safe_attemptT safe_ignoreT)

lemma ok_forEachT [safe_intros]: "(\<And>x. ok (body x)) \<Longrightarrow> ok (forEachT xs body)"
  by (auto simp: ok_def intro: safe_forEachT)

lemma ok_cases [safe_intros]: "(b \<Longrightarrow> ok t) \<Longrightarrow> (\<not> b \<Longrightarrow> ok u) \<Longrightarrow> ok (if b then t else u)"
  "ok t \<Longrightarrow> (\<And>y. ok (g y)) \<Longrightarrow> ok (case x of None \<Rightarrow> t | Some y \<Rightarrow> g y)"
  "(\<And>e. ok (p e)) \<Longrightarrow> (\<And>y. ok (g y)) \<Longrightarrow> ok (case z of Inl e \<Rightarrow> p e | Inr y \<Rightarrow> g y)"
  "(\<And>a b. ok (q a b)) \<Longrightarrow> ok (case v of (a, b) \<Rightarrow> q a b)"
  by (auto split: option.split sum.split prod.split)

text \<open>What a call has learnt of its world holds of every later one.\<close>

lemma ok_then_known:
  assumes m: "steady m"
    and learnt: "\<And>v x v'. J v \<Longrightarrow> m v = (Inr x, v') \<Longrightarrow> K x v'"
    and lasts: "\<And>x v v'. K x v \<Longrightarrow> J v \<Longrightarrow> R v v' \<Longrightarrow> K x v'"
    and goes_on: "\<And>x v. J v \<Longrightarrow> (\<And>v'. R v v' \<Longrightarrow> K x v') \<Longrightarrow> safe J R (k x) v"
  shows "ok (thenT (call m) k)"
  unfolding ok_def
proof (intro allI impI, rule safe_then_call)
  fix w v r v' assume "J w" and v: "J v" and run: "m v = (r, v')"
  from m v run have ok: "J v'" "R v v'" by (auto simp: steady_def)
  have "safe J R (k x) v'" if r: "r = Inr x" for x
    by (rule goes_on [OF ok(1)]) (rule lasts [OF learnt [OF v run [unfolded r]] ok(1)])
  with ok show "J v' \<and> R v v' \<and> (case r of Inl e \<Rightarrow> True | Inr x \<Rightarrow> safe J R (k x) v')"
    by (simp split: sum.split)
qed

text \<open>What the pool has preserved.\<close>

lemma interleave_safe:
  assumes step: "interleave P s s'" and J: "J (fst s)" and ts: "\<forall>t\<in>set (snd s). safe J R t (fst s)"
    and arrivals: "\<And>t v. P t \<Longrightarrow> J v \<Longrightarrow> safe J R t v"
  shows "J (fst s') \<and> R (fst s) (fst s') \<and> (\<forall>t\<in>set (snd s'). safe J R t (fst s'))"
  using step
proof (cases rule: interleave.cases)
  case (arrive t w ts)
  with J ts arrivals [OF arrive(3)] later_refl show ?thesis by auto
next
  case (call i ts f w t w')
  then have "Call f \<in> set ts" by (metis nth_mem)
  with ts call(1) have "safe J R (Call f) w" by auto
  with J call have ok: "J w'" "R w w'" "safe J R t w'" using later_refl by (auto simp: safe_Call)
  have "safe J R u w'" if "u \<in> set ts" for u
    by (rule safe_later [OF _ ok(2)]) (use that \<open>\<forall>t\<in>set (snd s). _\<close> call(1) in auto)
  with ok call(1,2) show ?thesis using set_update_subset_insert [of ts i t] by auto
qed

lemma interleaved_safe:
  assumes "interleaved P s s'" "J (fst s)" "\<forall>t\<in>set (snd s). safe J R t (fst s)"
    and arrivals: "\<And>t v. P t \<Longrightarrow> J v \<Longrightarrow> safe J R t v"
  shows "J (fst s') \<and> R (fst s) (fst s') \<and> (\<forall>t\<in>set (snd s'). safe J R t (fst s'))"
  using assms(1-3)
proof (induction rule: interleaved.induct)
  case (more s s' s'')
  then have before: "J (fst s')" "R (fst s) (fst s')" "\<forall>t\<in>set (snd s'). safe J R t (fst s')" by auto
  from interleave_safe [OF more.hyps(2) before(1,3) arrivals] before(2) show ?case
    by (blast intro: later_trans)
qed (simp add: later_refl)

end

end
