(* ===== verification/Interleaving.thy ===== *)
theory Interleaving
  imports Tasks GameRecovery AutoLogout Admin WebSocket
begin

text \<open>
  The handlers that change stored data as tasks, call by call: the game use case, the matching, accounts
  and sessions, the deletion of an account, the automatic logout of a user, the activity of users and
  connections, the ranking and the clean-up of tokens. Each is the handler of its theory when it runs alone (\<open>alone_handlers\<close>).
\<close>

subsection \<open>The state of a game and its messages\<close>

definition buildGameState_task :: "GameUseCase \<Rightarrow> uuid \<Rightarrow> uuid \<Rightarrow> (world, GameStateOutput) task" where
  "buildGameState_task c userID gameID =
     thenT (call (gameRepo_FindByID gameID)) (\<lambda>found.
     thenT (requireT found ErrNotFound) (\<lambda>game.
     thenT (ensureT (IsParticipant game userID) ErrForbidden) (\<lambda>_.
     thenT (call (guessRepo_ListByGameAndPlayer gameID userID)) (\<lambda>myGuesses.
     let opponentID = (if userID = game_Player2ID game then game_Player1ID game
                       else game_Player2ID game) in
     thenT (call (guessRepo_CountByGameExcludingPlayer gameID opponentID)) (\<lambda>oppCount.
     thenT (case uc_Turns c of
         Some s \<Rightarrow> if game_Status game = GameStatusInProgress
                   then thenT (call now) (\<lambda>t. call (RemainingSeconds s gameID t)) else retT 0
       | None \<Rightarrow> retT 0) (\<lambda>remaining.
     retT \<lparr>out_GameID = gameID, out_Status = game_Status game,
          out_CurrentTurn = game_CurrentTurn game,
          out_CurrentTurnPlayerID = game_CurrentTurnPlayerID game,
          out_RemainingSeconds = remaining, out_MyGuesses = map guess_summary myGuesses,
          out_OpponentGuessCount = oppCount\<rparr>))))))"

definition notifyTurnChanged_task :: "GameUseCase \<Rightarrow> game \<Rightarrow> (world, unit) task" where
  "notifyTurnChanged_task c game =
     (case game_CurrentTurnPlayerID game of
        None \<Rightarrow> retT ()
      | Some turnPlayer \<Rightarrow>
          if \<not> uc_Notifier c then retT ()
          else thenT (case uc_Turns c of
              None \<Rightarrow> retT 0
            | Some s \<Rightarrow> thenT (call now) (\<lambda>t. call (RemainingSeconds s (game_ID game) t))) (\<lambda>remaining.
          let payload =
            [(''gameId'', JUuid (game_ID game)), (''currentTurn'', JInt (game_CurrentTurn game)),
             (''currentTurnPlayerID'', JUuid turnPlayer), (''remainingSeconds'', JInt remaining)] in
          forEachT [game_Player1ID game, game_Player2ID game] (\<lambda>uid.
            call (ignoreErr (SendToUser uid ''TURN_CHANGED'' payload)))))"

definition notifyGameStart_task :: "GameUseCase \<Rightarrow> uuid \<Rightarrow> (world, unit) task" where
  "notifyGameStart_task c gameID =
     thenT (call (gameRepo_FindByID gameID)) (\<lambda>found.
     case found of
       None \<Rightarrow> retT ()
     | Some game \<Rightarrow>
         thenT (call now) (\<lambda>t.
         let expires = t + uc_TurnDuration c in
         thenT (case uc_Turns c of None \<Rightarrow> retT () | Some s \<Rightarrow>
             (case game_CurrentTurnPlayerID game of None \<Rightarrow> retT () | Some p \<Rightarrow>
               call (SetTurn s gameID (game_CurrentTurn game) p t expires))) (\<lambda>_.
         thenT (forEachT [game_Player1ID game, game_Player2ID game] (\<lambda>uid.
             thenT (buildGameState_task c uid gameID) (\<lambda>state.
             call (sendIfNotifier c uid ''GAME_STATE_SYNC'' (gameStateWSPayload state))))) (\<lambda>_.
         notifyTurnChanged_task c game))))"

definition notifyGuessResult_task ::
  "GameUseCase \<Rightarrow> uuid \<Rightarrow> guessResultOutput \<Rightarrow> bool \<Rightarrow> uuid \<Rightarrow> (world, unit) task" where
  "notifyGuessResult_task c gameID result finished winnerID =
     thenT (call (gameRepo_FindByID gameID)) (\<lambda>found.
     case found of
       None \<Rightarrow> retT ()
     | Some game \<Rightarrow>
         let players = [game_Player1ID game, game_Player2ID game];
             guessPayload =
               [(''gameId'', JUuid gameID), (''guessId'', JUuid (gr_GuessID result)),
                (''playerId'', JUuid (gr_PlayerID result)),
                (''digitResults'', JArr (map JInt (gr_DigitResults result))),
                (''hitCount'', JInt (gr_HitCount result)), (''isWin'', JBool (gr_IsWin result)),
                (''isAuto'', JBool (gr_IsAuto result)),
                (''nextTurnPlayerID'', player_text (gr_NextTurnPlayerID result))] in
         thenT (forEachT players (\<lambda>uid. call (sendIfNotifier c uid ''GUESS_RESULT'' guessPayload))) (\<lambda>_.
         if finished then
           thenT (case uc_Turns c of Some s \<Rightarrow> call (ignoreErr (DeleteTurn s gameID)) | None \<Rightarrow> retT ()) (\<lambda>_.
           thenT (call now) (\<lambda>t.
           thenT (call (recordGameOverActivityLog gameID ''guess_win'' (Some winnerID) t)) (\<lambda>_.
           forEachT players (\<lambda>uid. call (sendIfNotifier c uid ''GAME_OVER''
             [(''gameId'', JUuid gameID), (''reason'', JStr ''guess_win''),
              (''winnerId'', JUuid winnerID)])))))
         else
           thenT (case uc_Turns c of None \<Rightarrow> retT () | Some s \<Rightarrow>
               (case game_CurrentTurnPlayerID game of None \<Rightarrow> retT () | Some p \<Rightarrow>
                 thenT (call now) (\<lambda>t.
                 call (SetTurn s gameID (game_CurrentTurn game) p t (t + uc_TurnDuration c))))) (\<lambda>_.
           notifyTurnChanged_task c game)))"

subsection \<open>The game use case\<close>

definition SetSecretNumber_task :: "GameUseCase \<Rightarrow> uuid \<Rightarrow> uuid \<Rightarrow> string \<Rightarrow> (world, unit) task" where
  "SetSecretNumber_task c userID gameID secret =
     thenT (call (gameLock c (SecretLockKey gameID userID))) (\<lambda>_.
     thenT (liftT (ValidateFourDigits secret)) (\<lambda>secretDigits.
     thenT (call (ensureGamePlayer userID)) (\<lambda>_.
     thenT (call (WithTx (setSecretTx c userID gameID secretDigits))) (\<lambda>started.
     if started then notifyGameStart_task c gameID else retT ()))))"

definition SubmitGuess_task :: "GameUseCase \<Rightarrow> uuid \<Rightarrow> uuid \<Rightarrow> string \<Rightarrow> bool \<Rightarrow> (world, unit) task" where
  "SubmitGuess_task c userID gameID guess isAuto =
     thenT (if isAuto then retT () else call (gameLock c (GuessLockKey gameID userID))) (\<lambda>_.
     thenT (liftT (ValidateFourDigits guess)) (\<lambda>guessDigits.
     thenT (call (ensureGamePlayer userID)) (\<lambda>_.
     thenT (call (WithTx (submitGuessTx c userID gameID guessDigits isAuto))) (\<lambda>(result, finished).
     thenT (call now) (\<lambda>t.
     thenT (call (recordGuessActivityLog gameID userID (gr_Turn result) (gr_HitCount result)
        (gr_IsWin result) isAuto t)) (\<lambda>_.
     notifyGuessResult_task c gameID result finished (if finished then userID else uuid_nil)))))))"

definition HandleTimeout_task :: "GameUseCase \<Rightarrow> uuid \<Rightarrow> uuid \<Rightarrow> (world, unit) task" where
  "HandleTimeout_task c gameID playerID =
     thenT (call now) (\<lambda>t.
     thenT (case uc_Locks c of None \<Rightarrow> retT True
       | Some s \<Rightarrow> call (AcquireLock s (GuessLockKey gameID playerID) (uc_GameLockTTL c))) (\<lambda>ok.
     if \<not> ok then retT ()
     else case uc_Turns c of None \<Rightarrow> retT () | Some s \<Rightarrow>
       thenT (call (GetTurn s gameID)) (\<lambda>turnInfo.
       if \<not> turn_over turnInfo playerID t then retT ()
       else thenT (call (validateTimeoutGame gameID playerID
                (case turnInfo of Some i \<Rightarrow> ti_Turn i | None \<Rightarrow> 0))) (\<lambda>_.
       thenT (call (GetTurn s gameID)) (\<lambda>turnInfo.
       if \<not> turn_over turnInfo playerID t then retT ()
       else
         thenT (ensureT (uc_Random c) (ErrText ''no random generator'')) (\<lambda>_.
         thenT (call GenerateGuessNumber) (\<lambda>guessNum.
         thenT (attemptT (SubmitGuess_task c playerID gameID guessNum True)) (\<lambda>res.
         case res of
           Inl e \<Rightarrow> if isTimeoutRaceError e then retT () else throwT e
         | Inr _ \<Rightarrow> call (recordTimeoutActivityLog gameID playerID t))))))))) "

definition CancelBySecretTimeout_task :: "GameUseCase \<Rightarrow> uuid \<Rightarrow> (world, unit) task" where
  "CancelBySecretTimeout_task c gameID =
     thenT (call now) (\<lambda>t.
     thenT (call (WithTx (cancelTx c gameID t))) (\<lambda>cancelled.
     case cancelled of
       None \<Rightarrow> retT ()
     | Some (player1, player2) \<Rightarrow>
         thenT (case uc_Turns c of None \<Rightarrow> retT () | Some s \<Rightarrow> call (ignoreErr (DeleteTurn s gameID))) (\<lambda>_.
         thenT (forEachT [player1, player2] (\<lambda>uid. call (sendIfNotifier c uid ''GAME_OVER''
           [(''gameId'', JUuid gameID), (''reason'', JStr ''secret_setup_timeout'')]))) (\<lambda>_.
         call (recordGameOverActivityLog gameID ''secret_setup_timeout'' None t)))))"

subsection \<open>Matching\<close>

definition StartMatching_task :: "bool \<Rightarrow> uuid \<Rightarrow> (world, MatchingOutput) task" where
  "StartMatching_task notifier userID =
     thenT (call (ensureGamePlayer userID)) (\<lambda>_.
     thenT (call (findActiveGameForUser userID)) (\<lambda>active.
     thenT (ensureT (active = None) ErrUserInActiveGame) (\<lambda>_.
     thenT (call (userWaitingInMatchingQueue userID)) (\<lambda>waiting.
     thenT (ensureT (\<not> waiting) ErrAlreadyInMatching) (\<lambda>_.
     thenT (call now) (\<lambda>t.
     thenT (call (WithTx (startMatchingTx userID t))) (\<lambda>matched.
     case matched of
       None \<Rightarrow> retT \<lparr>mo_Status = ''waiting'', mo_GameID = None\<rparr>
     | Some game \<Rightarrow>
         thenT (if notifier
           then thenT (call (ignoreErr (SendToUser (game_Player1ID game) ''MATCHED''
                  [(''gameId'', JUuid (game_ID game))]))) (\<lambda>_.
                call (ignoreErr (SendToUser (game_Player2ID game) ''MATCHED''
                  [(''gameId'', JUuid (game_ID game))])))
           else retT ()) (\<lambda>_.
         retT \<lparr>mo_Status = ''matched'', mo_GameID = Some (game_ID game)\<rparr>))))))))"

definition CancelMatching_task :: "uuid \<Rightarrow> (world, MatchingOutput) task" where
  "CancelMatching_task userID =
     thenT (call (WithTx (matchingQueueRepo_DeleteByUserID userID))) (\<lambda>_.
     retT \<lparr>mo_Status = ''cancelled'', mo_GameID = None\<rparr>)"

subsection \<open>Accounts and sessions\<close>

definition mappedT :: "go_error + unit \<Rightarrow> (world, unit) task" where
  "mappedT r = liftT (case r of Inl e \<Rightarrow> Inl (mapValidationErr e) | Inr x \<Rightarrow> Inr x)"

definition Login_task :: "AuthUseCase \<Rightarrow> string \<Rightarrow> string \<Rightarrow> (world, LoginResult) task" where
  "Login_task a email password =
     thenT (mappedT (ValidateLoginEmail email)) (\<lambda>_.
     thenT (mappedT (ValidatePassword password)) (\<lambda>_.
     thenT (call (findUserByEmailActive email)) (\<lambda>found.
     case found of
       None \<Rightarrow> throwT ErrUnauthorized
     | Some u \<Rightarrow>
         if \<not> PasswordVerify (au_Services a) (user_PasswordHash u) password then throwT ErrUnauthorized
         else thenT (call now) (\<lambda>t.
         thenT (call (WithTx (loginTx a u t))) (\<lambda>tokens.
         retT \<lparr>lr_AccessToken = st_AccessToken tokens, lr_RefreshToken = st_RefreshToken tokens,
              lr_ID = user_ID u, lr_Username = user_Username u,
              lr_Role = Role_string (user_Role u)\<rparr>)))))"

definition Logout_task :: "AuthUseCase \<Rightarrow> uuid \<Rightarrow> string \<Rightarrow> time \<Rightarrow> (world, unit) task" where
  "Logout_task a userID jti exp =
     thenT (call now) (\<lambda>t.
     thenT (ensureT (jti \<noteq> '''' \<and> t < exp) ErrUnauthorized) (\<lambda>_.
     thenT (case au_JWTRevoker a of None \<Rightarrow> retT () | Some s \<Rightarrow> call (Revoke s jti (exp - t))) (\<lambda>_.
     thenT (case au_WSSessions a of
         None \<Rightarrow> retT () | Some ws \<Rightarrow> call (ignoreErr (SessionStore_DeleteUser ws userID))) (\<lambda>_.
     call (WithTx (logoutTx userID t))))))"

definition emailOrUsernameExists_task :: "string \<Rightarrow> string \<Rightarrow> (world, bool) task" where
  "emailOrUsernameExists_task email username =
     thenT (call (userRepo_FindByEmail email)) (\<lambda>byEmail.
     if byEmail \<noteq> None then retT True
     else thenT (call (userRepo_FindByUsername username)) (\<lambda>byUsername. retT (byUsername \<noteq> None)))"

definition Register_task :: "AuthUseCase \<Rightarrow> string \<Rightarrow> string \<Rightarrow> string \<Rightarrow> (world, MeResult) task" where
  "Register_task a username email password =
     thenT (mappedT (ValidateUsername username)) (\<lambda>_.
     thenT (mappedT (ValidateEmail email)) (\<lambda>_.
     thenT (mappedT (ValidatePassword password)) (\<lambda>_.
     thenT (emailOrUsernameExists_task email username) (\<lambda>exists.
     thenT (ensureT (\<not> exists) ErrDuplicateUser) (\<lambda>_.
     thenT (liftT (PasswordHash (au_Services a) password)) (\<lambda>hash.
     thenT (call now) (\<lambda>t.
     thenT (call newUUID) (\<lambda>newID.
     let u = new_user newID username email hash RoleUser t in
     thenT (call (WithTx (userRepo_Create u))) (\<lambda>_.
     retT \<lparr>me_ID = user_ID u, me_Username = user_Username u, me_Role = Role_string (user_Role u),
          me_WinCount = user_WinCount u\<rparr>)))))))))"

definition handleReusedRefreshToken_task :: "AuthUseCase \<Rightarrow> refresh_token \<Rightarrow> time \<Rightarrow> (world, unit) task" where
  "handleReusedRefreshToken_task a stored t =
     thenT (call (WithTx (revokeRefreshTokenFamily (token_FamilyID stored) t))) (\<lambda>_.
     case au_WSSessions a of
       None \<Rightarrow> retT ()
     | Some ws \<Rightarrow> call (ignoreErr (SessionStore_DeleteUser ws (token_UserID stored))))"

definition Refresh_task :: "AuthUseCase \<Rightarrow> string \<Rightarrow> (world, SessionTokens) task" where
  "Refresh_task a refreshToken =
     (let plain = TrimSpace refreshToken in
      if plain = '''' then throwT ErrUnauthorized
      else thenT (call now) (\<lambda>t.
      let hash = RefreshHash (au_Services a) plain in
      thenT (call (refreshTokenRepo_FindByTokenHash hash)) (\<lambda>found.
      case found of
        None \<Rightarrow> throwT ErrUnauthorized
      | Some stored \<Rightarrow>
          if token_Status stored = RefreshTokenRevoked
          then thenT (handleReusedRefreshToken_task a stored t) (\<lambda>_. throwT ErrUnauthorized)
          else if \<not> IsActive stored t
          then thenT (call (revokeExpiredRefreshToken (token_ID stored) t)) (\<lambda>_. throwT ErrUnauthorized)
          else thenT (call (WithTx (rotateRefreshToken a hash t))) (\<lambda>(access, refreshPlain).
               retT \<lparr>st_AccessToken = access, st_RefreshToken = refreshPlain\<rparr>))))"

subsection \<open>Administration, the automatic logout, connections\<close>

definition AdminDeleteUser_task :: "AdminUseCase \<Rightarrow> uuid \<Rightarrow> uuid \<Rightarrow> (world, unit) task" where
  "AdminDeleteUser_task a adminID targetID =
     thenT (call (acquireLock a (UserDeleteLockKey adminID))) (\<lambda>_.
     if adminID = targetID then throwT ErrCannotDeleteSelf
     else thenT (call (userRepo_FindByID targetID)) (\<lambda>found. case found of
       None \<Rightarrow> throwT ErrNotFound
     | Some target \<Rightarrow>
         if IsDeleted target then throwT ErrUserAlreadyDeleted
         else if IsMaster target then throwT ErrCannotDeleteMaster
         else thenT (call (findActiveGameForUser targetID)) (\<lambda>active.
         if active \<noteq> None then throwT ErrUserInActiveGame
         else thenT (call now) (\<lambda>t.
         thenT (case ad_ForceLogout a of None \<Rightarrow> retT () | Some s \<Rightarrow> call (SetForceLogoutBefore s targetID t)) (\<lambda>_.
         thenT (case ad_WSSessions a of
             None \<Rightarrow> retT () | Some ws \<Rightarrow> call (ignoreErr (SessionStore_DeleteUser ws targetID))) (\<lambda>_.
         thenT (call (WithTx (deleteUserTx adminID targetID target t))) (\<lambda>_.
         call (recordAdminDeleteUserLog adminID targetID t))))))))"

definition logoutUser_task :: "AutoLogoutUseCase \<Rightarrow> uuid \<Rightarrow> time \<Rightarrow> (world, unit) task" where
  "logoutUser_task a userID t =
     thenT (case al_ForceLogout a of None \<Rightarrow> retT () | Some s \<Rightarrow> call (SetForceLogoutBefore s userID t)) (\<lambda>_.
     thenT (case al_ForceDisconnect a of
         None \<Rightarrow> retT () | Some redis \<Rightarrow> call (ignoreErr (forceDisconnect redis userID))) (\<lambda>_.
     call (WithTx (logoutUserTx userID t))))"

definition TouchActivity_task :: "uuid \<Rightarrow> (world, unit) task" where
  "TouchActivity_task userID = ignoreT (
     thenT (call (userRepo_FindByID userID)) (\<lambda>found. case found of
       None \<Rightarrow> retT ()
     | Some u \<Rightarrow>
         if IsDeleted u then retT ()
         else thenT (call now) (\<lambda>t.
           call (userRepo_Update (u\<lparr>user_LastActivityAt := t, user_UpdatedAt := t\<rparr>)))))"

text \<open>The log of connections, and what \<open>ActivityUpdate\<close> does after a handler.\<close>

definition RecordConnection_task :: "uuid \<Rightarrow> string \<Rightarrow> (world, uuid) task" where
  "RecordConnection_task userID connectionID =
     thenT (call now) (\<lambda>t.
     thenT (call newUUID) (\<lambda>logID.
     thenT (call (wsConnectionLogRepo_Create \<lparr>wslog_ID = logID, wslog_UserID = userID,
       wslog_ConnectionID = connectionID, wslog_ConnectedAt = t, wslog_DisconnectedAt = None\<rparr>)) (\<lambda>_.
     retT logID)))"

definition CloseConnectionLog_task :: "uuid \<Rightarrow> (world, unit) task" where
  "CloseConnectionLog_task logID =
     (if logID = uuid_nil then retT ()
      else thenT (call now) (\<lambda>t. call (ignoreErr (wsConnectionLogRepo_UpdateDisconnected logID t))))"

definition ActivityUpdate_task :: "uuid \<Rightarrow> (world, unit) task" where
  "ActivityUpdate_task userID = thenT (call now) (\<lambda>t. call (ignoreErr (userRepo_TouchLastActivity userID t)))"

subsection \<open>The ranking and the clean-up of tokens\<close>

definition Rebuild_task :: "(world, unit) task" where
  "Rebuild_task =
     thenT (call listUsersForRankingRebuild) (\<lambda>rows.
     thenT (call now) (\<lambda>t.
     call (WithTx (rankingRepo_ReplaceAll (ranking_rows t 0 rows)))))"

definition RunScheduledRebuild_task :: "RankingUseCase \<Rightarrow> (world, unit) task" where
  "RunScheduledRebuild_task r =
     thenT (call (acquireRankingRebuildLock (rk_Locks r) rankingRebuildWorkerActorID (rk_LockTTL r))) (\<lambda>ok.
     if \<not> ok then retT () else Rebuild_task)"

definition AdminRebuildRanking_task :: "AdminUseCase \<Rightarrow> uuid \<Rightarrow> (world, unit) task" where
  "AdminRebuildRanking_task a adminID =
     thenT (call (acquireLock a (RankingRebuildLockKey adminID))) (\<lambda>_.
     if \<not> ad_Ranking a then throwT ErrBadRequest
     else thenT Rebuild_task (\<lambda>_.
     thenT (call now) (\<lambda>t. call (recordAdminRebuildRankingLog adminID t))))"

definition CleanupExpiredRefreshTokens_task :: "AuthUseCase \<Rightarrow> (world, unit) task" where
  "CleanupExpiredRefreshTokens_task a =
     thenT (call now) (\<lambda>t.
     let cutoff = add_days t (- cleanupGraceDays a) in
     ignoreT (thenT (call (refreshTokenRepo_DeleteExpired cutoff)) (\<lambda>_. retT ())))"

subsection \<open>Alone they are the handlers\<close>

lemma andThen_if: "andThen (if b then m else n) k = (if b then andThen m k else andThen n k)"
  by simp

lemma andThen_case_option:
  "andThen (case x of None \<Rightarrow> m | Some y \<Rightarrow> n y) k = (case x of None \<Rightarrow> andThen m k | Some y \<Rightarrow> andThen (n y) k)"
  by (simp split: option.split)

lemma alone_buildGameState: "alone (buildGameState_task c u g) = buildGameState c u g"
  unfolding buildGameState_task_def buildGameState_def Let_def by (simp only: alone_simps)

lemma alone_notifyTurnChanged: "alone (notifyTurnChanged_task c g) = notifyTurnChanged c g"
  unfolding notifyTurnChanged_task_def notifyTurnChanged_def Let_def by (simp only: alone_simps)

lemma alone_notifyGameStart: "alone (notifyGameStart_task c g) = notifyGameStart c g"
  unfolding notifyGameStart_task_def notifyGameStart_def Let_def
  by (simp only: alone_simps alone_buildGameState alone_notifyTurnChanged)

lemma alone_notifyGuessResult: "alone (notifyGuessResult_task c g r f u) = notifyGuessResult c g r f u"
  unfolding notifyGuessResult_task_def notifyGuessResult_def Let_def
  by (simp only: alone_simps alone_notifyTurnChanged)

lemma alone_SetSecretNumber: "alone (SetSecretNumber_task c u g s) = SetSecretNumber c u g s"
  unfolding SetSecretNumber_task_def SetSecretNumber_def by (simp only: alone_simps alone_notifyGameStart)

lemma alone_SubmitGuess: "alone (SubmitGuess_task c u g s auto) = SubmitGuess c u g s auto"
  unfolding SubmitGuess_task_def SubmitGuess_def by (simp only: alone_simps alone_notifyGuessResult)

lemma alone_HandleTimeout: "alone (HandleTimeout_task c g p) = HandleTimeout c g p"
  unfolding HandleTimeout_task_def HandleTimeout_def autoGuess_def by (simp only: alone_simps alone_SubmitGuess)

lemma alone_CancelBySecretTimeout: "alone (CancelBySecretTimeout_task c g) = CancelBySecretTimeout c g"
proof -
  have "alone (case x of None \<Rightarrow> t | Some (a, b) \<Rightarrow> u a b) =
      (case x of None \<Rightarrow> alone t | Some (a, b) \<Rightarrow> alone (u a b))" for x :: "('x \<times> 'y) option" and t u
    by (simp split: option.split)
  then show ?thesis
    unfolding CancelBySecretTimeout_task_def CancelBySecretTimeout_def by (simp only: alone_simps)
qed

lemma alone_StartMatching: "alone (StartMatching_task n u) = StartMatching n u"
  unfolding StartMatching_task_def StartMatching_def by (simp only: alone_simps)

lemma alone_CancelMatching: "alone (CancelMatching_task u) = CancelMatching u"
  unfolding CancelMatching_task_def CancelMatching_def by (simp only: alone_simps)

lemma alone_mapped [alone_simps]: "alone (mappedT r) = mapped r"
  by (rule ext) (simp add: mappedT_def mapped_def alone_simps mapErr_def lift_result_def split: sum.split)

lemma alone_Login: "alone (Login_task a e p) = Login a e p"
  unfolding Login_task_def Login_def by (simp only: alone_simps)

lemma alone_Logout: "alone (Logout_task a u j t) = Logout a u j t"
  unfolding Logout_task_def Logout_def by (simp only: alone_simps)

lemma alone_Register: "alone (Register_task a n e p) = Register a n e p"
  unfolding Register_task_def Register_def emailOrUsernameExists_task_def emailOrUsernameExists_def Let_def
  by (simp only: alone_simps)

lemma alone_Refresh: "alone (Refresh_task a s) = Refresh a s"
  unfolding Refresh_task_def Refresh_def handleReusedRefreshToken_task_def handleReusedRefreshToken_def Let_def
  by (simp only: alone_simps)

lemma alone_AdminDeleteUser: "alone (AdminDeleteUser_task a adm i) = AdminDeleteUser a adm i"
  unfolding AdminDeleteUser_task_def AdminDeleteUser_def deletionTarget_def endSessions_def
  by (simp only: alone_simps andThen_assoc andThen_if andThen_case_option throw_andThen ret_andThen)

lemma alone_logoutUser: "alone (logoutUser_task a u t) = logoutUser a u t"
  unfolding logoutUser_task_def logoutUser_def by (simp only: alone_simps)

lemma alone_TouchActivity: "alone (TouchActivity_task u) = TouchActivity u"
  unfolding TouchActivity_task_def TouchActivity_def by (simp only: alone_simps)

lemma alone_connection_logs:
  "alone (RecordConnection_task u k) = RecordConnection u k"
  "alone (CloseConnectionLog_task l) = CloseConnectionLog l"
  unfolding RecordConnection_task_def RecordConnection_def CloseConnectionLog_task_def CloseConnectionLog_def
  by (simp_all only: alone_simps)

lemma alone_Rebuild: "alone Rebuild_task = Rebuild"
  unfolding Rebuild_task_def Rebuild_def by (simp only: alone_simps)

lemma alone_rebuilds:
  "alone (RunScheduledRebuild_task r) = RunScheduledRebuild r"
  "alone (AdminRebuildRanking_task a adm) = AdminRebuildRanking a adm"
  unfolding RunScheduledRebuild_task_def RunScheduledRebuild_def AdminRebuildRanking_task_def AdminRebuildRanking_def
  by (simp_all only: alone_simps alone_Rebuild)

lemma alone_Cleanup: "alone (CleanupExpiredRefreshTokens_task a) = CleanupExpiredRefreshTokens a"
  unfolding CleanupExpiredRefreshTokens_task_def CleanupExpiredRefreshTokens_def Let_def by (simp only: alone_simps)

lemma alone_ActivityUpdate:
  "alone (ActivityUpdate_task u) = andThen now (\<lambda>t. ignoreErr (userRepo_TouchLastActivity u t))"
  unfolding ActivityUpdate_task_def by (simp only: alone_simps)

lemmas alone_handlers = alone_connection_logs alone_rebuilds alone_Cleanup alone_ActivityUpdate alone_SetSecretNumber alone_SubmitGuess alone_HandleTimeout
  alone_CancelBySecretTimeout alone_StartMatching alone_CancelMatching alone_Login alone_Logout
  alone_Register alone_Refresh alone_AdminDeleteUser alone_logoutUser alone_TouchActivity

end
