(* ===== verification/Concurrent.thy ===== *)
theory Concurrent
  imports Interleaving History
begin

text \<open>
  What requests that run at the same time preserve, whatever the schedule: games stay legal duels, names
  and addresses stay unique, one player waits at most, and guesses, results, games and accounts stay. What they do not preserve
  is what a handler writes back from a row it read before other requests changed it: the columns of
  an account. So an account may count fewer wins than there are results that name it as winner, never
  more, and a deletion may be undone (see \<open>Races\<close>).
\<close>

subsection \<open>Sound and later databases\<close>

definition same_account :: "user \<Rightarrow> user \<Rightarrow> bool" where
  "same_account u u' \<longleftrightarrow> user_ID u' = user_ID u \<and> user_Username u' = user_Username u \<and>
     user_Email u' = user_Email u \<and> user_Role u' = user_Role u"

definition kept :: "db \<Rightarrow> db \<Rightarrow> bool" where
  "kept d d' \<longleftrightarrow> (\<forall>g\<in>set (db_games d). \<exists>g'\<in>set (db_games d'). game_later g g') \<and>
     (\<forall>u\<in>set (db_users d). \<exists>u'\<in>set (db_users d'). same_account u u') \<and>
     set (db_guesses d) \<subseteq> set (db_guesses d') \<and> set (db_histories d) \<subseteq> set (db_histories d')"

definition pool_inv :: "hasher \<Rightarrow> db \<Rightarrow> bool" where
  "pool_inv h d \<longleftrightarrow> duels_inv (\<le>) h d \<and> accounts_inv d \<and> queue_inv d"

lemma same_account_refl [simp]: "same_account u u" by (simp add: same_account_def)

lemma same_account_trans: "same_account u v \<Longrightarrow> same_account v x \<Longrightarrow> same_account u x"
  by (simp add: same_account_def)

lemma nothing_lost_kept: "nothing_lost d d' \<Longrightarrow> kept d d'"
  unfolding nothing_lost_def kept_def by (meson same_account_def user_later_def)

lemma kept_refl [simp]: "kept d d"
  by (rule nothing_lost_kept) simp

lemma kept_trans: "kept a b \<Longrightarrow> kept b c \<Longrightarrow> kept a c"
  unfolding kept_def by (meson game_later_trans same_account_trans subset_trans)

lemma kept_frame [simp]:
  "kept d (d'\<lparr>db_queue := q\<rparr>) = kept d d'" "kept d (d'\<lparr>db_rankings := rk\<rparr>) = kept d d'"
  "kept d (d'\<lparr>db_tokens := tk\<rparr>) = kept d d'" "kept d (d'\<lparr>db_actlogs := al\<rparr>) = kept d d'"
  "kept d (d'\<lparr>db_loginlogs := ll\<rparr>) = kept d d'" "kept d (d'\<lparr>db_wslogs := wl\<rparr>) = kept d d'"
  by (simp_all add: kept_def)

lemma pool_inv_frame [simp]:
  "pool_inv h (d\<lparr>db_rankings := rk\<rparr>) = pool_inv h d" "pool_inv h (d\<lparr>db_tokens := tk\<rparr>) = pool_inv h d"
  "pool_inv h (d\<lparr>db_actlogs := al\<rparr>) = pool_inv h d" "pool_inv h (d\<lparr>db_loginlogs := ll\<rparr>) = pool_inv h d"
  "pool_inv h (d\<lparr>db_wslogs := wl\<rparr>) = pool_inv h d"
  by (simp_all add: pool_inv_def)

lemma kept_guesses:
  assumes "kept d d'" "g \<in> set (db_games d)" "game_guesses d g \<noteq> []"
  shows "\<exists>g'\<in>set (db_games d'). game_guesses d' g' \<noteq> []"
proof -
  from assms(3) obtain r where r: "r \<in> set (db_guesses d)" "guess_GameID r = game_ID g"
    by (auto simp: game_guesses_def filter_empty_conv)
  from assms(1,2) obtain g' where g': "g' \<in> set (db_games d')" "game_later g g'" by (auto simp: kept_def)
  have "r \<in> set (game_guesses d' g')"
    using assms(1) r g'(2) by (auto simp: kept_def game_guesses_def game_later_def same_game_def)
  with g'(1) show ?thesis by force
qed

lemma pool_inv_parts:
  assumes "pool_inv h d"
  shows "duels_inv (\<le>) h d" "accounts_inv d" "queue_inv d" "distinct (map user_ID (db_users d))"
    "distinct (map history_GameID (db_histories d))"
  using assms by (simp_all add: pool_inv_def duels_inv_def players_inv_def histories_inv_def)

lemma server_inv_pool: "server_inv h d \<Longrightarrow> pool_inv h d"
  by (auto simp: server_inv_def pool_inv_def duel_inv_def duels_inv_def wins_inv_def wins_upto_def)

subsection \<open>A row that was read before\<close>

text \<open>The row of an account, as some handler has read it: the account is still there, and the row does not count more
  wins than there are results.\<close>

definition known :: "db \<Rightarrow> user \<Rightarrow> bool" where
  "known d u \<longleftrightarrow> (\<exists>v\<in>set (db_users d). same_account u v) \<and>
     user_WinCount u \<le> int (won_by (user_ID u) (db_histories d))"

lemma won_by_mono:
  assumes "distinct (map history_GameID hs)" "set hs \<subseteq> set hs'"
  shows "won_by u hs \<le> won_by u hs'"
proof -
  let ?f = "filter (\<lambda>h. history_WinnerID h = u)"
  have "distinct hs" using assms(1) by (simp add: distinct_map)
  then have "won_by u hs = card (set (?f hs))" by (simp only: won_by_def distinct_card [OF distinct_filter])
  also have "\<dots> \<le> card (set (?f hs'))" by (rule card_mono) (use assms(2) in auto)
  also have "\<dots> \<le> won_by u hs'" unfolding won_by_def by (rule card_length)
  finally show ?thesis .
qed

lemma known_row: "pool_inv h d \<Longrightarrow> u \<in> set (db_users d) \<Longrightarrow> known d u"
  by (auto simp: known_def pool_inv_def duels_inv_def wins_upto_def intro: same_account_refl)

lemma known_kept:
  assumes "known d u" "pool_inv h d" "kept d d'"
  shows "known d' u"
proof -
  from assms(1) obtain v where v: "v \<in> set (db_users d)" "same_account u v" by (auto simp: known_def)
  with assms(3) obtain v' where "v' \<in> set (db_users d')" "same_account v v'" unfolding kept_def by blast
  moreover have "won_by (user_ID u) (db_histories d) \<le> won_by (user_ID u) (db_histories d')"
    by (rule won_by_mono [OF pool_inv_parts(5) [OF assms(2)]]) (use assms(3) in \<open>simp add: kept_def\<close>)
  ultimately show ?thesis
    using assms(1) same_account_trans [OF v(2)] unfolding known_def by (metis of_nat_le_iff order_trans)
qed

text \<open>Saving it over the account's row leaves a sound and later database.\<close>

lemma known_saved:
  assumes inv: "pool_inv h d" and known: "known d u"
    and same: "same_account u u'" "user_WinCount u' = user_WinCount u"
  shows "pool_inv h (d\<lparr>db_users := save_row user_ID u' (db_users d)\<rparr>)"
    and "kept d (d\<lparr>db_users := save_row user_ID u' (db_users d)\<rparr>)"
proof -
  note p = pool_inv_parts [OF inv]
  from known obtain v where v: "v \<in> set (db_users d)" "same_account u v" by (auto simp: known_def)
  then have u': "same_account v u'" using same(1) by (simp add: same_account_def)
  have "duels_inv (\<le>) h (d\<lparr>db_users := save_row user_ID u' (db_users d)\<rparr>)"
    by (rule duels_inv_save_user [OF p(1) v(1)])
      (use u' v(2) known same(2) in \<open>simp_all add: same_account_def known_def\<close>)
  moreover have "accounts_inv (d\<lparr>db_users := save_row user_ID u' (db_users d)\<rparr>)"
    by (rule accounts_inv_save [OF p(2) v(1)]) (use u' in \<open>simp_all add: same_account_def\<close>)
  ultimately show "pool_inv h (d\<lparr>db_users := save_row user_ID u' (db_users d)\<rparr>)"
    using p(3) by (simp add: pool_inv_def)
  have "\<exists>y\<in>set (save_row user_ID u' (db_users d)). same_account x y" if "x \<in> set (db_users d)" for x
    by (rule later_save_row [where R = same_account, OF p(4) v(1) _ u' same_account_refl that])
      (use u' in \<open>simp add: same_account_def\<close>)
  then show "kept d (d\<lparr>db_users := save_row user_ID u' (db_users d)\<rparr>)"
    unfolding kept_def by (auto intro: game_later_refl)
qed

subsection \<open>The transactions\<close>

lemma pool_inv_setSecretTx:
  assumes inv: "pool_inv (uc_Secrets c) (w_db w)" and ds: "four_distinct_digits ds"
    and run: "setSecretTx c u gid ds w = (Inr started, w')"
  shows "pool_inv (uc_Secrets c) (w_db w') \<and> kept (w_db w) (w_db w')"
proof -
  note p = pool_inv_parts [OF inv]
  from run have "accounts_inv (w_db w') \<and> queue_inv (w_db w')"
    by (cases rule: setSecretTx_success) (simp add: p)
  with duels_inv_setSecretTx [OF p(1) ds run] lost_setSecretTx [OF p(1) run] show ?thesis
    by (simp add: pool_inv_def nothing_lost_kept)
qed

lemma pool_inv_submitGuessTx:
  assumes inv: "pool_inv (uc_Secrets c) (w_db w)" and ds: "four_distinct_digits ds"
    and run: "submitGuessTx c u gid ds auto w = (Inr res, w')"
  shows "pool_inv (uc_Secrets c) (w_db w') \<and> kept (w_db w) (w_db w')"
proof -
  note p = pool_inv_parts [OF inv]
  obtain result finished where res: "res = (result, finished)" by (cases res)
  have "duels_inv (\<le>) (uc_Secrets c) (w_db w')"
    by (rule duels_inv_submitGuessTx [OF p(1) ds run [unfolded res]]) simp
  moreover from run [unfolded res] have "accounts_inv (w_db w') \<and> queue_inv (w_db w')"
  proof (cases rule: submitGuessTx_success)
    case (1 g row g1 t)
    show ?thesis
    proof (cases finished)
      case True
      with 1(10) obtain g' w1 where fin: "finishGameService g1 u t w1 = (Inr g', w')"
        and w1: "w_db w1 = (w_db w)\<lparr>db_guesses := db_guesses (w_db w) @ [row]\<rparr>" by auto
      note keys = duels_inv_keys [OF p(1)]
      have "same_game g g1" using guess_step_facts(6) [OF 1(4) keys(3) [OF 1(2)]] .
      then have "\<forall>q. IsParticipant g1 q \<longrightarrow> q \<in> user_ID ` set (db_users (w_db w1))"
        using keys(4) [OF 1(2)] by (simp add: w1 IsParticipant_def same_game_def)
      with fin show ?thesis
      proof (cases rule: finishGameService_success)
        case (1 x y hist)
        let ?x = "x\<lparr>user_WinCount := user_WinCount x + 1, user_UpdatedAt := t\<rparr>"
        have "accounts_inv ((w_db w)\<lparr>db_users := save_row user_ID ?x (db_users (w_db w))\<rparr>)"
          using 1(2) by (intro accounts_inv_save [OF p(2), of x]) (simp_all add: w1)
        then show ?thesis using p(3) by (simp add: 1(11) w1 accounts_inv_def)
      qed
    qed (use 1(10) p in simp)
  qed
  ultimately show ?thesis using lost_submitGuessTx [OF p(1) run] by (simp add: pool_inv_def nothing_lost_kept)
qed

lemma pool_inv_cancelTx:
  assumes inv: "pool_inv h (w_db w)" and run: "cancelTx c gid t w = (Inr res, w')"
  shows "pool_inv h (w_db w') \<and> kept (w_db w) (w_db w')"
proof -
  note p = pool_inv_parts [OF inv]
  from run have "accounts_inv (w_db w') \<and> queue_inv (w_db w')"
    by (auto simp: cancelTx_def Let_def success_iff find_defs p split: option.splits if_splits)
  with duels_inv_cancelTx [OF p(1) run] lost_cancelTx [OF p(1) run] show ?thesis
    by (simp add: pool_inv_def nothing_lost_kept)
qed

lemma pool_inv_startMatchingTx:
  assumes inv: "pool_inv h (w_db w)" and run: "startMatchingTx u t w = (Inr res, w')"
  shows "pool_inv h (w_db w') \<and> kept (w_db w) (w_db w')"
proof -
  note p = pool_inv_parts [OF inv]
  from run have "accounts_inv (w_db w')"
  proof (cases rule: startMatchingTx_success)
    case (1 e i t')
    from 1(5) show ?thesis by (cases rule: match_step_cases) (simp_all add: p)
  qed
  with duels_inv_startMatchingTx [OF p(1) run] queue_inv_startMatchingTx [OF p(3) run]
    lost_startMatchingTx [OF run] show ?thesis
    by (simp add: pool_inv_def nothing_lost_kept)
qed

lemma pool_inv_create:
  assumes "pool_inv h d" "\<forall>x\<in>set (db_users d). \<not> user_conflict x (new_user i n e p r t)"
  shows "pool_inv h (d\<lparr>db_users := db_users d @ [new_user i n e p r t]\<rparr>) \<and>
    kept d (d\<lparr>db_users := db_users d @ [new_user i n e p r t]\<rparr>)"
proof -
  note p = pool_inv_parts [OF assms(1)]
  have "duels_inv (\<le>) h (d\<lparr>db_users := db_users d @ [new_user i n e p r t]\<rparr>)"
    using assms(2) by (intro duels_inv_create_user [OF p(1)]) (auto simp: user_conflict_def new_user_def)
  moreover have "accounts_inv (d\<lparr>db_users := db_users d @ [new_user i n e p r t]\<rparr>)"
    by (rule account_names.create_closed [OF p(2) assms(2)])
  moreover have "nothing_lost d (d\<lparr>db_users := db_users d @ [new_user i n e p r t]\<rparr>)"
    by (rule nothing_lost_mono) auto
  ultimately show ?thesis using p(3) by (simp add: pool_inv_def nothing_lost_kept)
qed

lemma pool_inv_touch_rows:
  assumes "pool_inv h d"
  shows "pool_inv h (d\<lparr>db_users := update_rows P (\<lambda>u. touched u t) (db_users d)\<rparr>) \<and>
    kept d (d\<lparr>db_users := update_rows P (\<lambda>u. touched u t) (db_users d)\<rparr>)"
  using duels_inv_touch_rows accounts_inv_touch_rows nothing_lost_kept [OF lost_touch_rows] pool_inv_parts(1-3) [OF assms]
  by (simp add: pool_inv_def)

text \<open>The contracts of the components, for what is sound and later than a given database.\<close>

interpretation pool_games: game_transactions c "\<lambda>d. pool_inv (uc_Secrets c) d \<and> kept d0 d" for c d0
proof unfold_locales
  show "pool_inv (uc_Secrets c) (w_db w') \<and> kept d0 (w_db w')"
    if "pool_inv (uc_Secrets c) (w_db w) \<and> kept d0 (w_db w)" "four_distinct_digits ds"
      "setSecretTx c u gid ds w = (Inr x, w')" for w ds u gid x w'
    using pool_inv_setSecretTx [of c w ds u gid x w'] that kept_trans [of d0 "w_db w" "w_db w'"] by simp
  show "pool_inv (uc_Secrets c) (w_db w') \<and> kept d0 (w_db w')"
    if "pool_inv (uc_Secrets c) (w_db w) \<and> kept d0 (w_db w)" "four_distinct_digits ds"
      "submitGuessTx c u gid ds auto w = (Inr x, w')" for w ds u gid auto x w'
    using pool_inv_submitGuessTx [of c w ds u gid auto x w'] that kept_trans [of d0 "w_db w" "w_db w'"] by simp
  show "pool_inv (uc_Secrets c) (w_db w') \<and> kept d0 (w_db w')"
    if "pool_inv (uc_Secrets c) (w_db w) \<and> kept d0 (w_db w)" "cancelTx c gid t w = (Inr x, w')" for w gid t x w'
    using pool_inv_cancelTx [of "uc_Secrets c" w c gid t x w'] that kept_trans [of d0 "w_db w" "w_db w'"] by simp
qed simp

interpretation pool_matching: matching_transactions "\<lambda>d. pool_inv h d \<and> kept d0 d" for h d0
proof unfold_locales
  show "pool_inv h (d\<lparr>db_queue := delete_rows (\<lambda>e. entry_UserID e = u) (db_queue d)\<rparr>) \<and>
      kept d0 (d\<lparr>db_queue := delete_rows (\<lambda>e. entry_UserID e = u) (db_queue d)\<rparr>)"
    if "pool_inv h d \<and> kept d0 d" for d u
    using that match_queue.leave_closed [of d u] by (simp add: pool_inv_def)
  show "pool_inv h (w_db w') \<and> kept d0 (w_db w')"
    if "pool_inv h (w_db w) \<and> kept d0 (w_db w)" "startMatchingTx u t w = (Inr x, w')" for w u t x w'
    using pool_inv_startMatchingTx [of h w u t x w'] that kept_trans [of d0 "w_db w" "w_db w'"] by simp
qed

interpretation pool_accounts: account_contract "\<lambda>d. pool_inv h d \<and> kept d0 d" for h d0
proof unfold_locales
  show "pool_inv h (d\<lparr>db_users := save_row user_ID (touched u t) (db_users d)\<rparr>) \<and>
      kept d0 (d\<lparr>db_users := save_row user_ID (touched u t) (db_users d)\<rparr>)"
    if "pool_inv h d \<and> kept d0 d" "u \<in> set (db_users d)" for d u t
    using known_saved [of h d u "touched u t"] known_row [of h d u] kept_trans [of d0 d] that
    by (simp add: same_account_def)
  show "pool_inv h (d\<lparr>db_users := db_users d @ [new_user i n e p r t]\<rparr>) \<and>
      kept d0 (d\<lparr>db_users := db_users d @ [new_user i n e p r t]\<rparr>)"
    if "pool_inv h d \<and> kept d0 d" "\<forall>x\<in>set (db_users d). \<not> user_conflict x (new_user i n e p r t)" for d i n e p r t
    using pool_inv_create [of h d i n e p r t] that kept_trans [of d0 d] by blast
qed simp_all

end
