(* ===== verification/Requests.thy ===== *)
theory Requests
  imports Concurrent
begin

text \<open>
  The requests of the program that change stored data, as the tasks a pool runs, and what every
  interleaving of them preserves.
\<close>

subsection \<open>Calls\<close>

abbreviation sound_world :: "hasher \<Rightarrow> world \<Rightarrow> bool" where
  "sound_world h w \<equiv> pool_inv h (w_db w)"

abbreviation later_world :: "world \<Rightarrow> world \<Rightarrow> bool" where
  "later_world w w' \<equiv> kept (w_db w) (w_db w')"

interpretation pool: rely_guarantee "sound_world h" later_world for h
  by unfold_locales (auto intro: kept_trans)

lemma pool_steady:
  assumes "\<And>d0. keeps (\<lambda>w. pool_inv h (w_db w) \<and> kept d0 (w_db w)) m"
  shows "pool.steady h m"
  unfolding pool.steady_def using keepsD [OF assms] kept_refl by blast

lemma pool_call: "(\<And>d0. keeps (\<lambda>w. pool_inv h (w_db w) \<and> kept d0 (w_db w)) m) \<Longrightarrow> pool.ok h (call m)"
  by (intro pool.ok_call pool_steady)

text \<open>A call that leaves the database alone.\<close>

lemma pool_quiet: "(\<And>I. keeps (\<lambda>w. I (w_db w)) m) \<Longrightarrow> pool.ok h (call m)"
  by (rule pool_call)

lemma pool_mapped [safe_intros]: "pool.ok h (mappedT r)"
  unfolding mappedT_def by (rule safe_intros)

lemma pool_records [safe_intros]:
  "pool.ok h (call (recordGuessActivityLog g p n hc win auto t))"
  "pool.ok h (call (recordGameOverActivityLog g reason winner t))"
  "pool.ok h (call (recordTimeoutActivityLog g p t))"
  "pool.ok h (call (recordAdminDeleteUserLog p q t))"
  by (rule pool_call, rule keeps_record, simp)+

subsection \<open>The game use case\<close>

lemma pool_messages [safe_intros]:
  "pool.ok h (buildGameState_task c u g)" "pool.ok h (notifyTurnChanged_task c gm)"
  "pool.ok h (notifyGameStart_task c g)" "pool.ok h (notifyGuessResult_task c g r fin v)"
proof -
  show state: "pool.ok h (buildGameState_task c u g)" for u g
    unfolding buildGameState_task_def Let_def by (intro safe_intros pool_quiet keeps_intros)
  show turn: "pool.ok h (notifyTurnChanged_task c gm)" for gm
    unfolding notifyTurnChanged_task_def Let_def by (intro safe_intros pool_quiet keeps_intros)
  show "pool.ok h (notifyGameStart_task c g)"
    unfolding notifyGameStart_task_def Let_def by (intro safe_intros state turn pool_quiet keeps_intros)
  show "pool.ok h (notifyGuessResult_task c g r fin v)"
    unfolding notifyGuessResult_task_def Let_def by (intro safe_intros turn pool_quiet keeps_intros)
qed

lemma pool_transactions [safe_intros]:
  "pool.ok (uc_Secrets c) (call (WithTx (cancelTx c g t)))"
  "pool.ok h (call (WithTx (startMatchingTx u t)))"
  "pool.ok h (call (WithTx (matchingQueueRepo_DeleteByUserID u)))"
proof -
  show "pool.ok (uc_Secrets c) (call (WithTx (cancelTx c g t)))"
    by (rule pool_call, rule keeps_WithTx) (rule pool_games.cancel_closed)
  show "pool.ok h (call (WithTx (startMatchingTx u t)))"
    by (rule pool_call, rule keeps_WithTx) (rule pool_matching.match_closed)
  show "pool.ok h (call (WithTx (matchingQueueRepo_DeleteByUserID u)))"
  proof (rule pool_call, rule keeps_WithTx)
    fix d0 w x w'
    assume "pool_inv h (w_db w) \<and> kept d0 (w_db w)" "matchingQueueRepo_DeleteByUserID u w = (Inr x, w')"
    then show "pool_inv h (w_db w') \<and> kept d0 (w_db w')"
      using pool_matching.leave_closed by (auto simp: matchingQueueRepo_DeleteByUserID_def dbExec_success)
  qed
qed

lemma pool_digits:
  assumes "four_distinct_digits ds"
  shows "pool.ok (uc_Secrets c) (call (WithTx (setSecretTx c u g ds)))"
    "pool.ok (uc_Secrets c) (call (WithTx (submitGuessTx c u g ds auto)))"
  by (rule pool_call, rule keeps_WithTx, erule pool_games.secret_closed [OF _ assms], assumption)
    (rule pool_call, rule keeps_WithTx, erule pool_games.guess_closed [OF _ assms], assumption)

lemma pool_validated:
  assumes "pool.ok h t" "\<And>x ds. four_distinct_digits ds \<Longrightarrow> pool.ok h (k x ds)"
  shows "pool.ok h (thenT t (\<lambda>x. thenT (liftT (ValidateFourDigits s)) (k x)))"
  using assms by (intro pool.ok_then pool.ok_then_lift) (simp_all add: ValidateFourDigits_Inr)

lemma pool_game_handlers [safe_intros]:
  "pool.ok (uc_Secrets c) (SetSecretNumber_task c u g s)"
  "pool.ok (uc_Secrets c) (SubmitGuess_task c u g s auto)"
  "pool.ok (uc_Secrets c) (HandleTimeout_task c g u)"
  "pool.ok (uc_Secrets c) (CancelBySecretTimeout_task c g)"
proof -
  show "pool.ok (uc_Secrets c) (SetSecretNumber_task c u g s)"
    unfolding SetSecretNumber_task_def
    by (rule pool_validated; intro safe_intros pool_digits pool_quiet keeps_intros; assumption)
  show guess: "pool.ok (uc_Secrets c) (SubmitGuess_task c u g s auto)" for u g s auto
    unfolding SubmitGuess_task_def
    by (rule pool_validated; intro safe_intros pool_digits pool_quiet keeps_intros; assumption)
  show "pool.ok (uc_Secrets c) (HandleTimeout_task c g u)"
    unfolding HandleTimeout_task_def validateTimeoutGame_def by (intro safe_intros guess pool_quiet keeps_intros)
  show "pool.ok (uc_Secrets c) (CancelBySecretTimeout_task c g)"
    unfolding CancelBySecretTimeout_task_def by (intro safe_intros pool_quiet keeps_intros)
qed

lemma pool_matching_handlers [safe_intros]:
  "pool.ok h (StartMatching_task n u)" "pool.ok h (CancelMatching_task u)"
  unfolding StartMatching_task_def CancelMatching_task_def findActiveGameForUser_def userWaitingInMatchingQueue_def
  by (intro safe_intros pool_quiet keeps_intros)+

subsection \<open>Accounts and sessions\<close>

lemma pool_account_transactions:
  "pool.ok h (call (WithTx (logoutTx u t)))" "pool.ok h (call (WithTx (userRepo_Create (new_user i n e p r t))))"
  "pool.ok h (call (WithTx (revokeRefreshTokenFamily f t)))" "pool.ok h (call (revokeExpiredRefreshToken k t))"
  "pool.ok h (call (WithTx (rotateRefreshToken a s t)))" "pool.ok h (call (WithTx (logoutUserTx u t)))"
  by (rule pool_call, rule keeps_WithTx, erule (1) pool_accounts.logoutTx_closed)
    (rule pool_call, intro keeps_WithTx_body pool_accounts.keeps_Create,
     rule pool_call, rule pool_accounts.keeps_revocations,
     rule pool_call, rule pool_accounts.keeps_revocations,
     rule pool_call, rule pool_accounts.keeps_rotateRefreshToken,
     rule pool_call, rule keeps_WithTx, erule (1) pool_accounts.logoutUserTx_closed)

lemma pool_account_handlers [safe_intros]:
  "pool.ok h (Logout_task a u j e)" "pool.ok h (Register_task a n m p)" "pool.ok h (Refresh_task a s)"
  "pool.ok h (logoutUser_task l u t)"
  unfolding Logout_task_def Revoke_def Register_task_def emailOrUsernameExists_task_def Refresh_task_def
    handleReusedRefreshToken_task_def logoutUser_task_def Let_def
  by (intro safe_intros pool_account_transactions pool_quiet keeps_intros)+

lemma pool_ranking:
  "pool.ok h Rebuild_task" "pool.ok h (RunScheduledRebuild_task r)" "pool.ok h (AdminRebuildRanking_task a adm)"
proof -
  have tx: "pool.ok h (call (WithTx (rankingRepo_ReplaceAll rs)))" for rs
    unfolding rankingRepo_ReplaceAll_def
    by (rule pool_call) (auto intro!: keeps_WithTx_body keeps_intros keeps_dbExec split: if_splits)
  show rebuild: "pool.ok h Rebuild_task"
    unfolding Rebuild_task_def listUsersForRankingRebuild_def userRepo_ListAll_def
    by (intro safe_intros tx pool_quiet keeps_intros)
  have log: "pool.ok h (call (recordAdminRebuildRankingLog adm t))" for t
    by (rule pool_call, rule keeps_record) simp
  show "pool.ok h (RunScheduledRebuild_task r)" "pool.ok h (AdminRebuildRanking_task a adm)"
    unfolding RunScheduledRebuild_task_def AdminRebuildRanking_task_def acquireRankingRebuildLock_def
    by (intro safe_intros rebuild log pool_quiet keeps_intros)+
qed

lemma pool_housekeeping:
  "pool.ok h (CleanupExpiredRefreshTokens_task a)" "pool.ok h (RecordConnection_task u k)"
  "pool.ok h (CloseConnectionLog_task l)" "pool.ok h (ActivityUpdate_task u)"
proof -
  have step: "pool.ok h (call (refreshTokenRepo_DeleteExpired c))" for c
    by (rule pool_call) (rule pool_accounts.keeps_tokens)
  show "pool.ok h (CleanupExpiredRefreshTokens_task a)"
    unfolding CleanupExpiredRefreshTokens_task_def Let_def by (intro safe_intros step pool_quiet keeps_intros)
  have step: "pool.ok h (call (wsConnectionLogRepo_Create x))" for x
    unfolding wsConnectionLogRepo_Create_def by (rule pool_call, rule keeps_dbExec) auto
  show "pool.ok h (RecordConnection_task u k)"
    unfolding RecordConnection_task_def by (intro safe_intros step pool_quiet keeps_intros)
  have step: "pool.ok h (call (ignoreErr (wsConnectionLogRepo_UpdateDisconnected l t)))" for t
    unfolding wsConnectionLogRepo_UpdateDisconnected_def by (rule pool_call, rule keeps_ignoreErr, rule keeps_dbExec) auto
  show "pool.ok h (CloseConnectionLog_task l)"
    unfolding CloseConnectionLog_task_def by (intro safe_intros step pool_quiet keeps_intros)
  have step: "pool.ok h (call (ignoreErr (userRepo_TouchLastActivity u t)))" for t
    unfolding userRepo_TouchLastActivity_def
  proof (rule pool_call, rule keeps_ignoreErr, rule keeps_dbExec)
    fix d0 dia d x d'
    assume I: "pool_inv h d \<and> kept d0 d"
      and "Some ((), d\<lparr>db_users := update_rows (\<lambda>x. user_ID x = u \<and> user_DeletedAt x = None)
        (\<lambda>u. u\<lparr>user_LastActivityAt := t, user_UpdatedAt := t\<rparr>) (db_users d)\<rparr>) = Some (x, d')"
    then have "d' = d\<lparr>db_users := update_rows (\<lambda>x. user_ID x = u \<and> user_DeletedAt x = None)
        (\<lambda>u. touched u t) (db_users d)\<rparr>" by (simp add: touched_def)
    with pool_inv_touch_rows I kept_trans show "pool_inv h d' \<and> kept d0 d'" by blast
  qed
  show "pool.ok h (ActivityUpdate_task u)"
    unfolding ActivityUpdate_task_def by (intro safe_intros step pool_quiet keeps_intros)
qed

subsection \<open>Handlers that write a row back\<close>

text \<open>The row that was read, if there is one, is known in every later sound database.\<close>

definition known_found :: "user option \<Rightarrow> world \<Rightarrow> bool" where
  "known_found x w \<longleftrightarrow> (\<forall>u. x = Some u \<longrightarrow> known (w_db w) u)"

definition lasting :: "hasher \<Rightarrow> user \<Rightarrow> world \<Rightarrow> bool" where
  "lasting h u v \<longleftrightarrow> sound_world h v \<and> (\<forall>v'. later_world v v' \<longrightarrow> known (w_db v') u)"

abbreviation pool_safe :: "hasher \<Rightarrow> (world, 'a) task \<Rightarrow> world \<Rightarrow> bool" where
  "pool_safe h \<equiv> safe (sound_world h) later_world"

lemma pool_find:
  assumes quiet: "\<And>I. keeps (\<lambda>w. I (w_db w)) m"
    and found: "\<And>v u v'. m v = (Inr (Some u), v') \<Longrightarrow> u \<in> set (db_users (w_db v))"
    and use: "\<And>u v. lasting h u v \<Longrightarrow> pool_safe h (k (Some u)) v"
    and none: "pool.ok h (k None)"
  shows "pool.ok h (thenT (call m) k)"
proof (rule pool.ok_then_known [where K = known_found])
  show "pool.steady h m" by (rule pool_steady) (rule quiet)
  show "known_found x v'" if v: "sound_world h v" and run: "m v = (Inr x, v')" for v x v'
  proof -
    have db: "w_db v' = w_db v" by (rule silent [OF quiet run])
    have "known (w_db v) u" if "x = Some u" for u
      by (rule known_row [OF v found]) (rule run [unfolded that])
    then show ?thesis by (simp only: known_found_def db) blast
  qed
  show "known_found x v'" if x: "known_found x v" and v: "sound_world h v" "later_world v v'" for x v v'
  proof -
    have "known (w_db v') u" if "x = Some u" for u
      using known_kept [OF _ v] x that by (simp only: known_found_def)
    then show ?thesis by (simp only: known_found_def) blast
  qed
  show "pool_safe h (k x) v" if v: "sound_world h v" and x: "\<And>v'. later_world v v' \<Longrightarrow> known_found x v'" for x v
  proof (cases x)
    case None
    then show ?thesis using none v by (simp only: pool.ok_def)
  next
    case (Some u)
    have "known (w_db v') u" if "later_world v v'" for v'
      using x [OF that] by (simp only: known_found_def Some)
    with v have "lasting h u v" by (simp only: lasting_def) blast
    then show ?thesis unfolding Some by (rule use)
  qed
qed

text \<open>A later call may use that the row is known.\<close>

lemma pool_known:
  assumes "lasting h u v"
    and keeps: "\<And>d0. keeps (\<lambda>w. pool_inv h (w_db w) \<and> kept d0 (w_db w) \<and> known (w_db w) u) m"
  shows "pool_safe h (call m) v"
proof (rule pool.safe_call)
  show "sound_world h (snd (m w)) \<and> later_world w (snd (m w))" if "sound_world h w" "later_world v w" for w
    using keepsD [OF keeps, of w "w_db w"] that assms(1) by (simp add: lasting_def)
qed

lemma pool_then:
  assumes "pool_safe h t v" and v: "lasting h u v" and k: "\<And>x v. lasting h u v \<Longrightarrow> pool_safe h (k x) v"
  shows "pool_safe h (thenT t k) v"
proof (rule pool.safe_then [OF assms(1)])
  show "pool_safe h (k x) v'" if "later_world v v'" "sound_world h v'" for x v'
    by (rule k) (use v that kept_trans [OF that(1)] in \<open>simp add: lasting_def\<close>)
qed (use v in \<open>simp add: lasting_def\<close>)

lemma pool_any: "pool.ok h t \<Longrightarrow> lasting h u v \<Longrightarrow> pool_safe h t v"
  by (simp add: pool.ok_def lasting_def)

lemma pool_if: "pool_safe h t v \<Longrightarrow> pool_safe h t' v \<Longrightarrow> pool_safe h (if b then t else t') v"
  by simp

lemma known_save:
  assumes "pool_inv h d \<and> kept d0 d \<and> known d u" "same_account u u'" "user_WinCount u' = user_WinCount u"
  shows "pool_inv h (d\<lparr>db_users := save_row user_ID u' (db_users d)\<rparr>) \<and>
    kept d0 (d\<lparr>db_users := save_row user_ID u' (db_users d)\<rparr>) \<and>
    known (d\<lparr>db_users := save_row user_ID u' (db_users d)\<rparr>) u"
  using known_saved [of h d u u'] known_kept [of d u h] kept_trans [of d0 d] assms by blast

lemma known_frame [simp]:
  "known (d\<lparr>db_queue := q\<rparr>) u = known d u" "known (d\<lparr>db_tokens := tk\<rparr>) u = known d u"
  "known (d\<lparr>db_loginlogs := ll\<rparr>) u = known d u"
  by (simp_all add: known_def)

lemma keeps_known_update:
  assumes "same_account u u'" "user_WinCount u' = user_WinCount u"
  shows "keeps (\<lambda>w. pool_inv h (w_db w) \<and> kept d0 (w_db w) \<and> known (w_db w) u) (userRepo_Update u')"
  unfolding userRepo_Update_def
proof (rule keeps_dbExec)
  fix dia d x d'
  assume I: "pool_inv h d \<and> kept d0 d \<and> known d u"
    and "(if dia = Postgres \<and> \<not> user_fits u' then None
      else Some ((), d\<lparr>db_users := save_row user_ID u' (db_users d)\<rparr>)) = Some (x, d')"
  then have "d' = d\<lparr>db_users := save_row user_ID u' (db_users d)\<rparr>" by (simp split: if_splits)
  with known_save [OF I assms] show "pool_inv h d' \<and> kept d0 d' \<and> known d' u" by simp
qed

lemma keeps_known_login:
  "keeps (\<lambda>w. pool_inv h (w_db w) \<and> kept d0 (w_db w) \<and> known (w_db w) u) (WithTx (loginTx a u t))"
proof (rule keeps_WithTx)
  fix w x w'
  assume I: "pool_inv h (w_db w) \<and> kept d0 (w_db w) \<and> known (w_db w) u" and run: "loginTx a u t w = (Inr x, w')"
  have saved: "pool_inv h (w_db w') \<and> kept d (w_db w')" if "kept d (w_db w)" for d
    by (rule pool_accounts.loginTx_saves [OF _ run])
      (use known_save [of h "(w_db w)\<lparr>db_loginlogs := ls\<rparr>" d u "touched u t" for ls] I that
        in \<open>simp add: same_account_def\<close>)
  from saved [OF kept_refl] have "known (w_db w') u" using known_kept [of "w_db w" u h] I by blast
  with saved [of d0] I show "pool_inv h (w_db w') \<and> kept d0 (w_db w') \<and> known (w_db w') u" by blast
qed

lemma keeps_known_delete:
  "keeps (\<lambda>w. pool_inv h (w_db w) \<and> kept d0 (w_db w) \<and> known (w_db w) u) (WithTx (deleteUserTx adm i u t))"
proof (rule keeps_WithTx)
  fix w x w'
  assume I: "pool_inv h (w_db w) \<and> kept d0 (w_db w) \<and> known (w_db w) u" and run: "deleteUserTx adm i u t w = (Inr x, w')"
  define d where "d = (w_db w)\<lparr>
    db_tokens := update_rows (\<lambda>r. token_UserID r = i \<and> token_revocable r) (token_revoke t) (db_tokens (w_db w))\<rparr>"
  let ?e = "d\<lparr>db_queue := delete_rows (\<lambda>e. entry_UserID e = i) (db_queue d)\<rparr>"
  have d: "pool_inv h d \<and> kept d0 d" "known d u" using I by (simp_all add: d_def)
  have "pool_inv h ?e \<and> kept d0 ?e" by (rule pool_matching.leave_closed [OF d(1)])
  then have "pool_inv h ?e \<and> kept d0 ?e \<and> known ?e u" using d(2) by simp
  from known_save [OF this, of "deleted_user u adm t"]
  show "pool_inv h (w_db w') \<and> kept d0 (w_db w') \<and> known (w_db w') u"
    by (simp add: same_account_def deleted_user_def deleteUserTx_success [OF run] deleted_db_def d_def)
qed

lemma userRepo_FindByID_row:
  assumes "userRepo_FindByID i v = (Inr (Some u), v')"
  shows "u \<in> set (db_users (w_db v))"
proof -
  from assms have "first_row user_ID (\<lambda>u. user_ID u = i) (db_users (w_db v)) = Some u"
    by (auto simp: success_iff find_defs)
  then show ?thesis by (auto dest: first_row_Some)
qed

lemma pool_TouchActivity [safe_intros]: "pool.ok h (TouchActivity_task i)"
  unfolding TouchActivity_task_def
proof (rule pool.ok_attempt(2), rule pool_find, rule keeps_intros, rule userRepo_FindByID_row, assumption)
  fix u v assume v: "lasting h u v"
  have "pool_safe h (call (userRepo_Update (u\<lparr>user_LastActivityAt := t, user_UpdatedAt := t\<rparr>))) v"
    if "lasting h u v" for t v
    by (rule pool_known [OF that keeps_known_update]) (simp_all add: same_account_def)
  then have "pool_safe h (thenT (call now) (\<lambda>t.
      call (userRepo_Update (u\<lparr>user_LastActivityAt := t, user_UpdatedAt := t\<rparr>)))) v"
    by (intro pool_then [OF pool_any [OF _ v] v] pool_quiet keeps_intros)
  then show "pool_safe h (case Some u of None \<Rightarrow> retT () | Some u \<Rightarrow> if IsDeleted u then retT ()
       else thenT (call now) (\<lambda>t. call (userRepo_Update (u\<lparr>user_LastActivityAt := t, user_UpdatedAt := t\<rparr>)))) v"
    by simp
qed (simp add: safe_intros)

lemma pool_Login [safe_intros]: "pool.ok h (Login_task a e p)"
  unfolding Login_task_def
proof (rule pool.ok_then [OF pool_mapped pool.ok_then [OF pool_mapped pool_find]])
  show "keeps (\<lambda>w. I (w_db w)) (findUserByEmailActive e)" for I
    unfolding findUserByEmailActive_def by (intro keeps_intros)
  show "u \<in> set (db_users (w_db v))" if "findUserByEmailActive e v = (Inr (Some u), v')" for v u v'
    using pool_accounts.findUserByEmailActive_success [OF that] by simp
  fix u v assume v: "lasting h u v"
  have "pool_safe h (thenT (call now) (\<lambda>t. thenT (call (WithTx (loginTx a u t))) (\<lambda>tokens. retT (f tokens)))) v"
    for f :: "SessionTokens \<Rightarrow> LoginResult"
    by (rule pool_then [OF pool_any [OF _ v] v], intro pool_quiet keeps_intros, rule pool_then,
        rule pool_known [OF _ keeps_known_login]) (simp_all add: safe_intros)
  then show "pool_safe h (case Some u of None \<Rightarrow> throwT ErrUnauthorized
      | Some u \<Rightarrow> if \<not> PasswordVerify (au_Services a) (user_PasswordHash u) p then throwT ErrUnauthorized
        else thenT (call now) (\<lambda>t. thenT (call (WithTx (loginTx a u t))) (\<lambda>tokens.
          retT \<lparr>lr_AccessToken = st_AccessToken tokens, lr_RefreshToken = st_RefreshToken tokens,
            lr_ID = user_ID u, lr_Username = user_Username u, lr_Role = Role_string (user_Role u)\<rparr>))) v"
    by simp
qed (simp add: safe_intros)

lemma pool_AdminDeleteUser [safe_intros]: "pool.ok h (AdminDeleteUser_task a adm i)"
  unfolding AdminDeleteUser_task_def
proof (rule pool.ok_then, intro pool_quiet keeps_intros, rule pool.ok_cases(1), rule pool.ok_Done,
    rule pool_find, rule keeps_intros, rule userRepo_FindByID_row, assumption)
  fix u v assume v: "lasting h u v"
  have quiet: "pool.ok h (call (findActiveGameForUser i))" "pool.ok h (call now)"
    "pool.ok h (case ad_ForceLogout a of None \<Rightarrow> retT () | Some s \<Rightarrow> call (SetForceLogoutBefore s i t))"
    "pool.ok h (case ad_WSSessions a of
        None \<Rightarrow> retT () | Some ws \<Rightarrow> call (ignoreErr (SessionStore_DeleteUser ws i)))" for t
    unfolding findActiveGameForUser_def by (intro safe_intros pool_quiet keeps_intros)+
  show "pool_safe h (case Some u of None \<Rightarrow> throwT ErrNotFound
     | Some target \<Rightarrow>
         if IsDeleted target then throwT ErrUserAlreadyDeleted
         else if IsMaster target then throwT ErrCannotDeleteMaster
         else thenT (call (findActiveGameForUser i)) (\<lambda>active.
         if active \<noteq> None then throwT ErrUserInActiveGame
         else thenT (call now) (\<lambda>t.
         thenT (case ad_ForceLogout a of None \<Rightarrow> retT () | Some s \<Rightarrow> call (SetForceLogoutBefore s i t)) (\<lambda>_.
         thenT (case ad_WSSessions a of
             None \<Rightarrow> retT () | Some ws \<Rightarrow> call (ignoreErr (SessionStore_DeleteUser ws i))) (\<lambda>_.
         thenT (call (WithTx (deleteUserTx adm i target t))) (\<lambda>_.
         call (recordAdminDeleteUserLog adm i t))))))) v"
    unfolding option.case
    by (intro pool_if safe_Done pool_then [where u = u] pool_any [OF quiet(1), where u = u]
        pool_any [OF quiet(2), where u = u] pool_any [OF quiet(3), where u = u] pool_any [OF quiet(4), where u = u]
        pool_known [OF _ keeps_known_delete] pool_any [OF pool_records(4), where u = u] v)
qed (simp add: safe_intros)

subsection \<open>Every schedule\<close>

text \<open>
  A request, message or call of a worker that changes accounts, sessions, games, the queue, the ranking or
  the log of connections, and the settings of the use cases that serve it. \<open>Guessing\<close> is a message of a
  player, \<open>TurnOver\<close> the timeout worker's call for an expired turn, \<open>Idle\<close> the automatic logout of a user,
  \<open>Active\<close> and \<open>Answered\<close> the notes of a user's activity by the connection and after a request.
\<close>

record Services =
  sv_Game :: GameUseCase
  sv_Matching :: bool
  sv_Auth :: AuthUseCase
  sv_Admin :: AdminUseCase
  sv_AutoLogout :: AutoLogoutUseCase
  sv_Ranking :: RankingUseCase

datatype client_request =
    SettingSecret uuid uuid string
  | Guessing uuid uuid string
  | TurnOver uuid uuid
  | SetupOver uuid
  | JoiningQueue uuid
  | LeavingQueue uuid
  | LoggingIn string string
  | LoggingOut uuid string time
  | Registering string string string
  | Refreshing string
  | DeletingUser uuid uuid
  | Idle uuid time
  | Active uuid
  | Answered uuid
  | Connecting uuid string
  | Disconnecting uuid
  | RebuildingRanking uuid
  | ScheduledRebuild
  | CleaningUp

definition discard :: "(world, 'a) task \<Rightarrow> (world, unit) task" where
  "discard t = thenT t (\<lambda>_. retT ())"

fun request_task :: "Services \<Rightarrow> client_request \<Rightarrow> (world, unit) task" where
  "request_task s (SettingSecret u g n) = SetSecretNumber_task (sv_Game s) u g n"
| "request_task s (Guessing u g n) = SubmitGuess_task (sv_Game s) u g n False"
| "request_task s (TurnOver g u) = HandleTimeout_task (sv_Game s) g u"
| "request_task s (SetupOver g) = CancelBySecretTimeout_task (sv_Game s) g"
| "request_task s (JoiningQueue u) = discard (StartMatching_task (sv_Matching s) u)"
| "request_task s (LeavingQueue u) = discard (CancelMatching_task u)"
| "request_task s (LoggingIn e p) = discard (Login_task (sv_Auth s) e p)"
| "request_task s (LoggingOut u j e) = Logout_task (sv_Auth s) u j e"
| "request_task s (Registering n e p) = discard (Register_task (sv_Auth s) n e p)"
| "request_task s (Refreshing r) = discard (Refresh_task (sv_Auth s) r)"
| "request_task s (DeletingUser adm u) = AdminDeleteUser_task (sv_Admin s) adm u"
| "request_task s (Idle u t) = logoutUser_task (sv_AutoLogout s) u t"
| "request_task s (Active u) = TouchActivity_task u"
| "request_task s (Answered u) = ActivityUpdate_task u"
| "request_task s (Connecting u k) = discard (RecordConnection_task u k)"
| "request_task s (Disconnecting l) = CloseConnectionLog_task l"
| "request_task s (RebuildingRanking adm) = AdminRebuildRanking_task (sv_Admin s) adm"
| "request_task s ScheduledRebuild = RunScheduledRebuild_task (sv_Ranking s)"
| "request_task s CleaningUp = CleanupExpiredRefreshTokens_task (sv_Auth s)"

text \<open>What a request does when nothing else runs.\<close>

fun request_prog :: "Services \<Rightarrow> client_request \<Rightarrow> unit go" where
  "request_prog s (SettingSecret u g n) = SetSecretNumber (sv_Game s) u g n"
| "request_prog s (Guessing u g n) = SubmitGuess (sv_Game s) u g n False"
| "request_prog s (TurnOver g u) = HandleTimeout (sv_Game s) g u"
| "request_prog s (SetupOver g) = CancelBySecretTimeout (sv_Game s) g"
| "request_prog s (JoiningQueue u) = andThen (StartMatching (sv_Matching s) u) (\<lambda>_. ret ())"
| "request_prog s (LeavingQueue u) = andThen (CancelMatching u) (\<lambda>_. ret ())"
| "request_prog s (LoggingIn e p) = andThen (Login (sv_Auth s) e p) (\<lambda>_. ret ())"
| "request_prog s (LoggingOut u j e) = Logout (sv_Auth s) u j e"
| "request_prog s (Registering n e p) = andThen (Register (sv_Auth s) n e p) (\<lambda>_. ret ())"
| "request_prog s (Refreshing r) = andThen (Refresh (sv_Auth s) r) (\<lambda>_. ret ())"
| "request_prog s (DeletingUser adm u) = AdminDeleteUser (sv_Admin s) adm u"
| "request_prog s (Idle u t) = logoutUser (sv_AutoLogout s) u t"
| "request_prog s (Active u) = TouchActivity u"
| "request_prog s (Answered u) = andThen now (\<lambda>t. ignoreErr (userRepo_TouchLastActivity u t))"
| "request_prog s (Connecting u k) = andThen (RecordConnection u k) (\<lambda>_. ret ())"
| "request_prog s (Disconnecting l) = CloseConnectionLog l"
| "request_prog s (RebuildingRanking adm) = AdminRebuildRanking (sv_Admin s) adm"
| "request_prog s ScheduledRebuild = RunScheduledRebuild (sv_Ranking s)"
| "request_prog s CleaningUp = CleanupExpiredRefreshTokens (sv_Auth s)"

lemma alone_request: "alone (request_task s rq) = request_prog s rq"
  by (cases rq) (simp_all only: request_task.simps request_prog.simps discard_def alone_simps alone_handlers)

lemma pool_requests: "pool.ok (uc_Secrets (sv_Game s)) (request_task s rq)"
  by (cases rq) (simp_all only: request_task.simps discard_def, (intro safe_intros pool_ranking pool_housekeeping)+)

text \<open>The pools that requests reach from a database on which nothing runs yet.\<close>

definition served :: "Services \<Rightarrow> world \<Rightarrow> world pool \<Rightarrow> bool" where
  "served s w p = interleaved (\<lambda>t. \<exists>rq. t = request_task s rq) (w, []) p"

lemma served_sound:
  assumes "served s w (w', ts)" "pool_inv (uc_Secrets (sv_Game s)) (w_db w)"
  shows "pool_inv (uc_Secrets (sv_Game s)) (w_db w') \<and> kept (w_db w) (w_db w')"
proof -
  from assms(1) have run: "interleaved (\<lambda>t. \<exists>rq. t = request_task s rq) (w, []) (w', ts)"
    by (simp only: served_def)
  have arrivals: "pool_safe (uc_Secrets (sv_Game s)) t v"
    if "\<exists>rq. t = request_task s rq" "sound_world (uc_Secrets (sv_Game s)) v" for t v
    using pool_requests [of s] that unfolding pool.ok_def by blast
  from pool.interleaved_safe [OF run _ _ arrivals] assms(2) show ?thesis by simp
qed

end
