(* ===== verification/Races.thy ===== *)
theory Races
  imports Requests Lockout
begin

text \<open>
  What schedules can break. \<open>Login\<close> reads the row of the account, checks the password, and then saves
  all columns of the row it has read (usecase/auth_login.go): what other requests did to the row in
  between is undone. A schedule is a list of arrivals and turns, so that a witness can run one.
\<close>

subsection \<open>Schedules\<close>

fun schedule :: "Services \<Rightarrow> (client_request + nat) list \<Rightarrow> world pool \<Rightarrow> world pool" where
  "schedule s [] p = p"
| "schedule s (Inl rq # es) (w, ts) = schedule s es (w, ts @ [request_task s rq])"
| "schedule s (Inr i # es) (w, ts) = schedule s es
     (if i < length ts then (case ts ! i of Done r \<Rightarrow> (w, ts) | Call f \<Rightarrow> (snd (f w), ts[i := fst (f w)]))
      else (w, ts))"

lemma served_step:
  assumes "served s w p" "interleave (\<lambda>t. \<exists>rq. t = request_task s rq) p p'"
  shows "served s w p'"
  using assms interleaved.more unfolding served_def by blast

lemma schedule_served: "served s w p \<Longrightarrow> served s w (schedule s es p)"
proof (induction s es p rule: schedule.induct)
  case (2 s rq es v ts)
  show ?case unfolding schedule.simps
    by (rule "2.IH", rule served_step [OF "2.prems"], rule interleave.arrive) blast
next
  case (3 s i es v ts)
  show ?case unfolding schedule.simps
  proof (rule "3.IH")
    show "served s w (if i < length ts then (case ts ! i of Done r \<Rightarrow> (v, ts)
        | Call f \<Rightarrow> (snd (f v), ts[i := fst (f v)])) else (v, ts))"
    proof (cases "i < length ts")
      case True
      show ?thesis
      proof (cases "ts ! i")
        case (Call f)
        have "interleave (\<lambda>t. \<exists>rq. t = request_task s rq) (v, ts) (snd (f v), ts[i := fst (f v)])"
          by (rule interleave.call [OF True Call]) simp
        then have "served s w (snd (f v), ts[i := fst (f v)])" by (rule served_step [OF "3.prems"])
        with True Call show ?thesis by simp
      qed (use True "3.prems" in simp)
    qed (use "3.prems" in simp)
  qed
qed simp

lemma schedule_from_start: "served s w (schedule s es (w, []))"
  by (rule schedule_served) (simp add: served_def interleaved.none)

lemma length_schedule: "length (snd (schedule s es p)) = length (snd p) + length (filter isl es)"
  by (induction s es p rule: schedule.induct) (simp_all split: task.split)

subsection \<open>A login that is overtaken\<close>

lemma loginTx_writes:
  assumes run: "loginTx a u t w = (Inr x, w')" and dist: "distinct (map user_ID (db_users (w_db w)))"
  shows "touched u t \<in> set (db_users (w_db w')) \<and> distinct (map user_ID (db_users (w_db w'))) \<and>
    db_histories (w_db w') = db_histories (w_db w)"
proof -
  from run obtain w1 w2 y where
      "createLoginLog (user_ID u) LoginActionLogin t w = (Inr (), w1)"
      "touchUserActivity u t w1 = (Inr (), w2)"
      "issueSession a (touched u t) w2 = (Inr y, w')"
    by (auto simp: loginTx_def touched_def andThen_success)
  note runs = this
  from runs(1) obtain l where w1: "w_db w1 = (w_db w)\<lparr>db_loginlogs := db_loginlogs (w_db w) @ [l]\<rparr>"
    by (auto simp: createLoginLog_def success_iff)
  from runs(2) have w2: "w_db w2 = (w_db w1)\<lparr>db_users := save_row user_ID (touched u t) (db_users (w_db w1))\<rparr>"
    by (auto simp: touchUserActivity_def touched_def success_iff)
  from issueSession_success [OF runs(3)] obtain ts where w': "w_db w' = (w_db w2)\<lparr>db_tokens := ts\<rparr>" by blast
  have users: "db_users (w_db w') = save_row user_ID (touched u t) (db_users (w_db w))" by (simp add: w' w2 w1)
  have "touched u t \<in> set (save_row user_ID (touched u t) (db_users (w_db w)))"
    by (simp add: set_save_row [OF dist])
  moreover have "distinct (map user_ID (save_row user_ID (touched u t) (db_users (w_db w))))"
    by (rule distinct_save_row [OF dist])
  ultimately show ?thesis by (simp add: users) (simp add: w' w2 w1)
qed

text \<open>
  A login whose first call read the row of the account, and whose other calls run in any later world:
  if it succeeds, the row it leaves is the one it read, but for the times.
\<close>

definition Login_rest :: "AuthUseCase \<Rightarrow> user \<Rightarrow> (world, LoginResult) task" where
  "Login_rest a u = thenT (call now) (\<lambda>t. thenT (call (WithTx (loginTx a u t))) (\<lambda>tokens.
     retT \<lparr>lr_AccessToken = st_AccessToken tokens, lr_RefreshToken = st_RefreshToken tokens,
          lr_ID = user_ID u, lr_Username = user_Username u, lr_Role = Role_string (user_Role u)\<rparr>))"

lemma Login_task_alt:
  "Login_task a email password =
     thenT (mappedT (ValidateLoginEmail email)) (\<lambda>_.
     thenT (mappedT (ValidatePassword password)) (\<lambda>_.
     thenT (call (findUserByEmailActive email)) (\<lambda>found.
     case found of
       None \<Rightarrow> throwT ErrUnauthorized
     | Some u \<Rightarrow> if \<not> PasswordVerify (au_Services a) (user_PasswordHash u) password then throwT ErrUnauthorized
                 else Login_rest a u)))"
  by (simp only: Login_task_def Login_rest_def)

lemma alone_Login_rest:
  assumes "alone (Login_rest a u) w = (Inr r, w')" "distinct (map user_ID (db_users (w_db w)))"
  shows "lr_ID r = user_ID u \<and> (\<exists>t. touched u t \<in> set (db_users (w_db w'))) \<and>
    distinct (map user_ID (db_users (w_db w'))) \<and> db_histories (w_db w') = db_histories (w_db w)"
proof -
  from assms(1) obtain t w1 x w2 where clock: "now w = (Inr t, w1)"
    and tx: "WithTx (loginTx a u t) w1 = (Inr x, w2)"
    and out: "(Inr r, w') = (Inr \<lparr>lr_AccessToken = st_AccessToken x, lr_RefreshToken = st_RefreshToken x,
      lr_ID = user_ID u, lr_Username = user_Username u, lr_Role = Role_string (user_Role u)\<rparr>, w2)"
    by (auto simp: Login_rest_def alone_simps andThen_success ret_success)
  from clock have db1: "w_db w1 = w_db w" by (simp add: now_success)
  from tx obtain v v' where v: "w_db v = w_db w1" "loginTx a u t v = (Inr x, v')" "w_db w2 = w_db v'"
    by (rule WithTx_db)
  from loginTx_writes [OF v(2)] assms(2) v(1,3) db1 out show ?thesis by auto
qed

lemma Login_overtaken:
  assumes read: "advance 1 (Login_task a e p, w) = (t, w1)" and rest: "alone t w2 = (Inr r, w3)"
    and dist: "distinct (map user_ID (db_users (w_db w2)))"
  obtains u where "u \<in> set (db_users (w_db w))" "user_Email u = e" "\<not> IsDeleted u" "lr_ID r = user_ID u"
    "w_db w1 = w_db w" "t = Login_rest a u" "alone (Login_rest a u) w2 = (Inr r, w3)"
proof -
  have "alone (Done (Inl x)) w2 \<noteq> (Inr r, w3)" for x :: go_error by (simp add: alone_simps throw_def)
  moreover have "alone t w2 = (Inr r, w3)" by (rule rest)
  ultimately have t: "t \<noteq> Done (Inl x)" for x by blast
  have "advance 1 (thenT (call m) k, w) =
      ((case fst (m w) of Inl e \<Rightarrow> Done (Inl e) | Inr x \<Rightarrow> k x), snd (m w))" for m :: "'x go" and k
    by (simp add: then_call_eq)
  note step = this
  have "ValidateLoginEmail e = Inr ()" "ValidatePassword p = Inr ()"
    using read t by (auto simp: Login_task_alt mappedT_def liftT_def split: sum.splits)
  then have "advance 1 (thenT (call (findUserByEmailActive e)) (\<lambda>found.
      case found of None \<Rightarrow> throwT ErrUnauthorized
      | Some u \<Rightarrow> if \<not> PasswordVerify (au_Services a) (user_PasswordHash u) p then throwT ErrUnauthorized
                  else Login_rest a u), w) = (t, w1)"
    using read by (simp add: Login_task_alt mappedT_def liftT_def)
  with t obtain u where find: "findUserByEmailActive e w = (Inr (Some u), w1)" and "t = Login_rest a u"
    unfolding step by (cases "findUserByEmailActive e w") (auto split: sum.splits option.splits if_splits)
  with pool_accounts.findUserByEmailActive_success [OF find] alone_Login_rest [of a u w2 r w3] rest dist show thesis
    by (intro that) auto
qed

lemma Login_reads:
  assumes "advance 1 (Login_task a e p, w) = (t, w1)"
  shows "w_db w1 = w_db w"
proof -
  have quiet: "\<And>I. keeps (\<lambda>w. I (w_db w)) (findUserByEmailActive e)"
    unfolding findUserByEmailActive_def by (intro keeps_intros)
  show ?thesis
  proof (cases "findUserByEmailActive e w")
    case (Pair r w2)
    with silent [OF quiet Pair] assms show ?thesis
      by (auto simp: Login_task_alt mappedT_def liftT_def then_call_eq split: sum.splits)
  qed
qed

text \<open>The administrator deletes the account in between: afterwards it is not deleted any more.\<close>

lemma Login_undeletes:
  assumes inv: "accounts_inv (w_db w)"
    and read: "advance 1 (Login_task a e p, w) = (t, w1)"
    and deleted: "AdminDeleteUser ad adm i w1 = (Inr (), w2)"
    and rest: "alone t w2 = (Inr r, w3)" and same: "lr_ID r = i"
  shows "account_deleted (w_db w2) i \<and> \<not> account_deleted (w_db w3) i"
proof -
  have w1: "w_db w1 = w_db w" by (rule Login_reads [OF read])
  have dist: "distinct (map user_ID (db_users (w_db w2)))"
    using deleted
  proof (cases rule: AdminDeleteUser_success)
    case (1 u t l)
    have "distinct (map user_ID (db_users (w_db w)))" using inv by (simp add: accounts_inv_def)
    then have "distinct (map user_ID (save_row user_ID (deleted_user u adm t) (db_users (w_db w))))"
      by (rule distinct_save_row)
    then show ?thesis by (simp add: 1(3) w1 deleted_db_def)
  qed
  from read rest dist obtain u where u: "\<not> IsDeleted u" "lr_ID r = user_ID u" "alone (Login_rest a u) w2 = (Inr r, w3)"
    by (rule Login_overtaken)
  from alone_Login_rest [OF u(3) dist] obtain t' where "touched u t' \<in> set (db_users (w_db w3))" by blast
  moreover have "user_ID (touched u t') = i" "\<not> IsDeleted (touched u t')"
    using u(1,2) same by (simp_all add: touched_def IsDeleted_def)
  ultimately have "\<not> account_deleted (w_db w3) i" unfolding account_deleted_def by blast
  moreover have "account_deleted (w_db w2) i"
    using AdminDeleteUser_effect [OF deleted] inv w1 by simp
  ultimately show ?thesis by blast
qed

text \<open>The player wins a game in between: afterwards the account counts one win less than it has.\<close>

lemma Login_loses_win:
  assumes inv: "duel_inv (uc_Secrets c) (w_db w)" and ds: "four_distinct_digits ds"
    and read: "advance 1 (Login_task a e p, w) = (t, w1)"
    and won: "WithTx (submitGuessTx c i g ds auto) w1 = (Inr (result, True), w2)"
    and rest: "alone t w2 = (Inr r, w3)" and same: "lr_ID r = i"
  shows "\<exists>v\<in>set (db_users (w_db w3)). user_ID v = i \<and> \<not> IsDeleted v \<and>
    user_Role v \<in> user_Role ` {u \<in> set (db_users (w_db w)). user_ID u = i} \<and>
    user_WinCount v + 1 = int (won_by i (db_histories (w_db w3)))"
    "distinct (map user_ID (db_users (w_db w3)))"
proof -
  from won obtain x x' where x: "w_db x = w_db w1" "submitGuessTx c i g ds auto x = (Inr (result, True), x')"
      "w_db w2 = w_db x'"
    by (rule WithTx_db)
  have w1: "w_db x = w_db w" using Login_reads [OF read] x(1) by simp
  have inv2: "duel_inv (uc_Secrets c) (w_db w2)"
    unfolding x(3) by (rule duel_inv_submitGuessTx [OF _ ds x(2)]) (simp add: w1 inv)
  then have dist: "distinct (map user_ID (db_users (w_db w2)))" by (simp add: duel_inv_def players_inv_def)
  from read rest dist obtain u where u: "u \<in> set (db_users (w_db w))" "lr_ID r = user_ID u"
      "alone (Login_rest a u) w2 = (Inr r, w3)" "\<not> IsDeleted u"
    by (rule Login_overtaken)
  from alone_Login_rest [OF u(3) dist] show "distinct (map user_ID (db_users (w_db w3)))" by blast
  have "won_by i (db_histories (w_db w2)) = won_by i (db_histories (w_db w)) + 1"
    using x(2)
  proof (cases rule: submitGuessTx_success)
    case (1 g row g1 t)
    from 1(10) obtain g' v where fin: "finishGameService g1 i t v = (Inr g', x')"
      and v: "w_db v = (w_db w)\<lparr>db_guesses := db_guesses (w_db w) @ [row]\<rparr>" by (auto simp: w1)
    from inv 1(2) w1 have ok: "game_ok g" by (auto simp: duel_inv_def games_inv_def game_log_ok_def)
    have "\<forall>p. IsParticipant g1 p \<longrightarrow> p \<in> user_ID ` set (db_users (w_db v))"
      using inv 1(2) guess_step_facts(6) [OF 1(4) ok]
      by (auto simp: v w1 duel_inv_def players_inv_def IsParticipant_def same_game_def)
    with fin show ?thesis
      by (cases rule: finishGameService_success) (auto simp: v x(3) won_by_def history_result_def)
  qed
  moreover have "user_WinCount u = int (won_by i (db_histories (w_db w)))"
    using inv u(1,2) same by (auto simp: duel_inv_def wins_inv_def)
  moreover from alone_Login_rest [OF u(3) dist] obtain t' where "touched u t' \<in> set (db_users (w_db w3))"
    "db_histories (w_db w3) = db_histories (w_db w2)" by blast
  ultimately show "\<exists>v\<in>set (db_users (w_db w3)). user_ID v = i \<and> \<not> IsDeleted v \<and>
      user_Role v \<in> user_Role ` {u \<in> set (db_users (w_db w)). user_ID u = i} \<and>
      user_WinCount v + 1 = int (won_by i (db_histories (w_db w3)))"
    using u(1,2,4) same by (intro bexI [of _ "touched u t'"]) (auto simp: touched_def IsDeleted_def)
qed

text \<open>The ranking is made from the counts, so it misses the win as well.\<close>

lemma lost_win_is_not_ranked:
  assumes v: "v \<in> set (db_users (w_db w))" "user_WinCount v + 1 = n" "\<not> IsDeleted v"
    and dist: "distinct (map user_ID (db_users (w_db w)))" and run: "Rebuild w = (Inr (), w')"
  shows "\<forall>x\<in>set (db_rankings (w_db w')). ranking_UserID x = user_ID v \<longrightarrow> ranking_WinCount x + 1 = n"
    "IsMaster v \<or> (\<exists>x\<in>set (db_rankings (w_db w')). ranking_UserID x = user_ID v)"
proof -
  have rows: "(\<lambda>r. (ranking_UserID r, ranking_Username r, ranking_WinCount r)) ` set (db_rankings (w_db w')) =
      (\<lambda>u. (user_ID u, user_Username u, user_WinCount u)) ` set (filter CanMatch (db_users (w_db w)))"
    using arg_cong [OF Rebuild_accounts [OF run], of set_mset] by simp
  show "\<forall>x\<in>set (db_rankings (w_db w')). ranking_UserID x = user_ID v \<longrightarrow> ranking_WinCount x + 1 = n"
  proof (intro ballI impI)
    fix x assume x: "x \<in> set (db_rankings (w_db w'))" "ranking_UserID x = user_ID v"
    have "(ranking_UserID x, ranking_Username x, ranking_WinCount x) \<in>
        (\<lambda>r. (ranking_UserID r, ranking_Username r, ranking_WinCount r)) ` set (db_rankings (w_db w'))"
      using x(1) by (rule imageI)
    then obtain u where u: "u \<in> set (db_users (w_db w))" "user_ID u = ranking_UserID x" "user_WinCount u = ranking_WinCount x"
      unfolding rows by auto
    with x(2) v(1) dist have "u = v" by (auto dest: distinct_key_eq)
    with u(3) v(2) show "ranking_WinCount x + 1 = n" by simp
  qed
  have "(user_ID v, user_Username v, user_WinCount v) \<in>
      (\<lambda>u. (user_ID u, user_Username u, user_WinCount u)) ` set (filter CanMatch (db_users (w_db w)))" if "\<not> IsMaster v"
    using v(1,3) that by (intro imageI) (simp add: CanMatch_def)
  then show "IsMaster v \<or> (\<exists>x\<in>set (db_rankings (w_db w')). ranking_UserID x = user_ID v)"
    unfolding rows [symmetric] by (cases "IsMaster v") auto
qed

subsection \<open>A deletion that is overtaken\<close>

text \<open>
  \<open>AdminDeleteUser\<close> looks for an active game of the account before its transaction, not in it
  (usecase/admin.go).
\<close>

definition AdminDeleteUser_rest :: "AdminUseCase \<Rightarrow> uuid \<Rightarrow> uuid \<Rightarrow> user \<Rightarrow> (world, unit) task" where
  "AdminDeleteUser_rest a adminID targetID target =
     thenT (call now) (\<lambda>t.
     thenT (case ad_ForceLogout a of None \<Rightarrow> retT () | Some s \<Rightarrow> call (SetForceLogoutBefore s targetID t)) (\<lambda>_.
     thenT (case ad_WSSessions a of
         None \<Rightarrow> retT () | Some ws \<Rightarrow> call (ignoreErr (SessionStore_DeleteUser ws targetID))) (\<lambda>_.
     thenT (call (WithTx (deleteUserTx adminID targetID target t))) (\<lambda>_.
     call (recordAdminDeleteUserLog adminID targetID t)))))"

lemma AdminDeleteUser_task_alt:
  "AdminDeleteUser_task a adminID targetID =
     thenT (call (acquireLock a (UserDeleteLockKey adminID))) (\<lambda>_.
     if adminID = targetID then throwT ErrCannotDeleteSelf
     else thenT (call (userRepo_FindByID targetID)) (\<lambda>found. case found of
       None \<Rightarrow> throwT ErrNotFound
     | Some target \<Rightarrow>
         if IsDeleted target then throwT ErrUserAlreadyDeleted
         else if IsMaster target then throwT ErrCannotDeleteMaster
         else thenT (call (findActiveGameForUser targetID)) (\<lambda>active.
         if active \<noteq> None then throwT ErrUserInActiveGame
         else AdminDeleteUser_rest a adminID targetID target)))"
  by (simp only: AdminDeleteUser_task_def AdminDeleteUser_rest_def)

lemma alone_AdminDeleteUser_rest:
  "alone (AdminDeleteUser_rest a adm i u) = andThen now (\<lambda>t. andThen (endSessions a i t) (\<lambda>_.
     andThen (WithTx (deleteUserTx adm i u t)) (\<lambda>_. recordAdminDeleteUserLog adm i t)))"
  unfolding AdminDeleteUser_rest_def endSessions_def
  by (simp only: alone_simps andThen_assoc andThen_if andThen_case_option throw_andThen ret_andThen)

lemma AdminDeleteUser_rest_success:
  assumes "alone (AdminDeleteUser_rest a adm i u) w = (Inr (), w')"
  obtains t l where "w_db w' = (deleted_db adm i u t (w_db w))\<lparr>db_actlogs := db_actlogs (w_db w) @ [l]\<rparr>"
proof -
  from assms obtain w4 w6 w7 t where clock: "now w = (Inr t, w4)"
    and ended: "endSessions a i t w4 = (Inr (), w6)"
    and tx: "WithTx (deleteUserTx adm i u t) w6 = (Inr (), w7)"
    and log: "recordAdminDeleteUserLog adm i t w7 = (Inr (), w')"
    unfolding alone_AdminDeleteUser_rest by (auto simp: andThen_success)
  from clock have db6: "w_db w6 = w_db w" using silent [OF keeps_endSessions ended] by (simp add: now_success)
  from tx obtain v v' where "w_db v = w_db w6" "deleteUserTx adm i u t v = (Inr (), v')" "w_db w7 = w_db v'"
    by (rule WithTx_db)
  with deleteUserTx_success [OF this(2)] db6 have db7: "w_db w7 = deleted_db adm i u t (w_db w)" by simp
  from recordActivityLog_success [OF log [unfolded recordAdminDeleteUserLog_def]] db7 that
  show thesis by (auto simp: deleted_db_def)
qed

text \<open>What the first three calls of a deletion that goes on have found.\<close>

lemma AdminDeleteUser_checked:
  assumes read: "advance 3 (AdminDeleteUser_task a adm i, w) = (t, w1)" and rest: "alone t w2 = (Inr (), w3)"
  obtains u where "user_ID u = i" "w_db w1 = w_db w" "alone (AdminDeleteUser_rest a adm i u) w2 = (Inr (), w3)"
proof -
  have failed: "t \<noteq> Done (Inl x)" for x
    using rest by (auto simp: alone_simps throw_def)
  have step: "advance (Suc n) (thenT (call m) k, v) =
      advance n ((case fst (m v) of Inl e \<Rightarrow> Done (Inl e) | Inr x \<Rightarrow> k x), snd (m v))" for m :: "'x go" and k n v
    by (simp add: then_call_eq)
  have stop: "advance n (Done r, v) = (Done r, v)" for n and r :: "go_error + unit" and v by (cases n) simp_all
  have three: "(3 :: nat) = Suc (Suc (Suc 0))" by simp
  obtain r4 w4 where lock: "acquireLock a (UserDeleteLockKey adm) w = (r4, w4)" by fastforce
  obtain r5 w5 where found: "userRepo_FindByID i w4 = (r5, w5)" by fastforce
  obtain r6 w6 where free: "findActiveGameForUser i w5 = (r6, w6)" by fastforce
  from read failed have "\<exists>u. r5 = Inr (Some u) \<and> (\<exists>x. r4 = Inr x) \<and> (\<exists>x. r6 = Inr x) \<and> w1 = w6 \<and>
      t = AdminDeleteUser_rest a adm i u"
    by (auto simp: three AdminDeleteUser_task_alt step stop lock found free split: sum.splits option.splits if_splits)
  then obtain u x y where u: "r4 = Inr x" "r5 = Inr (Some u)" "r6 = Inr y" "w1 = w6"
    "t = AdminDeleteUser_rest a adm i u" by blast
  have "first_row user_ID (\<lambda>u. user_ID u = i) (db_users (w_db w4)) = Some u" "w_db w5 = w_db w4"
    using found u(2) by (auto simp: success_iff find_defs)
  moreover have "w_db w4 = w_db w" by (rule silent [OF keeps_acquireLock lock])
  moreover have "w_db w6 = w_db w5" using findActiveGameForUser_success [of i w5 y w6] free u(3) by simp
  ultimately show thesis using that [of u] u rest by (auto dest: first_row_Some)
qed

text \<open>The account is matched in between: afterwards a deleted account plays.\<close>

lemma deletion_in_a_game:
  assumes keys: "distinct (map user_ID (db_users (w_db w)))"
    and read: "advance 3 (AdminDeleteUser_task a adm i, w) = (t, w1)"
    and match: "WithTx (startMatchingTx v tm) w1 = (Inr (Some g), w2)" and g: "IsParticipant g i"
    and rest: "alone t w2 = (Inr (), w3)"
  shows "account_deleted (w_db w3) i \<and> active_player (w_db w3) i"
proof -
  from read rest obtain u where u: "user_ID u = i" "w_db w1 = w_db w"
      "alone (AdminDeleteUser_rest a adm i u) w2 = (Inr (), w3)"
    by (rule AdminDeleteUser_checked)
  from match have g2: "g \<in> set (db_games (w_db w2))" "active_status (game_Status g)"
    and users: "db_users (w_db w2) = db_users (w_db w)"
  proof -
    from match obtain x x' where x: "w_db x = w_db w1" "startMatchingTx v tm x = (Inr (Some g), x')"
        "w_db w2 = w_db x'"
      by (rule WithTx_db)
    from x(2) obtain e k t' where "match_step ((w_db x)\<lparr>db_queue := db_queue (w_db x) @ [e]\<rparr>) k t' (Some g) (w_db x')"
      by (rule startMatchingTx_success)
    then have "match_step ((w_db w1)\<lparr>db_queue := db_queue (w_db w1) @ [e]\<rparr>) k t' (Some g) (w_db w2)"
      by (simp only: x(1,3))
    then have "g \<in> set (db_games (w_db w2)) \<and> active_status (game_Status g) \<and> db_users (w_db w2) = db_users (w_db w1)"
      by (cases rule: match_step_cases) (auto simp: new_game_def)
    then show "g \<in> set (db_games (w_db w2))" "active_status (game_Status g)"
      "db_users (w_db w2) = db_users (w_db w)" by (simp_all add: u(2))
  qed
  from u(3) obtain t' l where db: "w_db w3 = (deleted_db adm i u t' (w_db w2))\<lparr>db_actlogs := db_actlogs (w_db w2) @ [l]\<rparr>"
    by (rule AdminDeleteUser_rest_success)
  have "db_games (w_db w3) = db_games (w_db w2)" by (simp add: db deleted_db_def)
  with g2 g have "active_player (w_db w3) i" unfolding active_player_def by auto
  moreover have "db_users (w_db w3) = save_row user_ID (deleted_user u adm t') (db_users (w_db w))"
    by (simp add: db deleted_db_def users)
  then have "account_deleted (w_db w3) i"
    using u(1) by (auto simp: account_deleted_def set_save_row [OF keys] deleted_user_def IsDeleted_def)
  ultimately show ?thesis by blast
qed

end
