(* ===== verification/SampleRaces.thy ===== *)
theory SampleRaces
  imports SampleServer Races
begin

text \<open>
  Schedules on the sample worlds: a login that the deletion of its account overtakes, one that a won
  game overtakes, and a pool of requests.
\<close>

definition sample_login :: "(world, LoginResult) task" where
  "sample_login = Login_task sample_auth ''alice@example.org'' ''password''"

definition sample_read :: "world \<Rightarrow> world" where
  "sample_read w = w\<lparr>w_nio := Suc (w_nio w)\<rparr>"

lemma sample_login_reads:
  assumes "db_users (w_db w) = db_users sample_db" "\<not> w_faults w (w_nio w)"
  shows "advance 1 (sample_login, w) = (Login_rest sample_auth (sample_user 1 ''alice''), sample_read w)"
proof -
  have "ValidateLoginEmail ''alice@example.org'' = Inr ()" by code_simp
  moreover have "ValidatePassword ''password'' = Inr ()" by code_simp
  moreover have "findUserByEmailActive ''alice@example.org'' w = (Inr (Some (sample_user 1 ''alice'')), sample_read w)"
    by (simp add: findUserByEmailActive_def find_defs first_row_def run_simps assms sample_db_def sample_user_def
        IsDeleted_def sample_read_def)
  ultimately show ?thesis
    by (simp add: sample_login_def Login_task_alt mappedT_def liftT_def then_call_eq PasswordVerify_def
        sample_auth_def sample_services_def sample_user_def)
qed

lemma sample_user_ID: "user_ID (sample_user i n) = i"
  by (simp add: sample_user_def)

text \<open>The other calls of the login succeed in every world like these.\<close>

definition login_ready :: "world \<Rightarrow> bool" where
  "login_ready w \<longleftrightarrow> (\<forall>n. \<not> w_faults w n) \<and> (\<forall>n. w_rand w n = Some 0) \<and> w_dialect w = SQLite \<and>
     db_tokens (w_db w) = [] \<and> db_loginlogs (w_db w) = []"

lemma sample_login_rest:
  assumes "login_ready w"
  shows "\<exists>r. fst (alone (Login_rest sample_auth u) w) = Inr r \<and> lr_ID r = user_ID u"
  using assms
  by (simp add: Login_rest_def alone_simps loginTx_def touchUserActivity_def issueSession_def Issue_def Generate_def
      entropy_def refreshTokenRepo_Create_def run_simps sample_eval sample_auth_def sample_services_def login_ready_def
      cong: go_congs)

text \<open>And nothing fails after it.\<close>

lemma sample_login_after:
  assumes "login_ready w" "alone (Login_rest sample_auth u) w = (Inr r, w')"
  shows "\<not> w_faults w' n" "w_dialect w' = SQLite"
proof -
  have "(\<forall>n. \<not> w_faults (snd (alone (Login_rest sample_auth u) w)) n) \<and>
      w_dialect (snd (alone (Login_rest sample_auth u) w)) = SQLite"
    using assms(1)
    by (simp add: Login_rest_def alone_simps loginTx_def touchUserActivity_def issueSession_def Issue_def Generate_def
        entropy_def refreshTokenRepo_Create_def run_simps sample_eval sample_auth_def sample_services_def login_ready_def
        cong: go_congs)
  with assms(2) show "\<not> w_faults w' n" "w_dialect w' = SQLite" by simp_all
qed

subsection \<open>The deletion\<close>

lemma sample_deletion:
  "fst (AdminDeleteUser sample_admin 9 1 (sample_read sample_world)) = Inr ()"
  "login_ready (snd (AdminDeleteUser sample_admin 9 1 (sample_read sample_world)))"
  by (simp_all add: AdminDeleteUser_def deletionTarget_def acquireLock_def sample_admin_def endSessions_def run_simps
      findActiveGameForUser_def gameRepo_ListByPlayerID_def deleteUserTx_def matchingQueueRepo_DeleteByUserID_def
      recordAdminDeleteUserLog_def deleted_user_def sample_read_def login_ready_def sample_eval cong: go_congs)

subsection \<open>The won game\<close>

lemma sample_verify:
  "Verify sample_hasher (sample_secret 2 [5, 6, 7, 8]) [5, 6, 7, 8] 50 2 =
     Inr [DigitHit, DigitHit, DigitHit, DigitHit]"
  by (simp add: Verify_Hash [OF sample_Hash])

lemma sample_win:
  "\<exists>result. fst (WithTx (submitGuessTx sample_uc 1 50 [5, 6, 7, 8] False) (sample_read running_world)) = Inr (result, True)"
  "login_ready (snd (WithTx (submitGuessTx sample_uc 1 50 [5, 6, 7, 8] False) (sample_read running_world)))"
  by (simp_all add: submitGuessTx_def scenario_simps sample_verify addGameGuess_def finishGameService_def run_simps
      gameRepo_FindByIDForUpdate_def require_def IsParticipant_def fill_results_def guessRepo_Create_def IsParticipant_def
      incrementUserWinCount_def matchHistoryRepo_Create_def gameOpponentID_def CanGuess_def IsCurrentTurn_def
      finishGame_def gameRepo_Update_def sample_read_def login_ready_def sample_eval cong: go_congs)

subsection \<open>The match\<close>

definition queue_world :: world where
  "queue_world = sample_world\<lparr>w_db := sample_db\<lparr>db_queue := [sample_entry]\<rparr>\<rparr>"

lemma sample_check:
  "advance 3 (AdminDeleteUser_task sample_admin 9 1, queue_world) =
     (AdminDeleteUser_rest sample_admin 9 1 (sample_user 1 ''alice''), sample_read (sample_read queue_world))"
proof -
  have three: "(3 :: nat) = Suc (Suc (Suc 0))" by simp
  show ?thesis
    unfolding three
    by (simp add: AdminDeleteUser_task_alt then_call_eq acquireLock_def sample_admin_def run_simps
        findActiveGameForUser_def gameRepo_ListByPlayerID_def sample_read_def queue_world_def sample_eval
        cong: go_congs)
qed

lemma sample_match:
  "\<exists>g w2. WithTx (startMatchingTx 1 second) (sample_read (sample_read queue_world)) = (Inr (Some g), w2) \<and>
     IsParticipant g 1 \<and>
     fst (alone (AdminDeleteUser_rest sample_admin 9 1 (sample_user 1 ''alice'')) w2) = Inr ()"
  by (simp add: startMatchingTx_def matchPlayers_def matchingQueueRepo_Insert_def
      matchingQueueRepo_ListByStatusForUpdate_def matchingPlayerReady_def findActiveGameForUser_def
      gameRepo_ListByPlayerID_def gameRepo_Create_def removeQueueEntries_def matchingQueueRepo_DeleteByIDs_def
      new_game_def IsParticipant_def alone_AdminDeleteUser_rest endSessions_def deleteUserTx_def
      matchingQueueRepo_DeleteByUserID_def recordAdminDeleteUserLog_def deleted_user_def sample_admin_def
      sample_entry_def sample_read_def queue_world_def run_simps sample_eval cong: go_congs)

subsection \<open>A pool of requests\<close>

definition sample_requests :: Services where
  "sample_requests = \<lparr>sv_Game = sample_uc, sv_Matching = False, sv_Auth = sample_auth, sv_Admin = sample_admin,
     sv_AutoLogout = \<lparr>al_ForceLogout = None, al_ForceDisconnect = None, al_SessionTimeout = 0, al_Now = None\<rparr>,
     sv_Ranking = \<lparr>rk_Locks = None, rk_LockTTL = 0\<rparr>\<rparr>"

text \<open>A login and a guess, call by call in turn.\<close>

definition sample_schedule :: "(client_request + nat) list" where
  "sample_schedule = [Inl (LoggingIn ''alice@example.org'' ''password''), Inl (Guessing 1 50 ''5678''),
     Inr 0, Inr 1, Inr 1, Inr 0, Inr 1, Inr 0, Inr 1]"

lemma sample_pool: "pool_inv (uc_Secrets (sv_Game sample_requests)) (w_db running_world)"
  using server_inv_pool [OF running_server_inv] by (simp add: sample_requests_def)

lemma sample_pool_size: "length (snd (schedule s sample_schedule (w, []))) = 2"
  unfolding length_schedule by (simp add: sample_schedule_def)

end
