(* ===== verification/Histories.thy ===== *)
theory Histories
  imports Profile Admin
begin

text \<open>
  What comes out of the lists that are given page by page, and of the download of the activity log.
\<close>

subsection \<open>Page after page\<close>

definition match_item :: "match_history \<Rightarrow> MatchHistoryItem" where
  "match_item h = \<lparr>mh_GameID = history_GameID h, mh_WinnerUsername = history_WinnerUsername h,
     mh_LoserUsername = history_LoserUsername h, mh_FinishedAt = history_FinishedAt h\<rparr>"

text \<open>The matches of a user, the latest first.\<close>

definition matches_of :: "db \<Rightarrow> uuid \<Rightarrow> match_history list" where
  "matches_of d u = sort_key (\<lambda>h. - history_FinishedAt h)
     (filter (\<lambda>h. history_WinnerID h = u \<or> history_LoserID h = u) (db_histories d))"

definition has_account :: "db \<Rightarrow> uuid \<Rightarrow> bool" where
  "has_account d i \<longleftrightarrow> (\<exists>u. first_row user_ID (\<lambda>u. user_ID u = i) (db_users d) = Some u \<and> \<not> IsDeleted u)"

lemma paginatePage_exact:
  assumes "0 < n" "int p * int n < 2 ^ 63" "int p < 2 ^ 63"
  shows "paginatePage (int p + 1) (int n) = (int n, int p * int n)"
proof -
  have "wrap64 (int p) = int p" using assms(3) by (intro wrap64_id) simp_all
  moreover have "- (2 ^ 63) \<le> int p * int n" by (rule order_trans [of _ 0]) simp_all
  with assms(2) have "wrap64 (int p * int n) = int p * int n" by (intro wrap64_id)
  ultimately show ?thesis using assms(1) by (simp add: paginatePage_def Let_def)
qed

lemma GetMatchHistory_page:
  assumes "\<And>k. \<not> w_faults w k" "has_account (w_db w) u" "0 < n" "int p * int n < 2 ^ 63" "int p < 2 ^ 63"
  shows "fst (GetMatchHistory u (int p + 1) (int n) w) =
    Inr (map match_item (sql_page (int p * int n) (int n) (matches_of (w_db w) u)), int (length (matches_of (w_db w) u)))"
  using assms(1,2)
  by (auto simp: GetMatchHistory_def profileUser_def matchHistoryRepo_ListByUserID_def has_account_def
      paginatePage_exact [OF assms(3-5)] matches_of_def match_item_def run_simps find_defs Let_def cong: go_congs)

lemma sql_page_map: "sql_page a b (map f xs) = map f (sql_page a b xs)"
  by (simp add: sql_page_def take_map drop_map)

lemma GetMatchHistory_pages:
  assumes "\<And>k. \<not> w_faults w k" "has_account (w_db w) u" "0 < n" "int m * int n < 2 ^ 63" "int m < 2 ^ 63"
  shows "\<exists>items. (\<forall>p<m. fst (GetMatchHistory u (int p + 1) (int n) w) =
      Inr (items p, int (length (matches_of (w_db w) u)))) \<and>
    concat (map items [0..<m]) = take (m * n) (map match_item (matches_of (w_db w) u))"
proof (intro exI conjI allI impI)
  let ?items = "\<lambda>p. sql_page (int p * int n) (int n) (map match_item (matches_of (w_db w) u))"
  show "concat (map ?items [0..<m]) = take (m * n) (map match_item (matches_of (w_db w) u))"
    by (rule sql_pages_cover [OF assms(3)])
  fix p assume "p < m"
  then have "int p * int n \<le> int m * int n" by (intro mult_right_mono) simp_all
  with assms(4,5) \<open>p < m\<close> have "int p * int n < 2 ^ 63" "int p < 2 ^ 63" by linarith+
  from GetMatchHistory_page [OF assms(1-3) this]
  show "fst (GetMatchHistory u (int p + 1) (int n) w) = Inr (?items p, int (length (matches_of (w_db w) u)))"
    by (simp add: sql_page_map)
qed

text \<open>
  Matches that finished at the same time may come in any order, and in another one for the next page; matches
  that finished at different times have one order only.
\<close>

definition users_matches :: "db \<Rightarrow> uuid \<Rightarrow> match_history list" where
  "users_matches d u = filter (\<lambda>h. history_WinnerID h = u \<or> history_LoserID h = u) (db_histories d)"

lemma matches_of_ordered:
  assumes "distinct (map history_FinishedAt (users_matches d u))"
  shows "mset (matches_of d u) = mset (users_matches d u)"
    "sorted_wrt (\<lambda>x y. history_FinishedAt y < history_FinishedAt x) (matches_of d u)"
proof -
  show same: "mset (matches_of d u) = mset (users_matches d u)" by (simp add: matches_of_def users_matches_def)
  have "sorted (map (\<lambda>h. - history_FinishedAt h) (matches_of d u))" by (simp add: matches_of_def)
  moreover have "distinct (map (\<lambda>h. - history_FinishedAt h) (matches_of d u))"
    using assms mset_eq_imp_distinct_iff [of "map history_FinishedAt (matches_of d u)" "map history_FinishedAt (users_matches d u)"]
    by (simp add: same) (simp add: distinct_map inj_on_def)
  ultimately have "sorted_wrt (<) (map (\<lambda>h. - history_FinishedAt h) (matches_of d u))"
    using strict_sorted_iff by blast
  then show "sorted_wrt (\<lambda>x y. history_FinishedAt y < history_FinishedAt x) (matches_of d u)"
    by (simp add: sorted_wrt_map)
qed

subsection \<open>The download\<close>

text \<open>The entries of a download: those that match, latest first, ten thousand at most.\<close>

lemma DownloadActivityLogsCSV_rows:
  assumes "DownloadActivityLogsCSV us jt a adm lt u from till w = (Inr csv, w')"
  shows "csv_rows csv = csv_header # map (csv_row us jt) (take 10000 (sort_key (\<lambda>l. - actlog_CreatedAt l)
    (filter (actlog_matches lt u from till) (db_actlogs (w_db w)))))"
proof -
  from assms obtain w1 rows n w2 where lock: "acquireLock a (LogDownloadLockKey adm) w = (Inr (), w1)"
    and search: "activityLogRepo_Search lt u from till 1 10000 w1 = (Inr (rows, n), w2)"
    and csv: "csv = csv_file (csv_header # map (csv_row us jt) rows)"
    by (auto simp: DownloadActivityLogsCSV_def success_iff)
  have "w_db w1 = w_db w" by (rule silent [OF keeps_acquireLock lock])
  with search have "rows = take 10000 (sort_key (\<lambda>l. - actlog_CreatedAt l)
      (filter (actlog_matches lt u from till) (db_actlogs (w_db w))))"
    by (auto simp: activityLogRepo_Search_def paginatePage_def sql_page_def wrap64_def Let_def success_iff
        split: prod.splits)
  with csv csv_rows_download show ?thesis by simp
qed

end
