(* ===== verification/TestSupport.thy ===== *)
theory TestSupport
  imports Setup
begin

text \<open>
  The support of the tests, \<open>testutil/security_store.go\<close> and \<open>testutil/db.go\<close>: the stores in memory that
  stand for Redis, and the use cases, databases and accounts the tests start from. \<open>t.Fatalf\<close>, which ends
  a test, is an error here. What the tests see through the stores in memory is related to what the
  program sees through Redis.
\<close>

subsection \<open>Revoked tokens in memory\<close>

record MemJWTRevoker =
  mr_revoked :: "string set"

definition NewMemJWTRevoker :: MemJWTRevoker where
  "NewMemJWTRevoker = \<lparr>mr_revoked = {}\<rparr>"

definition Mem_Revoke :: "string \<Rightarrow> duration \<Rightarrow> MemJWTRevoker \<Rightarrow> MemJWTRevoker" where
  "Mem_Revoke jti ttl m = m\<lparr>mr_revoked := insert jti (mr_revoked m)\<rparr>"

definition Mem_IsRevoked :: "string \<Rightarrow> MemJWTRevoker \<Rightarrow> bool" where
  "Mem_IsRevoked jti m \<longleftrightarrow> jti \<in> mr_revoked m"

text \<open>The store in memory refuses at least what Redis refuses: it never forgets.\<close>

definition refuses_at_least :: "MemJWTRevoker \<Rightarrow> redis \<Rightarrow> bool" where
  "refuses_at_least m r \<longleftrightarrow> (\<forall>jti t. r_get (JwtRevokedKey jti) t r \<noteq> None \<longrightarrow> Mem_IsRevoked jti m)"

lemma refuses_at_least_start: "refuses_at_least NewMemJWTRevoker []"
  by (simp add: refuses_at_least_def r_get_def)

lemma refuses_at_least_Revoke:
  assumes "refuses_at_least m (w_redis w)" "Revoke s jti ttl w = (r, w')"
  shows "refuses_at_least (Mem_Revoke jti ttl m) (w_redis w')"
proof -
  have "k = jti \<or> r_get (JwtRevokedKey k) t (w_redis w) \<noteq> None"
    if "r_get (JwtRevokedKey k) t (w_redis w') \<noteq> None" for k t
    using assms(2) that by (cases s) (auto simp: Revoke_def rdbCall_eval rdbCall_nil ret_def split: if_splits)
  then show ?thesis
    using assms(1) unfolding refuses_at_least_def Mem_IsRevoked_def Mem_Revoke_def by fastforce
qed

lemma refuses_at_least_IsRevoked:
  assumes "refuses_at_least m (w_redis w)" "IsRevoked_jti s jti w = (Inr True, w')"
  shows "Mem_IsRevoked jti m"
  using assms by (auto simp: IsRevoked_jti_def refuses_at_least_def rdbCall_success)

text \<open>Until a revocation expires, Redis refuses what the store in memory refuses.\<close>

lemma revoked_until_expiry:
  assumes "Revoke LiveStore jti ttl w = (Inr (), w')" "jti \<noteq> ''''" "0 < ttl" "t < w_clock w (w_nclock w) + redis_ttl ttl"
  shows "r_get (JwtRevokedKey jti) t (w_redis w') \<noteq> None \<and> Mem_IsRevoked jti (Mem_Revoke jti ttl m)"
  using assms by (auto simp: Revoke_def rdbCall_success Mem_IsRevoked_def Mem_Revoke_def)

subsection \<open>Forced logouts in memory\<close>

record MemForceLogout =
  mf_before :: "uuid \<Rightarrow> time option"

definition NewMemForceLogout :: MemForceLogout where
  "NewMemForceLogout = \<lparr>mf_before = (\<lambda>_. None)\<rparr>"

definition Mem_SetForceLogoutBefore :: "uuid \<Rightarrow> time \<Rightarrow> MemForceLogout \<Rightarrow> MemForceLogout" where
  "Mem_SetForceLogoutBefore userID at m = m\<lparr>mf_before := (mf_before m)(userID := Some at)\<rparr>"

definition Mem_GetForceLogoutBefore :: "uuid \<Rightarrow> MemForceLogout \<Rightarrow> time" where
  "Mem_GetForceLogoutBefore userID m = (case mf_before m userID of None \<Rightarrow> zero_time | Some t \<Rightarrow> t)"

text \<open>
  Redis keeps whole seconds, the store in memory the time itself: right after both were set, the time
  that Redis returns is at most a second earlier. A token of the same second passes in the program and
  is refused in a test.
\<close>

lemma forced_logout_truncated:
  assumes "SetForceLogoutBefore LiveStore u t w = (Inr (), w1)" "GetForceLogoutBefore LiveStore u w1 = (Inr x, w2)"
    "w_clock w1 (w_nclock w1) < w_clock w (w_nclock w) + forceLogoutTTL"
  shows "x \<le> Mem_GetForceLogoutBefore u (Mem_SetForceLogoutBefore u t m) \<and>
    Mem_GetForceLogoutBefore u (Mem_SetForceLogoutBefore u t m) < x + second"
proof -
  have "x = t div second * second"
    using assms by (auto simp: SetForceLogoutBefore_def GetForceLogoutBefore_def success_iff rdbCall_success)
  then show ?thesis
    by (simp add: Mem_GetForceLogoutBefore_def Mem_SetForceLogoutBefore_def) presburger
qed

subsection \<open>Databases and use cases of the tests\<close>

definition TestJWTSecret :: string where
  "TestJWTSecret = ''test-jwt-secret-key-at-least-32-chars!!''"

definition TestPepper :: string where
  "TestPepper = ''test-game-secret-pepper-32bytes-min!!''"

text \<open>\<open>fatal\<close> is the message of \<open>t.Fatalf\<close>; \<open>name\<close> is the random name of the database.\<close>

definition fatal :: "string \<Rightarrow> go_error \<Rightarrow> go_error" where
  "fatal what e = (if e = Panic then Panic else wrapped what e)"

definition OpenSQLiteDB :: "'h Drivers \<Rightarrow> string \<Rightarrow> go_error + 'h" where
  "OpenSQLiteDB d name = (case dr_open d (''file:'' @ name @ ''?mode=memory&cache=shared'') of
     Inl e \<Rightarrow> Inl (fatal ''open sqlite'' e)
   | Inr h \<Rightarrow> (case dr_DB d h of
     Inl e \<Rightarrow> Inl (fatal ''sql db'' e)
   | Inr _ \<Rightarrow> (case Migrate d h of
     Some e \<Rightarrow> Inl (fatal ''migrate'' e)
   | None \<Rightarrow> Inr h)))"

definition NewAuthUCWithRevoker :: "Libraries \<Rightarrow> store option \<Rightarrow> go_error + AuthUseCase" where
  "NewAuthUCWithRevoker lib revoker = (case NewJWTService TestJWTSecret 60 of
     Inl e \<Rightarrow> Inl (fatal ''jwt'' e)
   | Inr jwtSvc \<Rightarrow> Inr (NewAuthUseCase (main_services lib jwtSvc) revoker None 7 7))"

definition NewAuthUC :: "Libraries \<Rightarrow> go_error + AuthUseCase" where
  "NewAuthUC lib = NewAuthUCWithRevoker lib None"

definition NewGameUCWithNotifier :: "Libraries \<Rightarrow> bool \<Rightarrow> go_error + GameUseCase" where
  "NewGameUCWithNotifier lib notifier = (case NewSecretHashService TestPepper of
     Inl e \<Rightarrow> Inl (fatal ''secret hasher'' e)
   | Inr pepper \<Rightarrow> Inr (NewGameUseCase \<lparr>h_hmac = lb_hmac lib, h_pepper = pepper, h_ustr = lb_ustr lib\<rparr>
       None None True notifier (30 * second) (60 * second) (2 * second)))"

definition NewGameUC :: "Libraries \<Rightarrow> go_error + GameUseCase" where
  "NewGameUC lib = (case NewSecretHashService TestPepper of
     Inl e \<Rightarrow> Inl (fatal ''secret hasher'' e)
   | Inr pepper \<Rightarrow> Inr (NewGameUseCase \<lparr>h_hmac = lb_hmac lib, h_pepper = pepper, h_ustr = lb_ustr lib\<rparr>
       None None True False (30 * second) (60 * second) (2 * second)))"

definition NewRankingUC :: RankingUseCase where
  "NewRankingUC = NewRankingUseCase None (5 * second)"

definition NewAdminUC :: "bool \<Rightarrow> AdminUseCase" where
  "NewAdminUC ranking = NewAdminUseCase ranking None None None None (5 * second)"

definition test_SeedMaster :: "Libraries \<Rightarrow> string \<Rightarrow> string \<Rightarrow> user go" where
  "test_SeedMaster lib email password =
     andThen (lift_result (NewAuthUC lib)) (\<lambda>auth.
     andThen (mapErr (fatal ''seed master'') (SeedMaster auth email password)) (\<lambda>_.
     andThen (mapErr (fatal ''find master'') (userRepo_FindByUsername ''admin'')) (\<lambda>found.
     require found (ErrText ''find master: <nil>''))))"

text \<open>The identifier that \<open>Register\<close> returns is a \<open>uuid\<close> here, so \<open>uuid.Parse\<close> of it does not fail.\<close>

definition CreateUser :: "Libraries \<Rightarrow> string \<Rightarrow> string \<Rightarrow> string \<Rightarrow> user option go" where
  "CreateUser lib username email password =
     andThen (lift_result (NewAuthUC lib)) (\<lambda>auth.
     andThen (mapErr (fatal (''register '' @ username)) (Register auth username email password)) (\<lambda>out.
     mapErr (fatal ''find user'') (userRepo_FindByID (me_ID out))))"

text \<open>The constants of the tests pass the checks of the services.\<close>

lemma test_use_cases_exist:
  "\<exists>a. NewAuthUCWithRevoker lib revoker = Inr a" "\<exists>c. NewGameUCWithNotifier lib notifier = Inr c"
  by (simp_all add: NewAuthUCWithRevoker_def NewGameUCWithNotifier_def NewJWTService_def NewSecretHashService_def
      TestJWTSecret_def TestPepper_def)

text \<open>The use cases of the tests differ from the program's in their stores: none, so no lock is ever held.\<close>

lemma test_game_without_redis:
  "NewGameUC lib = Inr c \<Longrightarrow> uc_Locks c = None \<and> uc_Turns c = None \<and> gameLock c k = ret ()"
  by (auto simp: NewGameUC_def NewSecretHashService_def NewGameUseCase_def TestPepper_def gameLock_def)

end
