(* ===== verification/Spec2Isabelle.thy ===== *)
theory Spec2Isabelle
  imports SampleRaces Histories Ranking TestSupport
begin

text \<open>
  NumDuel: a game of two players over HTTP and WebSockets, in Go (\<open>src/backend\<close>). Each player sets a
  secret of four different digits; in turn they guess the other's secret, and every guess is answered
  with the positions that are right. Around the game there are accounts with sessions, a queue of
  players who look for a match, a ranking, the administration, and workers that run on timers. This
  development models the backend and proves what makes it correct, and shows where the code does not do
  what it means to. The properties are the theorems of this theory, each after its text \<open>C1\<close>, \<open>C2\<close>, ...

  \<^bold>\<open>How code is modelled.\<close> A struct is a record, an enumeration a datatype, \<open>uuid.UUID\<close> a word of 128
  bits, \<open>time.Time\<close> and \<open>time.Duration\<close> a number of nanoseconds, a string its bytes. Every error is a
  value of \<open>go_error\<close> (\<open>Model\<close>): the error variables of the code, \<open>ErrIO\<close> for an error of a driver and
  \<open>Panic\<close> for a panic. A function that has effects is a function from the \<open>world\<close> to an error or a
  result and the new world (\<open>Prelude\<close>, \<open>Store\<close>): the database as tables of rows, Redis as a map of keys
  with their expiry, the connections of the hub with what was sent to them, the rate limiters, the
  second database, and the sources of time, identifiers, entropy and failures as functions of how often
  they were asked. So any call to a server may fail, the clock may show anything, and a theorem that
  needs more says so (\<open>no_faults\<close>, \<open>writable\<close>, \<open>hashes_fit\<close>, a monotone clock). The database is PostgreSQL,
  with the sizes of its columns, or the SQLite of the tests, as \<open>w_dialect\<close> says. A transaction restores the tables when
  its function fails. Integers that can overflow are wrapped (\<open>wrap64\<close>, \<open>go_duration\<close>). What is not in
  the repository (bcrypt, HMAC, SHA-256, JWT, uuid texts, \<open>ILIKE\<close>, the JSON of a detail, GORM's update of
  a row, the cron library, the drivers) is a field of a parameter record: \<open>hasher\<close>, \<open>services\<close>,
  \<open>mergers\<close>, \<open>Libraries\<close>, \<open>Drivers\<close>.

  \<^bold>\<open>Which theory models what.\<close>
  \<^item> \<open>Model\<close>, \<open>Messages\<close>: \<open>model/*.go\<close>, the rows with their predicates, the texts of the errors.
  \<^item> \<open>Store\<close>, \<open>Repos\<close>: \<open>repository/*.go\<close>, one operation per query or command, with keys, unique indexes
    and column sizes; \<open>RedisStore\<close>: \<open>redis/store.go\<close>, its keys, scripts and scans.
  \<^item> \<open>Validate\<close>, \<open>Crypto\<close>, \<open>GameLogic\<close>: \<open>usecase/judge.go\<close>, the validations, \<open>crypto/*.go\<close> and
    \<open>usecase/game_logic.go\<close>; \<open>Game\<close>, \<open>ActivityLog\<close>: \<open>usecase/game.go\<close>, \<open>game_play.go\<close>, \<open>activity_log.go\<close>;
    \<open>GameRecovery\<close>: \<open>handle_timeout.go\<close>, \<open>game_recovery.go\<close> and the ticks of their workers.
  \<^item> \<open>Matching\<close>, \<open>Ranking\<close>, \<open>Auth\<close>, \<open>AutoLogout\<close>, \<open>Admin\<close> (with \<open>Csv\<close>), \<open>Profile\<close>, \<open>Retention\<close>, \<open>Backup\<close>:
    the other use cases of \<open>usecase/*.go\<close>, with \<open>repository/backup.go\<close>.
  \<^item> \<open>Hub\<close>, \<open>WebSocket\<close>: \<open>websocket/*.go\<close> and \<open>usecase/ws_auth.go\<close>; \<open>RateLimit\<close>, \<open>Http\<close>, \<open>Controller\<close>,
    \<open>Router\<close>: \<open>middleware/*.go\<close>, \<open>dto/*.go\<close>, \<open>controller/*.go\<close> and \<open>router/router.go\<close>: \<open>serve_http\<close> is the
    whole way of a request, from the recovery of panics through the log, the limits and the token to the
    handler and its response.
  \<^item> \<open>Strconv\<close>, \<open>Config\<close>, \<open>Setup\<close>, \<open>Wire\<close>, \<open>Workers\<close>: \<open>config/env.go\<close>, \<open>db/*.go\<close>, \<open>repository/setup.go\<close>,
    \<open>main.go\<close> and the \<open>Run\<close> methods of \<open>worker/*.go\<close>. \<open>program\<close> is \<open>main\<close> up to the running server.
  \<^item> \<open>Server\<close>: the running program as the step relation \<open>server_step\<close>: a request, a new connection, a
    message, the end of a connection, the timer of its authentication, a tick of a worker; \<open>reachable\<close>
    are its states, \<open>runs\<close> (\<open>History\<close>) its sequences of steps.
  \<^item> \<open>Tasks\<close>, \<open>Interleaving\<close>, \<open>Requests\<close>: requests that run at the same time. A \<open>task\<close> is a handler call by
    call: it is over, or its next call to a server changes the world and says how it goes on. Between two
    calls any other task may run (\<open>interleave\<close>); a transaction is one call. \<open>Interleaving\<close> has every
    handler that changes stored data as a task, equal to the handler when nothing else runs.
  \<^item> \<open>TestSupport\<close>: \<open>testutil/*.go\<close>, the stores in memory and what the tests start from.

  \<^bold>\<open>Specifications.\<close> \<open>Duel\<close> has the abstract game (\<open>duel\<close>: two secrets and a list of moves, with
  \<open>duel_set_secret\<close>, \<open>duel_guess\<close> and what decides it) and the relation \<open>refines\<close> to a stored game and its
  guesses; the transactions are shown to be its moves, and \<open>played_by_rules\<close> says who made each guess and
  what it shows. \<open>GameInv\<close> has the invariant of the stored games (\<open>duel_inv\<close>), \<open>Accounts\<close>, \<open>Tokens\<close> and \<open>Matching\<close> those of accounts, sessions and the queue, and
  \<open>Invariants\<close> their combination for the running program (\<open>server_inv\<close>). The contracts between the
  components are locales: \<open>duel_transactions\<close>, \<open>game_transactions\<close>, \<open>matching_transactions\<close>, \<open>account_contract\<close>,
  \<open>admin_contract\<close>, \<open>ws_contract\<close> and, over them, \<open>server_contract\<close> (a property of the database that the
  transactions of the components keep is kept by every step of the program); \<open>batch_delete\<close>,
  \<open>backup_table\<close>, \<open>expiring_map\<close> with \<open>lock_store\<close> and \<open>turn_store\<close>, \<open>secret_hasher\<close> and \<open>guess_generator\<close>
  inside a component. Each is interpreted on the definitions of the model;
  \<open>server_contract\<close> twice, for the invariant and for \<open>nothing_lost\<close>. \<open>Concurrent\<close> has what survives every
  interleaving (\<open>pool_inv\<close>, \<open>kept\<close>), by the locale \<open>rely_guarantee\<close> of \<open>Tasks\<close>: a task may rely on the
  database being sound and later than at its last call, and guarantees the same to the others. What it
  writes back from a row it read before (\<open>known\<close>) is the weak point: \<open>Races\<close> has the schedules in which a
  deletion and a win are undone.
  \<open>store_history\<close> (\<open>Lockout\<close>) is what the calls of the program may make of Redis after a logout.

  \<^bold>\<open>Groups of lemmas.\<close> \<open>keeps_intros\<close> derive invariants by the syntax of a program; \<open>success_iff\<close> says what
  a successful run did; \<open>run_simps\<close> evaluate a run on a concrete world. \<open>Progress\<close>, \<open>Liveness\<close> and \<open>Play\<close>
  have what must succeed when nothing fails (\<open>writable\<close>: no call fails and, on PostgreSQL, the stored rows fit
  their columns; \<open>hashes_fit\<close>: so do the hashes of a game's secrets); \<open>Access\<close> and \<open>Lockout\<close> who
  may do what; \<open>Findings\<close> and \<open>Histories\<close> the lemmas on single operations. \<open>Samples\<close>, \<open>Scenario\<close>, \<open>SampleServer\<close> and \<open>SampleRaces\<close>
  hold concrete data, a whole program on simple libraries and schedules, on which the witnesses run.

  \<^bold>\<open>Loops and bounds.\<close> Recursion is structural nearly everywhere. The deletion in batches is a partial
  function that is shown to end (each batch that goes on makes a table smaller); a random guess takes
  four swaps of the ten digits, the scan of Redis by batches of 100 ends
  with the keys, and the loops of the workers run over the times or firings that come from outside. No
  fuel is used.

  \<^bold>\<open>Not modelled.\<close> The steps of \<open>Server\<close> are atomic, so what is proved of them (\<open>reachable\<close>, \<open>runs\<close>) holds as
  long as they do not overlap; tasks interleave between calls, and the transactions
  of the database are taken to be serializable, so weaker isolation levels and the races of the hub's
  own map are left out. What runs before the program serves (the recovery of games, the
  master), the clean-up of the logs and the backup are not among the tasks, nor are the reads of the
  middlewares and the log of requests. Listening, signals and shutdown in \<open>main.go\<close>, reading a \<open>.env\<close> file, the headers that
  echo's CORS middleware sends, the effect of the settings of the connection pool, the upgrade of a
  connection and the text of JSON, the text of log lines. GORM sets \<open>updated_at\<close> again when a row is saved
  with \<open>Save\<close>; the model keeps the value the code gives. The tests and the frontend are left out.
\<close>


section \<open>Properties\<close>

subsection \<open>The duel\<close>

text \<open>C1: A guess that the transaction of \<open>SubmitGuess\<close> accepts is a move of the abstract duel: the
  player who guesses is the one to move, the results shown are those of the rules (\<open>JudgeDigits\<close> of the
  opponent's secret), the game stored afterwards is the duel after the move, and it is reported finished
  exactly when the duel is won.\<close>

theorem submitGuessTx_is_a_move:
  assumes "duel_inv (uc_Secrets c) (w_db w)" "four_distinct_digits ds"
    "stored_duel (uc_Secrets c) (w_db w) gid a"
    "digests_differ (uc_Secrets c) gid 1" "digests_differ (uc_Secrets c) gid 2"
    "fst (submitGuessTx c u gid ds auto w) = Inr (result, finished)"
  shows "\<exists>g\<in>set (db_games (w_db w)). \<exists>a'. game_ID g = gid \<and> IsParticipant g u \<and>
    duel_guess a (player_slot g u) ds = Some (a', gr_DigitResults result) \<and>
    stored_duel (uc_Secrets c) (w_db (snd (submitGuessTx c u gid ds auto w))) gid a' \<and>
    finished = duel_won a'"
  using submitGuessTx_refines [OF assms(1,2) _ assms(3-5), of u auto result finished] assms(6)
  by (simp add: prod_eq_iff)

theorem submitGuessTx_is_a_move_witness:
  "\<exists>a a' slot result finished. stored_duel sample_hasher (w_db running_world) 50 a \<and>
     fst (submitGuessTx sample_uc 1 50 [1, 2, 3, 4] False running_world) = Inr (result, finished) \<and>
     duel_guess a slot [1, 2, 3, 4] = Some (a', gr_DigitResults result)"
proof -
  obtain a where a: "stored_duel sample_hasher (w_db running_world) 50 a" using running_stored by blast
  obtain result finished where
    run: "fst (submitGuessTx sample_uc 1 50 [1, 2, 3, 4] False running_world) = Inr (result, finished)"
    using submitGuessTx_accepted [of sample_uc running_world 1 sample_running "[1, 2, 3, 4]" False] duel_inv_running
      sample_writable sample_fresh running_facts by auto
  from submitGuessTx_is_a_move [of sample_uc running_world "[1, 2, 3, 4]" 50 a, OF _ _ _ _ _ run]
  show ?thesis using a run duel_inv_running sample_digests_differ sample_digits by auto
qed

text \<open>C2: A secret that the transaction of \<open>SetSecretNumber\<close> accepts sets, once, the secret of the player
  who gave it in the abstract duel, while the duel has not begun; and the game is reported started
  exactly when both secrets are there.\<close>

theorem setSecretTx_sets_a_secret:
  assumes "duel_inv (uc_Secrets c) (w_db w)" "four_distinct_digits ds"
    "stored_duel (uc_Secrets c) (w_db w) gid a"
    "fst (setSecretTx c u gid ds w) = Inr started"
  shows "\<exists>g\<in>set (db_games (w_db w)). \<exists>a'. game_ID g = gid \<and> IsParticipant g u \<and>
    duel_set_secret a (player_slot g u) ds = Some a' \<and>
    stored_duel (uc_Secrets c) (w_db (snd (setSecretTx c u gid ds w))) gid a' \<and> started = duel_started a'"
  using setSecretTx_refines [OF assms(1,2) _ assms(3), of u started] assms(4)
  by (simp add: prod_eq_iff)

theorem setSecretTx_sets_a_secret_witness:
  "\<exists>a a' slot started. stored_duel sample_hasher (w_db waiting_world) 50 a \<and>
     fst (setSecretTx sample_uc 1 50 [1, 2, 3, 4] waiting_world) = Inr started \<and>
     duel_set_secret a slot [1, 2, 3, 4] = Some a'"
proof -
  obtain a where a: "stored_duel sample_hasher (w_db waiting_world) 50 a" using waiting_stored by blast
  obtain started where run: "fst (setSecretTx sample_uc 1 50 [1, 2, 3, 4] waiting_world) = Inr started"
    using setSecretTx_accepted [of sample_uc waiting_world sample_waiting 1 "[1, 2, 3, 4]"]
      duel_inv_waiting sample_writable waiting_facts sample_hashes_fit by auto
  from setSecretTx_sets_a_secret [of sample_uc waiting_world "[1, 2, 3, 4]" 50 a, OF _ _ _ run]
  show ?thesis using a run duel_inv_waiting sample_digits by auto
qed

text \<open>C3: Whatever requests run at the same time, overtake each other and fail, the games they leave are duels
  that the rules allow: from a sound database, after any interleaving, every stored game has hashes of four
  different digits as its secrets and the status that the rules give it; its guesses were made in turn,
  beginning with player 1, and each shows how it compares (\<open>JudgeDigits\<close>) with the secret of the other
  player. (Transactions are taken to be serializable.)\<close>

theorem stored_games_are_duels:
  assumes "served s w (w', ts)" "pool_inv (uc_Secrets (sv_Game s)) (w_db w)" "g \<in> set (db_games (w_db w'))"
    "digests_differ (uc_Secrets (sv_Game s)) (game_ID g) 1" "digests_differ (uc_Secrets (sv_Game s)) (game_ID g) 2"
  shows "\<exists>a. refines (uc_Secrets (sv_Game s)) (game_guesses (w_db w') g) g a \<and> game_Status g = duel_status a \<and>
    played_by_rules g (game_guesses (w_db w') g) a"
proof -
  let ?h = "uc_Secrets (sv_Game s)" and ?rs = "game_guesses (w_db w') g"
  have "pool_inv ?h (w_db w')" using served_sound [OF assms(1,2)] ..
  with assms(3) have log: "game_log_ok ?h ?rs g" by (simp add: pool_inv_def duels_inv_def games_inv_def)
  from game_is_duel [OF this assms(4,5)] obtain a where ref: "refines ?h ?rs g a" by blast
  then have "game_Status g = duel_status a" by (simp add: refines_def)
  with ref refines_played_by_rules [OF log ref assms(4,5)] show ?thesis by blast
qed

theorem stored_games_are_duels_witness:
  "\<exists>w' ts g a. served sample_requests played_world (w', ts) \<and> length ts = 2 \<and> g \<in> set (db_games (w_db w')) \<and>
     game_guesses (w_db w') g \<noteq> [] \<and> played_by_rules g (game_guesses (w_db w') g) a"
proof -
  obtain w' ts where run: "schedule sample_requests sample_schedule (played_world, []) = (w', ts)" by fastforce
  have served: "served sample_requests played_world (w', ts)"
    using schedule_from_start [of sample_requests played_world sample_schedule] by (simp only: run)
  have size: "length ts = 2" using sample_pool_size [of sample_requests played_world] by (simp only: run snd_conv)
  have h: "uc_Secrets (sv_Game sample_requests) = sample_hasher" by (simp add: sample_requests_def)
  have inv: "pool_inv (uc_Secrets (sv_Game sample_requests)) (w_db played_world)"
    using server_inv_pool [OF played_world_facts(1)] by (simp only: h)
  have "kept (w_db played_world) (w_db w')" using served_sound [OF served inv] ..
  then obtain g where g: "g \<in> set (db_games (w_db w'))" "game_guesses (w_db w') g \<noteq> []"
    using kept_guesses played_world_facts(2) by blast
  from stored_games_are_duels [OF served inv g(1)] sample_digests_differ h
  obtain a where "played_by_rules g (game_guesses (w_db w') g) a" by metis
  with served size g show ?thesis by blast
qed

text \<open>C4: A duel can be played to its end: from a game of a sound database that waits for its secrets, both
  secrets are accepted, the second one starts the game, and the first player's guess of the other's secret finishes it with that
  player as its winner. The conditions: no call to a server fails, identifiers are fresh, and on
  PostgreSQL the rows, and the hashes of the secrets of the game, fit their columns (the hashes do with a
  code of up to 31 bytes; with the 32 bytes of HMAC-SHA256 they do not, see
  \<open>secret_does_not_fit_the_column\<close>).\<close>

theorem a_duel_is_played:
  assumes "duel_inv (uc_Secrets c) (w_db w)" "writable w" "fresh_ids w" "hashes_fit (uc_Secrets c) (game_ID g) w"
    "g \<in> set (db_games (w_db w))" "game_Status g = GameStatusWaitingSecret"
    "game_Player1Secret g = ''''" "game_Player2Secret g = ''''" "game_Player1ID g \<noteq> uuid_nil"
    "four_distinct_digits s1" "four_distinct_digits s2"
    "digests_differ (uc_Secrets c) (game_ID g) 1" "digests_differ (uc_Secrets c) (game_ID g) 2"
  shows "\<exists>w1 w2 w3 result. setSecretTx c (game_Player1ID g) (game_ID g) s1 w = (Inr False, w1) \<and>
    setSecretTx c (game_Player2ID g) (game_ID g) s2 w1 = (Inr True, w2) \<and>
    submitGuessTx c (game_Player1ID g) (game_ID g) s2 auto w2 = (Inr (result, True), w3) \<and>
    (\<exists>g'\<in>set (db_games (w_db w3)). game_ID g' = game_ID g \<and> game_Status g' = GameStatusFinished \<and>
       game_WinnerID g' = Some (game_Player1ID g))"
  using assms by (rule duel_played)

theorem a_duel_is_played_witness:
  "\<exists>w1 w2 w3 result. setSecretTx sample_uc 1 50 [1, 2, 3, 4] (on_postgres waiting_world) = (Inr False, w1) \<and>
    setSecretTx sample_uc 2 50 [5, 6, 7, 8] w1 = (Inr True, w2) \<and>
    submitGuessTx sample_uc 1 50 [5, 6, 7, 8] False w2 = (Inr (result, True), w3)"
proof -
  have facts: "game_Player1ID sample_waiting = 1" "game_Player2ID sample_waiting = 2"
    "game_Player1Secret sample_waiting = ''''" "game_Player2Secret sample_waiting = ''''"
    "w_db (on_postgres waiting_world) = w_db waiting_world"
    by (simp_all add: scenario_simps)
  show ?thesis
    using a_duel_is_played [of sample_uc "on_postgres waiting_world" sample_waiting "[1, 2, 3, 4]" "[5, 6, 7, 8]" False]
      waiting_facts(1-3) facts duel_inv_waiting sample_postgres sample_hashes_fit sample_digits sample_digests_differ
    by (simp only: facts) auto
qed

text \<open>C5: No guess of the player to move is lost: on a sound database, when no call fails, identifiers are fresh and, on PostgreSQL,
  the stored rows fit their columns, the transaction accepts every guess of four different digits.\<close>

theorem guess_of_the_mover_is_accepted:
  assumes "duel_inv (uc_Secrets c) (w_db w)" "writable w" "fresh_ids w" "u \<noteq> uuid_nil"
    "g \<in> set (db_games (w_db w))" "CanGuess g u" "IsParticipant g u" "four_distinct_digits ds"
  shows "\<exists>result finished. fst (submitGuessTx c u (game_ID g) ds auto w) = Inr (result, finished)"
  using assms(8) by (intro submitGuessTx_accepted assms(1-7)) (simp add: four_distinct_digits_length)

theorem guess_of_the_mover_is_accepted_witness:
  "\<exists>result finished.
     fst (submitGuessTx sample_uc 1 (game_ID sample_running) [5, 6, 7, 8] True (on_postgres running_world)) =
     Inr (result, finished)"
  by (rule guess_of_the_mover_is_accepted)
    (use duel_inv_running sample_postgres running_facts sample_digits in auto)

text \<open>C6: The rows of the guesses are well formed in every reachable state: a guess belongs to a player of
  its game, its number is four different digits, it has four results, its count of hits is between 0
  and 4, and four hits are a win.\<close>

theorem stored_guesses_are_well_formed:
  assumes "reachable s w y" "server_inv (uc_Secrets (hd_Game (se_WS s))) (w_db w)"
    "g \<in> set (db_games (w_db (sy_world y)))" "r \<in> set (game_guesses (w_db (sy_world y)) g)"
  shows "IsParticipant g (guess_PlayerID r) \<and>
    (\<exists>ds. four_distinct_digits ds \<and> guess_GuessNumber r = format_digits ds) \<and>
    length (guess_DigitResults r) = 4 \<and> 0 \<le> guess_HitCount r \<and> guess_HitCount r \<le> 4 \<and>
    (guess_HitCount r = 4 \<longleftrightarrow> IsWin (guess_DigitResults r))"
proof -
  let ?h = "uc_Secrets (hd_Game (se_WS s))"
  from reachable_server_inv [OF assms(1,2)] assms(3) have "game_log_ok ?h (game_guesses (w_db (sy_world y)) g) g"
    by (auto simp: server_inv_def duel_inv_def games_inv_def)
  with assms(4) have ok: "guess_ok ?h g r" by (simp add: game_log_ok_def)
  then obtain ds where "four_distinct_digits ds" "guess_GuessNumber r = format_digits ds"
    and verify: "Verify ?h (fst (opponentSecret g (guess_PlayerID r))) ds (game_ID g)
      (snd (opponentSecret g (guess_PlayerID r))) = Inr (guess_DigitResults r)"
    and hits: "guess_HitCount r = HitCount (guess_DigitResults r)" unfolding guess_ok_def by blast
  moreover have len: "length (guess_DigitResults r) = 4" by (rule Verify_length [OF verify])
  moreover have "0 \<le> guess_HitCount r" "guess_HitCount r \<le> 4"
    using count_le_length [of "guess_DigitResults r" DigitHit] len by (simp_all add: hits HitCount_count)
  moreover have "guess_HitCount r = 4 \<longleftrightarrow> IsWin (guess_DigitResults r)" by (simp add: hits IsWin_HitCount len)
  moreover have "IsParticipant g (guess_PlayerID r)"
    using ok by (auto simp: guess_ok_def turn_player_def IsParticipant_def)
  ultimately show ?thesis by blast
qed

theorem stored_guesses_are_well_formed_witness:
  "\<exists>g r. g \<in> set (db_games (w_db (sy_world (booted (sample_server ''redis:6379'') played_world)))) \<and>
     r \<in> set (game_guesses (w_db (sy_world (booted (sample_server ''redis:6379'') played_world))) g) \<and>
     length (guess_DigitResults r) = 4 \<and> guess_HitCount r \<le> 4"
proof -
  obtain g r where "g \<in> set (db_games (w_db (sy_world (booted (sample_server ''redis:6379'') played_world))))"
    "r \<in> set (game_guesses (w_db (sy_world (booted (sample_server ''redis:6379'') played_world))) g)"
    using booted_guess by blast
  with stored_guesses_are_well_formed [OF reachable.start _ this] played_world_facts(1) show ?thesis
    by (auto simp: sample_server_hasher)
qed

subsection \<open>The running program\<close>

text \<open>C7: As long as the steps of the running program come one after the other, each without interruption, its
  database stays sound, whatever they are and in any order (requests, WebSocket messages, ticks of the
  workers): stored games are legal duels, names and addresses belong to one account, at most one player waits,
  and only players with a usable account have an active game. (For requests that overlap see
  \<open>stored_games_are_duels\<close> and \<open>interleaved_requests_are_sound\<close>; of what is said here, an overtaken deletion
  breaks the last part, \<open>deletion_misses_a_match\<close>.)\<close>

theorem reachable_states_are_sound:
  assumes "reachable s w y" "server_inv (uc_Secrets (hd_Game (se_WS s))) (w_db w)"
  shows "server_inv (uc_Secrets (hd_Game (se_WS s))) (w_db (sy_world y)) \<and>
    (\<forall>u\<in>set (db_users (w_db (sy_world y))). \<forall>g\<in>set (db_games (w_db (sy_world y))).
       IsDeleted u \<longrightarrow> active_status (game_Status g) \<longrightarrow> \<not> IsParticipant g (user_ID u))"
  using reachable_server_inv [OF assms] deleted_user_idle by blast

theorem reachable_states_are_sound_witness:
  "server_inv sample_hasher (w_db (sy_world (booted (sample_server ''redis:6379'') (sample_world\<lparr>w_db := empty_db\<rparr>))))"
  using reachable_states_are_sound [OF reachable.start, of "sample_server ''redis:6379''" "sample_world\<lparr>w_db := empty_db\<rparr>"]
    server_inv_empty by (simp add: sample_server_hasher)

text \<open>C8: Nothing is lost by steps of the running program that come one after the other, each without
  interruption: accounts, guesses and results stay; a game keeps its players and secrets and never goes
  back; what is finished or deleted stays so. (Where requests overlap, accounts, games, guesses and results
  stay as well, \<open>interleaved_requests_are_sound\<close>, but a deletion may be undone, \<open>login_undoes_a_deletion\<close>.)\<close>

theorem nothing_is_lost:
  assumes "runs s y z" "server_inv (uc_Secrets (hd_Game (se_WS s))) (w_db (sy_world y))"
  shows "(\<forall>g\<in>set (db_games (w_db (sy_world y))). \<exists>g'\<in>set (db_games (w_db (sy_world z))). game_later g g') \<and>
    (\<forall>u\<in>set (db_users (w_db (sy_world y))). \<exists>u'\<in>set (db_users (w_db (sy_world z))). user_later u u') \<and>
    set (db_guesses (w_db (sy_world y))) \<subseteq> set (db_guesses (w_db (sy_world z))) \<and>
    set (db_histories (w_db (sy_world y))) \<subseteq> set (db_histories (w_db (sy_world z)))"
  using runs_nothing_lost [OF assms] by (simp add: nothing_lost_def)

theorem nothing_is_lost_witness:
  "\<exists>g'\<in>set (db_games (w_db (snd (serve_http (se_Deps (sample_server [])) (sample_request ''GET'' ''/api/me'' []) running_world)))).
     game_later sample_running g'"
proof -
  let ?y = "sample_sys running_world"
  have step: "runs (sample_server []) ?y (?y\<lparr>sy_world := snd (serve_http (se_Deps (sample_server []))
      (sample_request ''GET'' ''/api/me'' []) (sy_world ?y))\<rparr>)"
    by (rule runs_one [OF server_step.request]) (simp add: sample_sys_def)
  show ?thesis
    using nothing_is_lost [OF step] running_server_inv running_facts(1)
    by (simp add: sample_server_hasher sample_sys_def)
qed

text \<open>C9: What the program needs to start, up to the point where it is wired and before it recovers games:
  valid settings, a database that opens and migrates (with \<open>SKIP_MIGRATE=1\<close>, opens), a second one that does
  if its address is set, and a Redis whose address can be read and that answers, if one is configured.
  It starts exactly then.\<close>

theorem valid_configurations_start:
  "(\<exists>s. program d lib getenv = Inr s) \<longleftrightarrow> settings_valid getenv \<and>
     database_opens d (getenv ''SKIP_MIGRATE'' \<noteq> ''1'') (cf_DatabaseURL (read_config getenv)) \<and>
     (cf_BackupDatabaseURL (read_config getenv) = [] \<or>
       database_opens d (getenv ''SKIP_MIGRATE'' \<noteq> ''1'') (cf_BackupDatabaseURL (read_config getenv))) \<and>
     redis_answers d getenv"
  using program_starts [of d lib getenv] by (simp add: Let_def)

theorem valid_configurations_start_witness:
  "(\<exists>s. program sample_drivers sample_libraries (sample_env ''redis:6379'') = Inr s) \<and>
   (\<nexists>s. program (sample_drivers\<lparr>dr_ping := \<lambda>_. Some ErrIO\<rparr>) sample_libraries (sample_env ''redis:6379'') = Inr s)"
proof
  show "\<exists>s. program sample_drivers sample_libraries (sample_env ''redis:6379'') = Inr s"
    using sample_settings sample_drivers_open by (subst valid_configurations_start) simp
  have "TrimSpace ''redis:6379'' \<noteq> []" by code_simp
  then show "\<nexists>s. program (sample_drivers\<lparr>dr_ping := \<lambda>_. Some ErrIO\<rparr>) sample_libraries (sample_env ''redis:6379'') = Inr s"
    by (subst valid_configurations_start) (simp add: redis_answers_def sample_env_def TrimSpace_Nil Let_def)
qed

subsection \<open>Requests at the same time\<close>

text \<open>C10: Requests that run at the same time leave the database sound, whatever the schedule and whatever
  fails: from a sound database, any number of requests, each between any two of its calls overtaken by
  any others, leave stored games legal duels, each with one result at most, names and addresses of
  accounts unique, one waiting player at most, and no account with more wins than results that name it;
  and no guess, result, game or account is lost. (Transactions are taken to be serializable.)\<close>

theorem interleaved_requests_are_sound:
  assumes "served s w (w', ts)" "pool_inv (uc_Secrets (sv_Game s)) (w_db w)"
  shows "pool_inv (uc_Secrets (sv_Game s)) (w_db w') \<and> kept (w_db w) (w_db w')"
  using assms by (rule served_sound)

theorem interleaved_requests_are_sound_witness:
  "\<exists>w' ts. served sample_requests running_world (w', ts) \<and> length ts = 2 \<and>
     pool_inv sample_hasher (w_db w') \<and> kept (w_db running_world) (w_db w')"
proof -
  obtain w' ts where run: "schedule sample_requests sample_schedule (running_world, []) = (w', ts)" by fastforce
  have served: "served sample_requests running_world (w', ts)"
    using schedule_from_start [of sample_requests running_world sample_schedule] by (simp only: run)
  moreover have "length ts = 2" using sample_pool_size [of sample_requests running_world] by (simp only: run snd_conv)
  ultimately show ?thesis
    using interleaved_requests_are_sound [OF served sample_pool] by (auto simp: sample_requests_def)
qed

text \<open>C11: A login undoes the deletion of the account. When an administrator deletes the account after the
  login's first call, which reads its row, and before the rest of it, the account is deleted when the
  administrator is answered, and a login that then succeeds leaves it not deleted: it saves all columns
  of the row it had read.\<close>

theorem login_undoes_a_deletion:
  assumes "accounts_inv (w_db w)" "advance 1 (Login_task a e p, w) = (t, w1)"
    "AdminDeleteUser ad adm i w1 = (Inr (), w2)" "alone t w2 = (Inr r, w3)" "lr_ID r = i"
  shows "account_deleted (w_db w2) i \<and> \<not> account_deleted (w_db w3) i"
  using assms by (rule Login_undeletes)

theorem login_undoes_a_deletion_witness:
  "\<exists>t w1 w2 r w3. advance 1 (sample_login, sample_world) = (t, w1) \<and>
     AdminDeleteUser sample_admin 9 1 w1 = (Inr (), w2) \<and> alone t w2 = (Inr r, w3) \<and>
     account_deleted (w_db w2) 1 \<and> \<not> account_deleted (w_db w3) 1"
proof -
  let ?t = "Login_rest sample_auth (sample_user 1 ''alice'')" and ?w1 = "sample_read sample_world"
  have read: "advance 1 (sample_login, sample_world) = (?t, ?w1)"
    by (rule sample_login_reads) (simp_all add: sample_world_def)
  obtain w2 where deleted: "AdminDeleteUser sample_admin 9 1 ?w1 = (Inr (), w2)" and ready: "login_ready w2"
    using sample_deletion by (metis prod.collapse)
  from sample_login_rest [OF ready] obtain r w3 where rest: "alone ?t w2 = (Inr r, w3)" and r: "lr_ID r = 1"
    by (metis prod.collapse sample_user_ID)
  have "accounts_inv (w_db sample_world)" by (simp add: accounts_inv_def sample_world_simps)
  from login_undoes_a_deletion [OF this read [unfolded sample_login_def] deleted rest r] read deleted rest
  show ?thesis by blast
qed

text \<open>C12: A login loses a win. When the player wins a game after the login's first call and before the rest
  of it, the account ends up with one win less than there are results that name it as winner; and when the
  ranking is built then, it shows one win less as well (a master's account is not in it).\<close>

theorem login_loses_a_win:
  assumes "duel_inv (uc_Secrets c) (w_db w)" "four_distinct_digits ds"
    "advance 1 (Login_task a e p, w) = (t, w1)"
    "WithTx (submitGuessTx c i g ds auto) w1 = (Inr (result, True), w2)"
    "alone t w2 = (Inr r, w3)" "lr_ID r = i" "Rebuild w3 = (Inr (), w4)"
  shows "\<exists>v\<in>set (db_users (w_db w3)). user_ID v = i \<and>
    user_WinCount v + 1 = int (won_by i (db_histories (w_db w3))) \<and>
    (\<forall>x\<in>set (db_rankings (w_db w4)). ranking_UserID x = i \<longrightarrow>
       ranking_WinCount x + 1 = int (won_by i (db_histories (w_db w3)))) \<and>
    (IsMaster v \<or> (\<exists>x\<in>set (db_rankings (w_db w4)). ranking_UserID x = i))"
proof -
  from Login_loses_win(1) [OF assms(1-6)] obtain v where v: "v \<in> set (db_users (w_db w3))" "user_ID v = i"
    "\<not> IsDeleted v" "user_WinCount v + 1 = int (won_by i (db_histories (w_db w3)))" by blast
  from lost_win_is_not_ranked [OF v(1,4,3) Login_loses_win(2) [OF assms(1-6)] assms(7)] v(1,2,4) show ?thesis
    by auto
qed

theorem login_loses_a_win_witness:
  "\<exists>t w1 w2 result r w3 w4 x. advance 1 (sample_login, running_world) = (t, w1) \<and>
     WithTx (submitGuessTx sample_uc 1 50 [5, 6, 7, 8] False) w1 = (Inr (result, True), w2) \<and>
     alone t w2 = (Inr r, w3) \<and> Rebuild w3 = (Inr (), w4) \<and> x \<in> set (db_rankings (w_db w4)) \<and> ranking_UserID x = 1 \<and>
     ranking_WinCount x + 1 = int (won_by 1 (db_histories (w_db w3)))"
proof -
  let ?t = "Login_rest sample_auth (sample_user 1 ''alice'')" and ?w1 = "sample_read running_world"
  have read: "advance 1 (sample_login, running_world) = (?t, ?w1)"
    by (rule sample_login_reads) (simp_all add: scenario_simps)
  obtain result w2 where won: "WithTx (submitGuessTx sample_uc 1 50 [5, 6, 7, 8] False) ?w1 = (Inr (result, True), w2)"
    and ready: "login_ready w2" using sample_win by (metis prod.collapse)
  from sample_login_rest [OF ready] obtain r w3 where rest: "alone ?t w2 = (Inr r, w3)" and r: "lr_ID r = 1"
    by (metis prod.collapse sample_user_ID)
  have inv: "duel_inv (uc_Secrets sample_uc) (w_db running_world)" using duel_inv_running by simp
  note run = inv sample_digits(2) read [unfolded sample_login_def] won rest r
  obtain w4 where ranked: "Rebuild w3 = (Inr (), w4)"
    using Rebuild_succeeds [of w3] sample_login_after [OF ready rest] Login_loses_win(2) [OF run] by auto
  have "\<not> IsMaster u" if "u \<in> set (db_users (w_db running_world))" for u
    using that by (auto simp: scenario_simps IsMaster_def)
  with Login_loses_win(1) [OF run] obtain v where "v \<in> set (db_users (w_db w3))" "user_ID v = 1" "\<not> IsMaster v"
    by (auto simp: IsMaster_def)
  moreover from login_loses_a_win [OF run ranked] obtain v' where "v' \<in> set (db_users (w_db w3))" "user_ID v' = 1"
    and shown: "\<forall>x\<in>set (db_rankings (w_db w4)). ranking_UserID x = 1 \<longrightarrow>
       ranking_WinCount x + 1 = int (won_by 1 (db_histories (w_db w3)))"
      "IsMaster v' \<or> (\<exists>x\<in>set (db_rankings (w_db w4)). ranking_UserID x = 1)" by blast
  moreover have "v' = v"
    by (rule distinct_key_eq [OF Login_loses_win(2) [OF run]]) (use calculation in simp_all)
  ultimately have "\<exists>x\<in>set (db_rankings (w_db w4)). ranking_UserID x = 1 \<and>
      ranking_WinCount x + 1 = int (won_by 1 (db_histories (w_db w3)))" by blast
  with read won rest ranked show ?thesis by blast
qed

text \<open>C13: A deleted account can be in an active game. A deletion looks for an active game of the account
  before its transaction; when the account is matched after that look and before the transaction, the
  deletion succeeds, and the account is deleted and a player of an active game.\<close>

theorem deletion_misses_a_match:
  assumes "accounts_inv (w_db w)" "advance 3 (AdminDeleteUser_task a adm i, w) = (t, w1)"
    "WithTx (startMatchingTx v tm) w1 = (Inr (Some g), w2)" "IsParticipant g i" "alone t w2 = (Inr (), w3)"
  shows "account_deleted (w_db w3) i \<and> active_player (w_db w3) i"
  using deletion_in_a_game [OF _ assms(2-5)] assms(1) by (simp add: accounts_inv_def)

theorem deletion_misses_a_match_witness:
  "\<exists>t w1 g w2 w3. advance 3 (AdminDeleteUser_task sample_admin 9 1, queue_world) = (t, w1) \<and>
     WithTx (startMatchingTx 1 second) w1 = (Inr (Some g), w2) \<and> alone t w2 = (Inr (), w3) \<and>
     account_deleted (w_db w3) 1 \<and> active_player (w_db w3) 1"
proof -
  obtain g w2 where run: "WithTx (startMatchingTx 1 second) (sample_read (sample_read queue_world)) = (Inr (Some g), w2)"
      "IsParticipant g 1"
    and ok: "fst (alone (AdminDeleteUser_rest sample_admin 9 1 (sample_user 1 ''alice'')) w2) = Inr ()"
    using sample_match by blast
  obtain w3 where rest: "alone (AdminDeleteUser_rest sample_admin 9 1 (sample_user 1 ''alice'')) w2 = (Inr (), w3)"
    using ok by (metis prod.collapse)
  have "accounts_inv (w_db queue_world)" by (simp add: accounts_inv_def queue_world_def sample_world_simps)
  from deletion_misses_a_match [OF this sample_check run rest] sample_check run(1) rest show ?thesis by blast
qed

subsection \<open>Digits\<close>

text \<open>C14: \<open>ValidateFourDigits\<close> accepts exactly the decimal texts of four different digits, and returns
  those digits.\<close>

theorem ValidateFourDigits_exact:
  "ValidateFourDigits s = Inr ds \<longleftrightarrow> four_distinct_digits ds \<and> s = format_digits ds"
  by (rule ValidateFourDigits_Inr)

text \<open>C15: Verifying a guess against the stored hash of a secret is judging it against the secret, when the
  code tells the digits of a position apart: the optimised comparison of digests and the rules agree,
  and the guess wins exactly when it is the secret.\<close>

theorem Verify_judges:
  assumes "digests_differ h gid slot" "four_distinct_digits s" "four_distinct_digits g"
    "Hash h s gid slot = Inr hash"
  shows "Verify h hash g gid slot = Inr (JudgeDigits s g) \<and> (IsWin (JudgeDigits s g) \<longleftrightarrow> s = g)"
  using Verify_Hash_judge [OF assms] assms(2,3) by (simp add: IsWin_JudgeDigits four_distinct_digits_length)

theorem Verify_judges_witness:
  "Verify sample_hasher (sample_secret 1 [1, 2, 3, 4]) [5, 6, 7, 8] 50 1 =
     Inr (JudgeDigits [1, 2, 3, 4] [5, 6, 7, 8])"
  using Verify_judges [OF sample_digests_differ sample_digits sample_Hash] by blast

text \<open>C16: The random guess of a turn that ran out is always produced when entropy is available, and is
  always one that the validation accepts.\<close>

theorem GenerateGuessNumber_valid:
  assumes "\<And>n. w_rand w n \<noteq> None"
  shows "\<exists>s w' ds. GenerateGuessNumber w = (Inr s, w') \<and> ValidateFourDigits s = Inr ds"
  using random_service.generate_runs [OF assms] random_service.generated_valid by blast

theorem GenerateGuessNumber_valid_witness:
  "\<exists>s w' ds. GenerateGuessNumber sample_world = (Inr s, w') \<and> ValidateFourDigits s = Inr ds"
  by (rule GenerateGuessNumber_valid) (simp add: sample_world_def)

subsection \<open>Sessions and accounts\<close>

text \<open>C17: A refresh token that was used before ends its family. The replay never gets tokens; where it is
  answered \<open>unauthorized\<close>, no token of the family is usable any more; and that is the answer when no call
  fails and the program has Redis or keeps no sessions there. (When a call to a server fails, the answer is
  another error, and the family may still be usable.)\<close>

theorem replayed_token_ends_the_family:
  assumes "TrimSpace tok \<noteq> ''''"
    "first_row token_ID (\<lambda>x. token_TokenHash x = RefreshHash (au_Services a) (TrimSpace tok))
      (db_tokens (w_db w)) = Some old" "token_Status old = RefreshTokenRevoked"
  shows "(\<forall>tokens. fst (Refresh a tok w) \<noteq> Inr tokens) \<and>
    (fst (Refresh a tok w) = Inl ErrUnauthorized \<longrightarrow> (\<forall>t\<in>set (db_tokens (w_db (snd (Refresh a tok w)))).
       token_FamilyID t = token_FamilyID old \<longrightarrow> \<not> token_revocable t)) \<and>
    (no_faults w \<and> sessions_configured a \<longrightarrow> fst (Refresh a tok w) = Inl ErrUnauthorized)"
proof -
  obtain r w' where run: "Refresh a tok w = (r, w')" by fastforce
  from Refresh_replay [OF assms(1) run assms(2,3)] obtain e where e: "r = Inl e"
    and db: "e = ErrUnauthorized \<longrightarrow> (\<exists>t. w_db w' = (w_db w)\<lparr>db_tokens :=
       update_rows (\<lambda>x. token_FamilyID x = token_FamilyID old \<and> token_revocable x) (token_revoke t)
         (db_tokens (w_db w))\<rparr>)" by blast
  have "\<not> token_revocable x" if "e = ErrUnauthorized" "x \<in> set (db_tokens (w_db w'))"
    "token_FamilyID x = token_FamilyID old" for x
    using db that by (auto simp: update_rows_def token_revoke_def token_revocable_def split: if_splits)
  with run e Refresh_reused(1) [OF assms(1) _ _ assms(2,3)] show ?thesis by auto
qed

theorem replayed_token_ends_the_family_witness:
  "fst (Refresh sample_auth ''a'' token_world) = Inl ErrUnauthorized \<and>
   filter (\<lambda>t. token_FamilyID t = 70 \<and> token_revocable t) (db_tokens (w_db (snd (Refresh sample_auth ''a'' token_world)))) = []"
proof -
  have "token_FamilyID (token_revoke second (sample_token 60 ''61'')) = 70"
    by (simp add: token_revoke_def sample_token_def NewRefreshToken_def)
  moreover have "first_row token_ID (\<lambda>x. token_TokenHash x = RefreshHash (au_Services sample_auth) (TrimSpace ''a''))
      (db_tokens (w_db token_world)) = Some (token_revoke second (sample_token 60 ''61''))"
    unfolding sample_hash_a by (rule token_world_first)
  ultimately show ?thesis
    using replayed_token_ends_the_family [OF _ _ token_world_facts(3), of "''a''" sample_auth token_world]
      token_world_facts(1,2) by (simp add: TrimSpace_a filter_empty_conv)
qed

text \<open>C18: A family of refresh tokens holds one usable token at most, and the hash of a token names one
  token: whatever \<open>Refresh\<close> returns, it keeps this.\<close>

theorem Refresh_keeps_token_inv:
  assumes "token_inv (w_db w)"
  shows "token_inv (w_db (snd (Refresh a tok w)))"
  using keepsD [OF keeps_tokens_Refresh] assms by simp

theorem Refresh_keeps_token_inv_witness:
  "token_inv (w_db (snd (Refresh sample_auth ''b'' token_world)))"
  by (rule Refresh_keeps_token_inv [OF token_world_inv])

text \<open>C19: A token that was used to log out is refused from then on, whatever the program writes to Redis
  afterwards (sessions, locks, turns, logouts of others, or the same revocation again, for as long): until a millisecond before it expires, as Redis
  counts whole milliseconds, no request with its identifier passes. The clock is taken not to go back.\<close>

theorem logout_ends_the_token:
  assumes "Logout a u jti exp w = (Inr x, w')" "au_JWTRevoker a = Some s" "ac_Revoker cfg = Some s"
    "\<And>m n. m \<le> n \<Longrightarrow> w_clock w m \<le> w_clock w n"
    "store_history jti t w' w''" "checkToken cfg tok w'' = (Inr info, w3)"
    "w_clock w'' (Suc (w_nclock w'')) = t" "t + 1000000 \<le> exp"
  shows "an_JTI info \<noteq> jti"
  using assms(6)
proof (cases rule: checkToken_success)
  case (1 tk w1)
  have "r_get (JwtRevokedKey jti) t (w_redis w') \<noteq> None" by (rule Logout_revokes [OF assms(1,2,4,8)])
  with store_history_revoked [OF assms(5)] 1 assms(3,7) show ?thesis by auto
qed

theorem logout_ends_the_token_witness:
  "\<exists>w' v info w3. Logout (sample_auth\<lparr>au_JWTRevoker := Some LiveStore\<rparr>) 1 ''2'' (100 * second) sample_world = (Inr (), w') \<and>
     store_call (TakeLock (GuessLockKey 50 1) second) w' = (Inr (), v) \<and>
     checkToken sample_authmw ''x'' v = (Inr info, w3) \<and> an_JTI info \<noteq> ''2''"
proof -
  let ?a = "sample_auth\<lparr>au_JWTRevoker := Some LiveStore\<rparr>" and ?c = "TakeLock (GuessLockKey 50 1) second"
  obtain r w' where run: "Logout ?a 1 ''2'' (100 * second) sample_world = (r, w')" by fastforce
  then have r: "r = Inr ()" and w': "w_redis w' = [(JwtRevokedKey ''2'', RStr ''1'', Some (101 * second))]" "w_clock w' = w_clock sample_world"
      "w_nclock w' = 2" "w_faults w' = w_faults sample_world"
    by (auto simp: Logout_def sample_auth_def run_simps Revoke_def logoutTx_def touchUserActivity_def sample_eval
        cong: go_congs)
  with run have out: "Logout ?a 1 ''2'' (100 * second) sample_world = (Inr (), w')" by simp
  obtain r v where lock: "store_call ?c w' = (r, v)" by fastforce
  then have r: "r = Inr ()" and v: "w_redis v = [(JwtRevokedKey ''2'', RStr ''1'', Some (101 * second)),
      (GuessLockKey 50 1, RStr ''1'', Some (3 * second))]" "w_clock v = w_clock sample_world" "w_nclock v = 3"
      "w_faults v = w_faults sample_world"
    by (auto simp: AcquireLock_def lockAcquireScript_def lock_seconds_def whole_seconds_def run_simps sample_eval w'
        cong: go_congs)
  have hist: "store_history ''2'' (4 * second) w' v"
    by (rule store_history.written [OF store_history.start _ lock]) simp
  obtain info w3 where check: "checkToken sample_authmw ''x'' v = (Inr info, w3)"
    by (simp add: checkToken_def sample_authmw_def Parse_def sample_services_def run_simps checkRevoked_def
        IsRevoked_jti_def checkForcedLogout_def v sample_eval cong: go_congs)
  have "an_JTI info \<noteq> ''2''"
    by (rule logout_ends_the_token [OF out _ _ _ hist check]) (simp_all add: sample_authmw_def sample_world_simps v)
  with out lock r check show ?thesis by blast
qed

text \<open>C20: A request to a protected route without the cookie of the access token is answered with
  \<open>unauthorized\<close>, and changes nothing but the log of requests.\<close>

theorem requests_need_a_token:
  assumes "is_protected h rq" "no_cookie rq"
  shows "fst (serve_http h rq w) = Inr (WriteError ErrUnauthorized) \<and>
    (\<exists>ls. w_db (snd (serve_http h rq w)) = (w_db w)\<lparr>db_actlogs := ls\<rparr>)"
  using serve_http_no_cookie [OF assms] by (simp add: only_logs_def)

theorem requests_need_a_token_witness:
  "fst (serve_http (se_Deps (sample_server [])) (sample_request ''GET'' ''/api/me'' []) sample_world) =
     Inr (WriteError ErrUnauthorized)"
  using requests_need_a_token [OF sample_protected(1)]
  by (simp add: no_cookie_def sample_request_def)

text \<open>C21: An administrator's route does its work only for a token of a master: when the token of the
  request is not accepted as a master's, the answer is an error, and nothing is changed but the log of
  requests and, where the token is accepted, the time of its user's last activity.\<close>

theorem administration_needs_a_master:
  assumes "is_admin_route h rq" "serve_http h rq w = (r, w')"
    "\<And>info. accepted_as h rq w info \<Longrightarrow> an_Role info \<noteq> RoleMaster"
  shows "\<exists>e. r = Inr (WriteError e) \<and> (only_logs (w_db w) (w_db w') \<or>
    (\<exists>info. accepted_as h rq w info \<and> quiet (an_UserID info) (w_db w) (w_db w')))"
  using assms by (rule admin_route_needs_master)

theorem administration_needs_a_master_witness:
  "\<exists>e. fst (serve_http (se_Deps (sample_server ''redis:6379''))
      (sample_request ''GET'' ''/api/admin/users'' [(''access_token'', ''x'')]) sample_world) = Inr (WriteError e)"
proof -
  let ?h = "se_Deps (sample_server ''redis:6379'')" and ?rq = "sample_request ''GET'' ''/api/admin/users'' [(''access_token'', ''x'')]"
  have role: "an_Role info \<noteq> RoleMaster" if "accepted_as ?h ?rq sample_world info" for info
  proof -
    from that obtain w1 w2 where "checkToken (dp_AuthMW ?h) ''x'' w1 = (Inr info, w2)"
      by (auto simp: accepted_as_def sample_request_def)
    then obtain tk v where "Parse (ac_JWT (dp_AuthMW ?h)) ''x'' w1 = (Inr tk, v)" "an_Role info = at_Role tk"
      by (rule checkToken_success)
    with sample_server_parses [of "''x''" "''redis:6379''" w1] show ?thesis by auto
  qed
  obtain r w' where run: "serve_http ?h ?rq sample_world = (r, w')" by fastforce
  show ?thesis
    using administration_needs_a_master [OF sample_protected(2) run role] run by auto
qed

text \<open>C22: The owner of a deleted account stays out: no token of it is accepted for a request or a
  WebSocket connection, and its password opens no session.\<close>

theorem deleted_accounts_stay_out:
  assumes "account_deleted (w_db w) i"
  shows "(\<forall>cfg tok info w1. ac_Users cfg \<and> checkToken cfg tok w = (Inr info, w1) \<longrightarrow> an_UserID info \<noteq> i) \<and>
    (\<forall>a tok w1. Authenticate a tok w \<noteq> (Inr i, w1)) \<and>
    (\<forall>au email p res w1. Login au email p w = (Inr res, w1) \<longrightarrow> lr_ID res \<noteq> i)"
  using deleted_account_stays_out [OF assms] by blast

theorem deleted_accounts_stay_out_witness:
  "\<forall>a tok w1. Authenticate a tok
     (sample_world\<lparr>w_db := sample_db\<lparr>db_users := [(sample_user 1 ''alice'')\<lparr>user_DeletedAt := Some 5\<rparr>]\<rparr>\<rparr>) \<noteq> (Inr 1, w1)"
proof -
  have "account_deleted (w_db (sample_world\<lparr>w_db := sample_db\<lparr>db_users := [(sample_user 1 ''alice'')\<lparr>user_DeletedAt := Some 5\<rparr>]\<rparr>\<rparr>)) 1"
    by (simp add: account_deleted_def IsDeleted_def)
  from deleted_accounts_stay_out [OF this] show ?thesis by blast
qed

text \<open>C23: Deleting an account is complete: afterwards it is deleted, none of its sessions can be
  refreshed, its owner waits for no match; and it was an account that could play, not the
  administrator's own.\<close>

theorem deletion_is_complete:
  assumes "fst (AdminDeleteUser a adm i w) = Inr ()" "accounts_inv (w_db w)"
  shows "let d = w_db (snd (AdminDeleteUser a adm i w)) in
    (\<forall>u\<in>set (db_users d). user_ID u = i \<longrightarrow> IsDeleted u) \<and>
    (\<forall>r\<in>set (db_tokens d). token_UserID r = i \<longrightarrow> \<not> token_revocable r) \<and>
    (\<forall>e\<in>set (db_queue d). entry_UserID e \<noteq> i) \<and> adm \<noteq> i \<and>
    (\<exists>v\<in>set (db_users (w_db w)). user_ID v = i \<and> CanMatch v)"
  using AdminDeleteUser_effect [of a adm i w "()" "snd (AdminDeleteUser a adm i w)"] assms
  by (simp add: prod_eq_iff account_deleted_def)

theorem deletion_is_complete_witness:
  "fst (AdminDeleteUser sample_admin 9 1 sample_world) = Inr () \<and>
   filter (\<lambda>u. user_ID u = 1 \<and> \<not> IsDeleted u)
     (db_users (w_db (snd (AdminDeleteUser sample_admin 9 1 sample_world)))) = []"
proof -
  have ok: "fst (AdminDeleteUser sample_admin 9 1 sample_world) = Inr ()"
    by (simp add: AdminDeleteUser_def deletionTarget_def acquireLock_def sample_admin_def endSessions_def run_simps
        findActiveGameForUser_def gameRepo_ListByPlayerID_def deleteUserTx_def matchingQueueRepo_DeleteByUserID_def
        recordAdminDeleteUserLog_def deleted_user_def sample_eval cong: go_congs)
  have inv: "accounts_inv (w_db sample_world)" by (simp add: accounts_inv_def sample_world_simps)
  show ?thesis using ok deletion_is_complete [OF ok inv] by (auto simp: Let_def filter_empty_conv)
qed

subsection \<open>Locks and limits\<close>

text \<open>C24: A lock is exclusive: after an attempt that took it, every attempt before its time is over
  fails, whatever attempts on whatever keys come in between.\<close>

theorem lock_is_exclusive:
  assumes "fst (lockAcquireScript k sec t r)" "t \<le> t'" "t' < t + sec * second"
    "\<forall>(k', s, x)\<in>set attempts. x \<le> t'"
  shows "\<not> fst (lockAcquireScript k sec' t' (lock_history attempts (snd (lockAcquireScript k sec t r))))"
  using lock_history_held [OF redis_locks.acquired_held [OF assms(1,3)], of attempts] assms(4)
  by (simp add: redis_locks.acquire_result)

theorem lock_is_exclusive_witness:
  "\<not> fst (lockAcquireScript (UserDeleteLockKey 1) 5 second
      (lock_history [(UserDeleteLockKey 2, 9, 0)] (snd (lockAcquireScript (UserDeleteLockKey 1) 5 0 []))))"
  by (rule lock_is_exclusive) (simp_all add: lockAcquireScript_def r_get_def)

text \<open>C25: The sliding window holds: of the requests with one key, whatever other keys are served in
  between, no more than the limit are let through in any window of time.\<close>

theorem rate_limit_holds:
  assumes "0 < lim key" "0 < window" "sorted (map snd reqs)"
  shows "int (length (within s window (granted key (serve lim window reqs newRateLimiter)))) \<le> lim key"
  using serve_window [where lim = lim and key = key and window = window and reqs = reqs and r = newRateLimiter and s = s] assms
  by (simp add: newRateLimiter_def hits_of_def)

theorem rate_limit_holds_witness:
  "int (length (within 0 60 (granted ''k''
     (serve (\<lambda>_. 1) 60 [(''k'', 0), (''l'', 1), (''k'', 2)] newRateLimiter)))) \<le> 1"
  by (rule rate_limit_holds) simp_all

text \<open>C26: The keys of the locks, timers, sessions and revocations never collide as strings, and the
  identifier of a turn key is read back by \<open>parseTurnKeyGameID\<close>, for any text of the identifiers that
  is injective, read back by its parser, not empty and without a colon.\<close>

theorem redis_keys_do_not_collide:
  assumes "\<And>u. uparse (ustr u) = Some u" "\<And>u. CHR '':'' \<notin> set (ustr u)" "\<And>u. ustr u \<noteq> ''''"
  shows "(rkey_string ustr k = rkey_string ustr k' \<longleftrightarrow> k = k') \<and>
    parseTurnKeyGameID uparse (rkey_string ustr (TurnKey g)) = Inr g"
proof -
  have "inj ustr" by (rule injI) (metis assms(1) option.inject)
  then show ?thesis
    using rkey_string_inj [of ustr k k'] parseTurnKeyGameID_key [of uparse ustr g] assms by blast
qed

definition sample_text :: "uuid \<Rightarrow> string" where
  "sample_text u = replicate (Suc (unat u)) CHR ''u''"

definition sample_parse :: "string \<Rightarrow> uuid option" where
  "sample_parse s = Some (of_nat (length s - 1))"

theorem redis_keys_do_not_collide_witness:
  "rkey_string sample_text (TurnKey 1) \<noteq> rkey_string sample_text (TurnKey 2) \<and>
   parseTurnKeyGameID sample_parse (rkey_string sample_text (TurnKey 7)) = Inr 7"
  using redis_keys_do_not_collide [of sample_parse sample_text "TurnKey 1" "TurnKey 2" 7]
  by (simp add: sample_text_def sample_parse_def)

subsection \<open>Matching and ranking\<close>

text \<open>C27: When somebody waits and a second player who can play asks for a match, the two get a game that
  waits for their secrets, and nobody waits any more: when no call to a server fails, and the identifiers made
  for the new entry of the queue and for the game are new.\<close>

theorem second_player_is_matched:
  assumes "no_faults w" "queue_inv (w_db w)" "db_queue (w_db w) = [e]"
    "entry_UserID e \<noteq> u" "player_ready (w_db w) (entry_UserID e)" "player_ready (w_db w) u"
    "w_ids w (w_nids w) \<noteq> entry_ID e" "\<forall>g\<in>set (db_games (w_db w)). game_ID g \<noteq> w_ids w (Suc (w_nids w))"
  shows "\<exists>g w'. StartMatching notifier u w = (Inr \<lparr>mo_Status = ''matched'', mo_GameID = Some (game_ID g)\<rparr>, w') \<and>
    g \<in> set (db_games (w_db w')) \<and> {game_Player1ID g, game_Player2ID g} = {entry_UserID e, u} \<and>
    game_Status g = GameStatusWaitingSecret \<and> db_queue (w_db w') = []"
  using assms by (rule StartMatching_matches)

theorem second_player_is_matched_witness:
  "\<exists>g w'. StartMatching True 1 (sample_world\<lparr>w_db := sample_db\<lparr>db_queue := [sample_entry]\<rparr>\<rparr>) =
      (Inr \<lparr>mo_Status = ''matched'', mo_GameID = Some (game_ID g)\<rparr>, w') \<and>
    g \<in> set (db_games (w_db w')) \<and> {game_Player1ID g, game_Player2ID g} = {2, 1} \<and>
    game_Status g = GameStatusWaitingSecret \<and> db_queue (w_db w') = []"
proof -
  let ?w = "sample_world\<lparr>w_db := sample_db\<lparr>db_queue := [sample_entry]\<rparr>\<rparr>"
  have "no_faults ?w" "queue_inv (w_db ?w)" "db_queue (w_db ?w) = [sample_entry]" "entry_UserID sample_entry = 2"
    "player_ready (w_db ?w) 2" "player_ready (w_db ?w) 1"
    "w_ids ?w (w_nids ?w) \<noteq> entry_ID sample_entry" "\<forall>g\<in>set (db_games (w_db ?w)). game_ID g \<noteq> w_ids ?w (Suc (w_nids ?w))"
    by (simp_all add: no_faults_def queue_inv_def sample_entry_def sample_world_simps player_ready_def first_row_def
        CanMatch_def IsDeleted_def IsMaster_def)
  then show ?thesis using second_player_is_matched [of ?w sample_entry 1 True] by simp
qed

text \<open>C28: A game whose secrets were not set in time does not stay: after a tick of its worker no game is
  left that has waited longer than allowed. The conditions: the database is sound, no call to a server fails, the program has Redis
  (or no timers), on PostgreSQL the stored rows fit their columns, and the clock does not go back.\<close>

theorem overdue_games_are_cancelled:
  assumes "duel_inv (uc_Secrets c) (w_db w)" "writable w" "uc_Turns c \<noteq> Some NilStore"
    "\<And>m n. m \<le> n \<Longrightarrow> w_clock w m \<le> w_clock w n" "t \<le> w_clock w (w_nclock w)" "0 < uc_SecretSetup c"
  shows "\<exists>w'. SecretSetupTimeoutWorker_tick c t w = (Inr (), w') \<and>
    (\<forall>g\<in>set (db_games (w_db w')). \<not> overdue c t g)"
  using assms by (rule secret_worker_cancels)

theorem overdue_games_are_cancelled_witness:
  "w_dialect late_world = Postgres \<and> overdue sample_uc (100 * second) sample_waiting \<and>
   (\<exists>w'. SecretSetupTimeoutWorker_tick sample_uc (100 * second) late_world = (Inr (), w') \<and>
     filter (overdue sample_uc (100 * second)) (db_games (w_db w')) = [])"
proof (intro conjI)
  show "w_dialect late_world = Postgres" by (simp add: late_world_def)
  show "overdue sample_uc (100 * second) sample_waiting" by (rule late_world_facts(5)) (simp add: sample_uc_def)
  have "\<exists>w'. SecretSetupTimeoutWorker_tick sample_uc (100 * second) late_world = (Inr (), w') \<and>
     (\<forall>g\<in>set (db_games (w_db w')). \<not> overdue sample_uc (100 * second) g)"
    by (rule overdue_games_are_cancelled)
      (use late_world_facts(1-3) in \<open>simp_all add: late_world_facts(4) duel_inv_waiting sample_uc_def\<close>)
  then show "\<exists>w'. SecretSetupTimeoutWorker_tick sample_uc (100 * second) late_world = (Inr (), w') \<and>
     filter (overdue sample_uc (100 * second)) (db_games (w_db w')) = []" by (simp add: filter_empty_conv)
qed

text \<open>C29: A rebuild of the ranking that succeeds stores exactly the accounts that are neither deleted nor
  masters, each with its identifier, its name and its count of wins, ranked from 1 without gaps, by more wins
  and then by name.\<close>

theorem ranking_is_rebuilt:
  assumes "Rebuild w = (Inr (), w')"
  shows "mset (map (\<lambda>r. (ranking_UserID r, ranking_Username r, ranking_WinCount r)) (db_rankings (w_db w'))) =
      mset (map (\<lambda>u. (user_ID u, user_Username u, user_WinCount u))
        (filter (\<lambda>u. user_DeletedAt u = None \<and> user_Role u \<noteq> RoleMaster) (db_users (w_db w)))) \<and>
    map ranking_Rank (db_rankings (w_db w')) = map (\<lambda>n. int n + 1) [0..<length (db_rankings (w_db w'))] \<and>
    sorted_wrt (\<lambda>r s. ranking_WinCount s < ranking_WinCount r \<or>
      ranking_WinCount r = ranking_WinCount s \<and> ranking_Username r \<le> ranking_Username s) (db_rankings (w_db w'))"
proof -
  have "CanMatch = (\<lambda>u. user_DeletedAt u = None \<and> user_Role u \<noteq> RoleMaster)"
    by (auto simp: CanMatch_def IsDeleted_def IsMaster_def)
  with Rebuild_accounts [OF assms] Rebuild_order [OF assms] show ?thesis by simp
qed

theorem ranking_is_rebuilt_witness:
  "\<exists>w' first second. Rebuild (sample_world\<lparr>w_db := sample_db\<lparr>db_users :=
      [sample_user 1 ''alice'', (sample_user 2 ''bob'')\<lparr>user_WinCount := 3\<rparr>]\<rparr>\<rparr>) = (Inr (), w') \<and>
    db_rankings (w_db w') = [first, second] \<and> ranking_Rank first = 1 \<and> ranking_WinCount second < ranking_WinCount first"
proof -
  let ?w = "sample_world\<lparr>w_db := sample_db\<lparr>db_users :=
      [sample_user 1 ''alice'', (sample_user 2 ''bob'')\<lparr>user_WinCount := 3\<rparr>]\<rparr>\<rparr>"
  obtain w' where run: "Rebuild ?w = (Inr (), w')"
    using Rebuild_succeeds [of ?w] by (auto simp: sample_world_simps)
  let ?rs = "db_rankings (w_db w')"
  have rows: "mset (map (\<lambda>r. (ranking_UserID r, ranking_Username r, ranking_WinCount r)) ?rs) =
      {#(1, ''alice'', 0), (2, ''bob'', 3)#}"
    using ranking_is_rebuilt [OF run] by (simp add: sample_world_simps)
  have "size (mset (map (\<lambda>r. (ranking_UserID r, ranking_Username r, ranking_WinCount r)) ?rs)) = 2"
    unfolding rows by simp
  then have "length ?rs = 2" by simp
  then obtain a b where ab: "?rs = [a, b]" by (auto simp: numeral_2_eq_2 length_Suc_conv)
  have "{#ranking_WinCount a, ranking_WinCount b#} = {#0, 3#}"
    using arg_cong [OF rows, of "image_mset (\<lambda>(i, n, c). c)"] by (simp add: ab)
  then have "ranking_WinCount a \<noteq> ranking_WinCount b" by (auto simp: add_eq_conv_ex)
  then have "ranking_WinCount b < ranking_WinCount a" "ranking_Rank a = 1"
    using ranking_is_rebuilt [OF run] by (auto simp: ab)
  with run ab show ?thesis by blast
qed

subsection \<open>Histories, logs and the backup\<close>

text \<open>C30: A successful run of the backup leaves on the second server a copy of every row of every table
  that is backed up, provided the copy held the rows up to the stamp of the last run; and the run
  does not change the first server's database.\<close>

theorem backup_mirrors_the_database:
  assumes "updates_all g" "keys_distinct (w_db w)" "bu_Syncer b" "bu_BackupStatus b = Some s"
    "GetBackupStatus s w = (Inr st, w1)" "mirrored (not_after (bs_LastSyncedAt st)) (w_db w) (w_backup w)"
    "RunSync g b w = (Inr (), w')"
  shows "w_db w' = w_db w \<and> mirrored (\<lambda>_. True) (w_db w) (w_backup w')"
  using assms by (rule RunSync_mirrors)

theorem backup_mirrors_the_database_witness:
  "\<exists>w'. RunSync sample_mergers sample_backup (sample_world\<lparr>w_backup := empty_db\<rparr>) = (Inr (), w') \<and>
     held user_ID copy_of_user (db_users (w_backup w')) (sample_user 1 ''alice'')"
proof -
  let ?w = "sample_world\<lparr>w_backup := empty_db\<rparr>"
  have keys: "keys_distinct (w_db ?w)" by (simp add: keys_distinct_def sample_world_simps)
  have status: "\<exists>st w1. GetBackupStatus LiveStore ?w = (Inr st, w1) \<and> bs_LastSyncedAt st = None"
    by (simp add: GetBackupStatus_def run_simps sample_eval cong: go_congs)
  then obtain st w1 where st: "GetBackupStatus LiveStore ?w = (Inr st, w1)" "bs_LastSyncedAt st = None" by blast
  have none: "mirrored (not_after (bs_LastSyncedAt st)) (w_db ?w) (w_backup ?w)"
    by (simp add: mirrored_def not_after_def st(2))
  obtain r w' where run: "RunSync sample_mergers sample_backup ?w = (r, w')" by fastforce
  then have "r = Inr ()"
    by (auto simp: RunSync_def sample_backup_def GetBackupStatus_def numeral_3_eq_3 attempt_def Sync_def sync_tasks_def
        syncRows_def backupCreate_def changed_since_def io_def empty_db_def upsert_row_def SetBackupStatus_def
        run_simps sample_eval cong: go_congs)
  with run have ok: "RunSync sample_mergers sample_backup ?w = (Inr (), w')" by simp
  have "mirrored (\<lambda>_. True) (w_db ?w) (w_backup w')"
    using backup_mirrors_the_database [OF sample_mergers_update keys _ _ st(1) none ok] by (simp add: sample_backup_def)
  then show ?thesis using ok by (auto simp: mirrored_def sample_db_def sample_world_def)
qed

text \<open>C31: The clean-up of the logs ends, whatever fails and whenever it is cancelled; when nothing fails
  and nobody cancels it, exactly the rows older than the limits are gone.\<close>

theorem retention_ends_and_is_exact:
  shows "(\<exists>w'. Retention_Run dn l w = Some w') \<and>
    ((\<forall>k. \<not> dn k) \<and> (\<forall>n. \<not> w_faults w n) \<longrightarrow>
      (\<exists>w'. Retention_Run dn l w = Some w' \<and> w_db w' = retained l (w_clock w (w_nclock w)) (w_db w)))"
  using Retention_Run_ends Retention_Run_retained by blast

theorem retention_ends_and_is_exact_witness:
  "\<exists>w'. Retention_Run (\<lambda>_. False) sample_retention sample_world = Some w' \<and>
     w_db w' = retained sample_retention 0 (w_db sample_world)"
  using retention_ends_and_is_exact [of "\<lambda>_. False" sample_retention sample_world] by (simp add: sample_world_def)

text \<open>C32: The download of the activity log can be read back: read as CSV, its records are the header and one
  row for each entry that matches the search, latest first, up to ten thousand; each cell is the text of its
  entry, after an apostrophe if the text begins with an equals, plus, minus or at sign, a tab or a carriage
  return, and no cell begins so.\<close>

theorem downloads_read_back:
  assumes "DownloadActivityLogsCSV us jt a adm lt u from till w = (Inr csv, w')"
  shows "\<exists>entries rest rows.
    csv_rows csv = [''id'', ''user_id'', ''log_type'', ''detail'', ''created_at''] # rows \<and>
    list_all2 (\<lambda>l. list_all2 cell_for (entry_texts us jt l)) entries rows \<and>
    mset (entries @ rest) = mset (filter (actlog_matches lt u from till) (db_actlogs (w_db w))) \<and>
    sorted_wrt (\<lambda>x y. actlog_CreatedAt y \<le> actlog_CreatedAt x) (entries @ rest) \<and>
    length entries = min 10000 (length (entries @ rest))"
proof -
  let ?all = "sort_key (\<lambda>l. - actlog_CreatedAt l) (filter (actlog_matches lt u from till) (db_actlogs (w_db w)))"
  have "sorted (map (\<lambda>l. - actlog_CreatedAt l) ?all)" by simp
  then have order: "sorted_wrt (\<lambda>x y. actlog_CreatedAt y \<le> actlog_CreatedAt x) ?all" by (simp add: sorted_wrt_map)
  show ?thesis
  proof (intro exI conjI)
    show "csv_rows csv = [''id'', ''user_id'', ''log_type'', ''detail'', ''created_at''] # map (csv_row us jt) (take 10000 ?all)"
      using DownloadActivityLogsCSV_rows [OF assms] by (simp add: csv_header_def)
    show "list_all2 (\<lambda>l. list_all2 cell_for (entry_texts us jt l)) (take 10000 ?all) (map (csv_row us jt) (take 10000 ?all))"
      by (simp add: list_all2_map2 list_all2_same csv_row_cells)
    show "mset (take 10000 ?all @ drop 10000 ?all) = mset (filter (actlog_matches lt u from till) (db_actlogs (w_db w)))"
      by (simp only: append_take_drop_id mset_sort)
    show "sorted_wrt (\<lambda>x y. actlog_CreatedAt y \<le> actlog_CreatedAt x) (take 10000 ?all @ drop 10000 ?all)"
      by (simp only: append_take_drop_id order)
  qed simp
qed

theorem downloads_read_back_witness:
  "\<exists>csv w' row. DownloadActivityLogsCSV (\<lambda>_. ''u'') (\<lambda>_. ''{}'') sample_admin 9 [] None None None
     (sample_world\<lparr>w_db := sample_db\<lparr>db_actlogs := [sample_log]\<rparr>\<rparr>) = (Inr csv, w') \<and>
   csv_rows csv = [[''id'', ''user_id'', ''log_type'', ''detail'', ''created_at''], row] \<and> row ! 2 = CHR 0x27 # ''=cmd''"
proof -
  let ?w = "sample_world\<lparr>w_db := sample_db\<lparr>db_actlogs := [sample_log]\<rparr>\<rparr>"
  have "\<exists>csv w'. DownloadActivityLogsCSV (\<lambda>_. ''u'') (\<lambda>_. ''{}'') sample_admin 9 [] None None None ?w = (Inr csv, w')"
    by (simp add: DownloadActivityLogsCSV_def acquireLock_def sample_admin_def activityLogRepo_Search_def Let_def
        paginatePage_def run_simps sample_world_simps split: prod.split cong: go_congs)
  then obtain csv w' where run: "DownloadActivityLogsCSV (\<lambda>_. ''u'') (\<lambda>_. ''{}'') sample_admin 9 [] None None None ?w = (Inr csv, w')"
    by blast
  from downloads_read_back [OF run] obtain entries rest rows where
    rows: "csv_rows csv = [''id'', ''user_id'', ''log_type'', ''detail'', ''created_at''] # rows"
      "list_all2 (\<lambda>l. list_all2 cell_for (entry_texts (\<lambda>_. ''u'') (\<lambda>_. ''{}'') l)) entries rows"
    and all: "mset (entries @ rest) = {#sample_log#}" "length entries = min 10000 (length (entries @ rest))"
    by (auto simp: actlog_matches_def sample_world_simps)
  then have "length (entries @ rest) = 1" by (metis size_mset size_single)
  with all have "entries = [sample_log]" by (cases entries) auto
  with rows(2) obtain row where row: "rows = [row]" "list_all2 cell_for (entry_texts (\<lambda>_. ''u'') (\<lambda>_. ''{}'') sample_log) row"
    by (auto simp: list_all2_Cons1)
  have "cell_for (entry_texts (\<lambda>_. ''u'') (\<lambda>_. ''{}'') sample_log ! 2) (row ! 2)"
    by (rule list_all2_nthD [OF row(2)]) (simp add: entry_texts_def)
  then have "row ! 2 = CHR 0x27 # ''=cmd''" by (simp add: entry_texts_def sample_log_def cell_for_def harmless_def)
  with run rows(1) row(1) show ?thesis by blast
qed

text \<open>C33: The history of matches comes out complete page by page, when no call fails and the user's matches
  finished at different times: for pages of a size, the pages one after the other are the user's matches,
  latest first, each once and none left out, and every page tells their number. (Matches that finished at the
  same time have no order that the query promises.)\<close>

theorem history_pages_are_complete:
  assumes "\<And>k. \<not> w_faults w k" "has_account (w_db w) u" "0 < n" "int m * int n < 2 ^ 63" "int m < 2 ^ 63"
    "distinct (map history_FinishedAt (users_matches (w_db w) u))"
  shows "\<exists>hs items. mset hs = mset (users_matches (w_db w) u) \<and>
    sorted_wrt (\<lambda>x y. history_FinishedAt y < history_FinishedAt x) hs \<and>
    (\<forall>p<m. fst (GetMatchHistory u (int p + 1) (int n) w) = Inr (items p, int (length hs))) \<and>
    concat (map items [0..<m]) = take (m * n) (map match_item hs)"
  using matches_of_ordered [OF assms(6)] GetMatchHistory_pages [OF assms(1-5)] by blast

theorem history_pages_are_complete_witness:
  "\<exists>a b. fst (GetMatchHistory 1 1 2 (sample_world\<lparr>w_db := sample_db\<lparr>db_histories := map sample_result [1, 3, 2]\<rparr>\<rparr>)) = Inr (a, 3) \<and>
     fst (GetMatchHistory 1 2 2 (sample_world\<lparr>w_db := sample_db\<lparr>db_histories := map sample_result [1, 3, 2]\<rparr>\<rparr>)) = Inr (b, 3) \<and>
     map mh_FinishedAt (a @ b) = [3, 2, 1]"
proof -
  let ?w = "sample_world\<lparr>w_db := sample_db\<lparr>db_histories := map sample_result [1, 3, 2]\<rparr>\<rparr>"
  have mine: "users_matches (w_db ?w) 1 = map sample_result [1, 3, 2]"
    by (simp add: users_matches_def sample_result_def)
  have times: "map history_FinishedAt (map sample_result ts) = ts" for ts
    by (induction ts) (simp_all add: sample_result_def)
  have "has_account (w_db ?w) 1" "\<And>k. \<not> w_faults ?w k" by (simp_all add: has_account_def sample_eval)
  moreover have "distinct (map history_FinishedAt (users_matches (w_db ?w) 1))" unfolding mine times by simp
  ultimately obtain hs items where hs: "mset hs = mset (map sample_result [1, 3, 2])"
      "sorted_wrt (\<lambda>x y. history_FinishedAt y < history_FinishedAt x) hs"
    and pages: "\<forall>p<2. fst (GetMatchHistory 1 (int p + 1) (int 2) ?w) = Inr (items p, int (length hs))"
      "concat (map items [0..<2]) = take (2 * 2) (map match_item hs)"
    using history_pages_are_complete [of ?w 1 2 2] unfolding mine by auto
  have "mset (map history_FinishedAt hs) = mset [1, 3, 2]" using hs(1) times [of "[1, 3, 2]"] by (metis mset_map)
  moreover have "sorted (rev (map history_FinishedAt hs))"
    using hs(2) by (auto simp: sorted_wrt_rev sorted_wrt_map intro: sorted_wrt_mono_rel [rotated])
  ultimately have "rev (map history_FinishedAt hs) = sort [1, 3, 2]"
    by (metis mset_rev properties_for_sort)
  then have "map history_FinishedAt hs = [3, 2, 1]" by (simp add: rev_eq_Cons_iff)
  then have "length hs = 3" "map mh_FinishedAt (map match_item hs) = [3, 2, 1]"
    by (auto simp: match_item_def comp_def dest: arg_cong [of _ _ length])
  with pages have "fst (GetMatchHistory 1 1 2 ?w) = Inr (items 0, 3)" "fst (GetMatchHistory 1 2 2 ?w) = Inr (items 1, 3)"
    "map mh_FinishedAt (items 0 @ items 1) = [3, 2, 1]"
    by (auto simp: numeral_2_eq_2 less_Suc_eq_0_disj)
  then show ?thesis by (intro exI conjI)
qed

subsection \<open>Where the code does not do what it means to\<close>

text \<open>C34: On PostgreSQL no secret number is ever stored: the hash of a secret is 259 characters long with
  HMAC-SHA256 (32 bytes), and the column holds 255, so saving the game is refused.\<close>

theorem secret_does_not_fit_the_column:
  assumes "\<And>k m. length (h_hmac (uc_Secrets c) k m) = 32" "w_dialect w = Postgres"
  shows "fst (setSecretTx c u gid ds w) \<noteq> Inr started"
proof
  assume ok: "fst (setSecretTx c u gid ds w) = Inr started"
  then have run: "setSecretTx c u gid ds w = (Inr started, snd (setSecretTx c u gid ds w))"
    by (simp add: prod_eq_iff)
  then obtain g hash g1 t where hash: "Hash (uc_Secrets c) ds gid (if u = game_Player2ID g then 2 else 1) = Inr hash"
    and set: "setGameSecretHash g u hash = Inr g1" and fits: "game_fits (g1\<lparr>game_UpdatedAt := t\<rparr>)"
    using assms(2) by (auto simp: setSecretTx_def Let_def success_iff find_defs)
  have "char_count hash = 8 * 32 + 3" by (rule char_count_Hash [OF assms(1) hash])
  with set fits show False
    by (auto simp: game_fits_def elim!: setGameSecretHash_cases)
qed

theorem secret_does_not_fit_the_column_witness:
  "fst (setSecretTx (sample_uc\<lparr>uc_Secrets := sample_hasher\<lparr>h_hmac := (\<lambda>k m. replicate 32 CHR ''x'')\<rparr>\<rparr>)
     1 50 [1, 2, 3, 4] (waiting_world\<lparr>w_dialect := Postgres\<rparr>)) \<noteq> Inr False"
  by (rule secret_does_not_fit_the_column) (simp_all add: waiting_world_def)

text \<open>C35: A program that runs without Redis, as the configuration allows outside of production, cannot
  serve a user: every request to a protected route whose token can be read when the request is served (it is
  valid and not expired then) is answered with an internal error.\<close>

theorem requests_fail_without_redis:
  assumes "program d lib getenv = Inr s" "redisAddrConfigured getenv = ''''"
    "is_protected (se_Deps s) rq" "map_of (rq_Cookies rq) ''access_token'' = Some tok" "tok \<noteq> ''''"
    "Parse (ac_JWT (dp_AuthMW (se_Deps s))) tok (w\<lparr>w_nclock := Suc (w_nclock w)\<rparr>) = (Inr tk, w1)"
  shows "fst (serve_http (se_Deps s) rq w) = Inr (WriteError ErrInternal)"
  using program_without_redis [OF assms(1,2)] no_redis_request_fails assms(3-6) by blast

theorem requests_fail_without_redis_witness:
  "fst (serve_http (se_Deps (sample_server [])) (sample_request ''GET'' ''/api/me'' [(''access_token'', ''x'')]) sample_world) =
     Inr (WriteError ErrInternal)"
proof -
  obtain tk w1 where parsed: "Parse (ac_JWT (dp_AuthMW (se_Deps (sample_server [])))) ''x''
      (sample_world\<lparr>w_nclock := Suc (w_nclock sample_world)\<rparr>) = (Inr tk, w1)"
    using sample_server_parses [of "''x''" "[]" "sample_world\<lparr>w_nclock := Suc (w_nclock sample_world)\<rparr>"] by auto
  show ?thesis
    by (rule requests_fail_without_redis [OF sample_program _ sample_protected(1) _ _ parsed])
      (simp_all add: redisAddrConfigured_def sample_env_def TrimSpace_Nil sample_request_def)
qed

text \<open>C36: A program without Redis does not survive a game whose secrets are not set in time: even when no call
  to the database fails, the tick of the worker that is to cancel the game panics, outside of any request.
  (The database is sound; on PostgreSQL the stored rows are taken to fit their columns; the clock does not go back.)\<close>

theorem overdue_game_stops_the_program_without_redis:
  assumes "program d lib getenv = Inr s" "redisAddrConfigured getenv = ''''"
    "duel_inv (uc_Secrets (hd_Game (se_WS s))) (w_db w)" "writable w"
    "\<And>m n. m \<le> n \<Longrightarrow> w_clock w m \<le> w_clock w n" "t \<le> w_clock w (w_nclock w)"
    "g \<in> set (db_games (w_db w))" "overdue (hd_Game (se_WS s)) t g" "0 < uc_SecretSetup (hd_Game (se_WS s))"
  shows "fst (SecretSetupTimeoutWorker_tick (hd_Game (se_WS s)) t w) = Inl Panic"
proof -
  obtain backup cfg where "main_server lib False backup cfg = Inr s" using program_without_redis [OF assms(1,2)] by blast
  from main_server_parts(3) [OF this] have "uc_Turns (hd_Game (se_WS s)) = Some NilStore" by (simp add: NewStore_def)
  with assms(3-9) show ?thesis by (intro secret_worker_panics)
qed

theorem overdue_game_stops_the_program_without_redis_witness:
  "w_dialect late_world = Postgres \<and>
   fst (SecretSetupTimeoutWorker_tick (hd_Game (se_WS (sample_server []))) (100 * second) late_world) = Inl Panic"
proof
  show "w_dialect late_world = Postgres" by (simp add: late_world_def)
  show "fst (SecretSetupTimeoutWorker_tick (hd_Game (se_WS (sample_server []))) (100 * second) late_world) = Inl Panic"
  proof (rule overdue_game_stops_the_program_without_redis [OF sample_program])
    show "duel_inv (uc_Secrets (hd_Game (se_WS (sample_server [])))) (w_db late_world)"
      by (simp only: sample_server_hasher late_world_facts(4) duel_inv_waiting)
    show "sample_waiting \<in> set (db_games (w_db late_world))"
      using waiting_facts(1) by (simp only: late_world_facts(4))
    show "overdue (hd_Game (se_WS (sample_server []))) (100 * second) sample_waiting"
      by (rule late_world_facts(5) [OF sample_server_setup])
  qed (use late_world_facts(1-3) in \<open>simp_all add: redisAddrConfigured_def sample_env_def TrimSpace_Nil sample_server_setup\<close>)
qed

text \<open>C37: The number of guesses that the state of a game reports for the opponent is the number of the
  caller's own guesses.\<close>

theorem opponent_guess_count_is_the_callers:
  assumes "duel_inv h (w_db w)" "fst (buildGameState c u gid w) = Inr out"
  shows "out_OpponentGuessCount out = int (length (out_MyGuesses out))"
  using opponent_count_is_own [OF assms(1), of c u gid out "snd (buildGameState c u gid w)"] assms(2)
  by (simp add: prod_eq_iff)

theorem opponent_guess_count_is_the_callers_witness:
  "\<exists>out. fst (buildGameState sample_uc 1 50 running_world) = Inr out \<and>
     out_OpponentGuessCount out = int (length (out_MyGuesses out))"
proof -
  have "\<exists>out. fst (buildGameState sample_uc 1 50 running_world) = Inr out"
    by (simp add: buildGameState_def require_def guessRepo_ListByGameAndPlayer_def guessRepo_CountByGameExcludingPlayer_def
        run_simps sample_eval scenario_simps IsParticipant_def cong: go_congs)
  then show ?thesis using opponent_guess_count_is_the_callers [OF duel_inv_running] by blast
qed

text \<open>C38: The worker of the automatic logout keeps the time of its first tick: whatever times the ticker
  delivers later, the use case goes on with the first one.\<close>

theorem auto_logout_time_stands_still:
  assumes "fst (AutoLogoutWorker_ticks (a\<lparr>al_Now := None\<rparr>) (t # ts) w) = Inr a'"
  shows "al_Now a' = Some t"
proof -
  from assms have "AutoLogoutWorker_ticks (a\<lparr>al_Now := None\<rparr>) (t # ts) w =
      (Inr a', snd (AutoLogoutWorker_ticks (a\<lparr>al_Now := None\<rparr>) (t # ts) w))"
    by (simp add: prod_eq_iff)
  then obtain a1 w1 where tick: "AutoLogoutWorker_tick (a\<lparr>al_Now := None\<rparr>) t w = (Inr a1, w1)"
    and rest: "\<exists>w2. AutoLogoutWorker_ticks a1 ts w1 = (Inr a', w2)"
    by (auto simp: andThen_success)
  from AutoLogoutWorker_tick_Now [OF tick] rest AutoLogoutWorker_ticks_Now [where a = a and ?t0.0 = t and ts = ts and w = w1]
  show ?thesis by auto
qed

theorem auto_logout_time_stands_still_witness:
  "al_Now (the (case fst (AutoLogoutWorker_ticks \<lparr>al_ForceLogout = None, al_ForceDisconnect = None,
     al_SessionTimeout = 0, al_Now = None\<rparr> [1, 2, 3] sample_world) of Inr a \<Rightarrow> Some a | Inl _ \<Rightarrow> None)) = Some 1"
proof -
  let ?a = "\<lparr>al_ForceLogout = None, al_ForceDisconnect = None, al_SessionTimeout = 0, al_Now = None\<rparr>"
  have run: "fst (AutoLogoutWorker_ticks (?a\<lparr>al_Now := None\<rparr>) [1, 2, 3] sample_world) = Inr (?a\<lparr>al_Now := Some 1\<rparr>)"
    by (simp add: AutoLogoutWorker_tick_def AutoLogout_Run_def run_simps Let_def)
  from auto_logout_time_stands_still [OF run] run show ?thesis by simp
qed

text \<open>C39: The end of a connection closes its user's current one: when a user has connected again, the end
  of the old connection closes the new connection and takes the user out of the hub.\<close>

theorem old_connection_ends_the_new_one:
  assumes "wc_userID c = u" "u \<noteq> uuid_nil" "hub_conn w u = Some k" "fst (handleEnd h c w) = Inr ()"
  shows "k \<in> w_closed (snd (handleEnd h c w)) \<and> hub_conn (snd (handleEnd h c w)) u = None"
  using old_end_closes_new [OF assms(1-3), of h "snd (handleEnd h c w)"] assms(4) by (simp add: prod_eq_iff)

theorem old_connection_ends_the_new_one_witness:
  "5 \<in> w_closed (snd (handleEnd sample_handler
      \<lparr>wc_conn = 4, wc_connID = ''old'', wc_userID = 1, wc_wsLogID = 0, wc_authCh = True\<rparr>
      (sample_world\<lparr>w_hub := [(1, \<lparr>cc_userID = 1, cc_connID = ''new'', cc_conn = Some 5\<rparr>)]\<rparr>)))"
proof -
  let ?c = "\<lparr>wc_conn = 4, wc_connID = ''old'', wc_userID = 1, wc_wsLogID = 0, wc_authCh = True\<rparr>"
  let ?w = "sample_world\<lparr>w_hub := [(1, \<lparr>cc_userID = 1, cc_connID = ''new'', cc_conn = Some 5\<rparr>)]\<rparr>"
  have "fst (handleEnd sample_handler ?c ?w) = Inr ()"
    by (simp add: handleEnd_def onDisconnect_def sample_handler_def Hub_Disconnect_def close_client_def conn_Close_def
        CloseConnectionLog_def wsConnectionLogRepo_UpdateDisconnected_def NotifyOpponentDisconnected_def notifyOpponent_def
        findActiveGameForUser_def gameRepo_ListByPlayerID_def attempt_def run_simps sample_eval cong: go_congs)
  then show ?thesis
    using old_connection_ends_the_new_one [of ?c 1 ?w 5 sample_handler] by (simp add: hub_conn_def)
qed

text \<open>C40: The worker of the turns never sees a turn that has been over for as long as writing its key took:
  the key expires with the turn, and the list of turns that are over is made from the keys.\<close>

theorem expired_turns_are_missed:
  assumes "SetTurn s g n p started ends w = (Inr x, w')" "second \<le> ends - started" "w_redis v = w_redis w'"
    "ends + (w_clock w (w_nclock w) - started) \<le> w_clock v (w_nclock v)"
    "ListExpiredTurns s t0 v = (Inr out, v')"
  shows "g \<notin> et_GameID ` set out"
  using assms by (rule turn_over_not_listed)

theorem expired_turns_are_missed_witness:
  "\<exists>w' out v'. SetTurn LiveStore 50 1 1 0 (30 * second) sample_world = (Inr (), w') \<and>
     ListExpiredTurns LiveStore (40 * second) (w'\<lparr>w_nclock := 40\<rparr>) = (Inr out, v') \<and> 50 \<notin> et_GameID ` set out"
proof -
  obtain r w' where run: "SetTurn LiveStore 50 1 1 0 (30 * second) sample_world = (r, w')" by fastforce
  then have r: "r = Inr ()" and w': "w_redis w' = [(TurnKey 50, RTurn \<lparr>tp_Turn = 1, tp_PlayerID = 1, tp_StartedAt = 0,
      tp_ExpiresAt = 30 * second\<rparr>, Some (30 * second))]" "w_clock w' = w_clock sample_world" "w_faults w' = w_faults sample_world"
    by (auto simp: SetTurn_def Let_def run_simps sample_eval cong: go_congs)
  have "\<exists>out v'. ListExpiredTurns LiveStore (40 * second) (w'\<lparr>w_nclock := 40\<rparr>) = (Inr out, v')"
    by (simp add: ListExpiredTurns_def turn_keys_def batches.simps [of 100 "[]"] run_simps sample_eval w' cong: go_congs)
  then obtain out v' where list: "ListExpiredTurns LiveStore (40 * second) (w'\<lparr>w_nclock := 40\<rparr>) = (Inr out, v')" by blast
  have set: "SetTurn LiveStore 50 1 1 0 (30 * second) sample_world = (Inr (), w')" using run r by simp
  have "50 \<notin> et_GameID ` set out"
    by (rule expired_turns_are_missed [OF set _ _ _ list]) (simp_all add: w' sample_world_simps)
  with set list show ?thesis by blast
qed

subsection \<open>Further facts\<close>

text \<open>A request taken call by call is the request: the task of each request, message or call of a worker
  that changes accounts, sessions, games, the queue, the ranking or the log of connections, when nothing
  else runs between its calls, returns what its handler returns and leaves the world it leaves, from
  every world.\<close>

lemma a_request_alone_is_its_handler: "alone (request_task s rq) w = request_prog s rq w"
  by (simp only: alone_request)

text \<open>What the workers' \<open>Run\<close> methods do is a sequence of steps of the running program, whatever
  times the tickers deliver and however often the schedules fire; and the clean-up of the logs ends
  every time.\<close>

lemma workers_are_steps:
  assumes "sy_up y"
  shows "(se_TurnWorker s \<longrightarrow> worker_runs s y (TurnTimeoutWorker_Run (se_Store s) (Some (hd_Game (se_WS s))) interval ts)) \<and>
    (se_SecretWorker s \<longrightarrow> worker_runs s y (SecretSetupTimeoutWorker_Run (Some (hd_Game (se_WS s))) interval ts)) \<and>
    worker_runs s y (BackupWorker_Run cronOK (se_Mergers s) (se_Backup s) spec n) \<and>
    worker_runs s y (RankingRebuildWorker_Run cronOK (se_Ranking s) spec n) \<and>
    (se_TokenCleanup s \<longrightarrow> worker_runs s y (RefreshTokenCleanupWorker_Run cronOK (Some (dp_Auth (se_Deps s))) spec n)) \<and>
    (\<exists>w. LogRetentionWorker_Run cronOK (se_Retention s) spec dns (sy_world y) = Some w \<and> runs s y (y\<lparr>sy_world := w\<rparr>)) \<and>
    (\<forall>a r w. sy_autoLogout y = Some a \<and> AutoLogoutWorker_Run (Some a) interval ts (sy_world y) = (r, w) \<longrightarrow>
       (\<exists>a'. runs s y ((ran y (r, w))\<lparr>sy_autoLogout := Some a'\<rparr>) \<and> (\<forall>b. r = Inr b \<longrightarrow> b = Some a')))"
  by (intro conjI impI allI; (elim conjE)?;
      rule TurnTimeoutWorker_runs [OF _ assms] SecretSetupTimeoutWorker_runs [OF _ assms] BackupWorker_runs [OF assms]
        RankingRebuildWorker_runs [OF assms] RefreshTokenCleanupWorker_runs [OF _ assms] LogRetentionWorker_runs [OF assms]
        AutoLogoutWorker_runs [OF assms]; assumption)

text \<open>The store of a started program works exactly when an address of Redis is configured, and in
  production there always is one.\<close>

lemma production_has_redis:
  assumes "program d lib getenv = Inr s"
  shows "(se_Store s = LiveStore \<longleftrightarrow> redisAddrConfigured getenv \<noteq> '''') \<and>
    (isProductionEnv [getenv ''APP_ENV'', getenv ''ENV''] \<longrightarrow> se_Store s = LiveStore)"
  using program_store [OF assms] by blast

text \<open>At most one player waits in the queue, whatever the matching requests return: a second player
  is matched or replaces one that cannot play any more.\<close>

lemma one_player_waits:
  assumes "queue_inv (w_db w)"
  shows "queue_inv (w_db (snd (StartMatching notifier u w))) \<and> queue_inv (w_db (snd (CancelMatching u w)))"
  using keepsD [OF match_queue.keeps_StartMatching] keepsD [OF match_queue.keeps_CancelMatching] assms
  by blast

text \<open>An incremental backup leaves out every account that was not changed after the stamp of the last
  run: the second server keeps what it had of it. As the stamp is the time after the copy, an account
  changed while the last run copied is left out as well.\<close>

lemma incremental_backup_skips:
  assumes "updates_all g" "keys_distinct (w_db w)"
    "\<forall>u\<in>set (db_users (w_db w)). user_ID u = k \<longrightarrow> user_UpdatedAt u \<le> stamp"
  shows "filter (\<lambda>u. user_ID u = k) (db_users (w_backup (snd (Sync g (Some stamp) w)))) =
    filter (\<lambda>u. user_ID u = k) (db_users (w_backup w))"
  using assms by (rule Sync_skips)

end
